theory Spec2Isabelle
  imports Complex_Main "HOL-Library.Log_Nat" "HOL-Library.Word"
begin

section \<open>Go values used by package model\<close>

subsection \<open>float32\<close>

text \<open>
  A Go \<^verbatim>\<open>float32\<close> is an IEEE 754 binary32 value. The model keeps the special values
  apart and holds every other value as the rational number it denotes; \<open>Fin 0\<close> is
  \<open>+0\<close> and \<open>NegZero\<close> is \<open>-0\<close>. Payloads of NaNs are not kept: the program never
  looks at them.
\<close>

datatype float32 = NaN | PInf | NInf | NegZero | Fin rat

fun f32_val :: "float32 \<Rightarrow> rat" where
  "f32_val (Fin q) = q"
| "f32_val _ = 0"

text \<open>The position of a value on the extended number line: \<open>-1\<close>, \<open>0\<close>, \<open>1\<close> for
  \<open>-Inf\<close>, the finite values and \<open>+Inf\<close>, then the value itself.\<close>

fun f32_cls :: "float32 \<Rightarrow> int" where
  "f32_cls PInf = 1"
| "f32_cls NInf = -1"
| "f32_cls _ = 0"

definition f32_isNaN :: "float32 \<Rightarrow> bool" where
  "f32_isNaN a = (a = NaN)"

text \<open>Go's \<^verbatim>\<open><\<close>, \<^verbatim>\<open>></\<close>, \<^verbatim>\<open><=\<close> and \<^verbatim>\<open>==\<close> on floats: false as soon as one side is a NaN,
  and \<open>-0\<close> equals \<open>+0\<close>.\<close>

definition f32_lt :: "float32 \<Rightarrow> float32 \<Rightarrow> bool" where
  "f32_lt a b = (a \<noteq> NaN \<and> b \<noteq> NaN \<and>
     (f32_cls a < f32_cls b \<or> f32_cls a = f32_cls b \<and> f32_val a < f32_val b))"

definition f32_gt :: "float32 \<Rightarrow> float32 \<Rightarrow> bool" where
  "f32_gt a b = f32_lt b a"

definition f32_eq :: "float32 \<Rightarrow> float32 \<Rightarrow> bool" where
  "f32_eq a b = (a \<noteq> NaN \<and> b \<noteq> NaN \<and> f32_cls a = f32_cls b \<and> f32_val a = f32_val b)"

definition f32_le :: "float32 \<Rightarrow> float32 \<Rightarrow> bool" where
  "f32_le a b = (f32_lt a b \<or> f32_eq a b)"

text \<open>The sign bit.\<close>

fun f32_neg :: "float32 \<Rightarrow> bool" where
  "f32_neg NInf = True"
| "f32_neg NegZero = True"
| "f32_neg (Fin q) = (q < 0)"
| "f32_neg _ = False"

definition f32_isZero :: "float32 \<Rightarrow> bool" where
  "f32_isZero a = (a = NegZero \<or> a = Fin 0)"

definition f32_isInf :: "float32 \<Rightarrow> bool" where
  "f32_isInf a = (a = PInf \<or> a = NInf)"

definition f32_zero :: "bool \<Rightarrow> float32" where
  "f32_zero s = (if s then NegZero else Fin 0)"

definition f32_inf :: "bool \<Rightarrow> float32" where
  "f32_inf s = (if s then NInf else PInf)"

text \<open>Rounding to the nearest binary32 value, ties to the even significand: 24 bits of
  significand, exponents from \<open>-126\<close> (below it the values are subnormal, in steps of
  \<open>2^-149\<close>) to \<open>127\<close>; a result of \<open>2^128\<close> or more is an infinity.\<close>

definition pow2 :: "int \<Rightarrow> rat" where
  "pow2 e = (if 0 \<le> e then 2 ^ nat e else 1 / 2 ^ nat (- e))"

definition round_half_even :: "rat \<Rightarrow> int" where
  "round_half_even r =
     (let n = \<lfloor>r\<rfloor>; d = r - of_int n
      in if d < 1 / 2 then n else if 1 / 2 < d then n + 1 else if even n then n else n + 1)"

definition f32_exponent :: "rat \<Rightarrow> int" where
  "f32_exponent q =
     (let e = bitlen (fst (quotient_of q)) - bitlen (snd (quotient_of q))
      in max (- 126) (if pow2 e \<le> q then e else e - 1))"

definition f32_round_mag :: "rat \<Rightarrow> rat option" where
  "f32_round_mag q =
     (let u = pow2 (f32_exponent q - 23);
          r = of_int (round_half_even (q / u)) * u
      in if r < pow2 128 then Some r else None)"

definition f32_round :: "rat \<Rightarrow> float32" where
  "f32_round q =
     (if q = 0 then Fin 0
      else if 0 < q then (case f32_round_mag q of None \<Rightarrow> PInf | Some r \<Rightarrow> Fin r)
      else (case f32_round_mag (- q) of
              None \<Rightarrow> NInf
            | Some r \<Rightarrow> if r = 0 then NegZero else Fin (- r)))"

text \<open>\<^verbatim>\<open>a - b\<close>.\<close>

definition f32_sub :: "float32 \<Rightarrow> float32 \<Rightarrow> float32" where
  "f32_sub a b =
     (if a = NaN \<or> b = NaN then NaN
      else if f32_isInf a then (if a = b then NaN else a)
      else if f32_isInf b then f32_inf (\<not> f32_neg b)
      else if f32_val a - f32_val b = 0
        then (if a = NegZero \<and> b = Fin 0 then NegZero else Fin 0)
      else f32_round (f32_val a - f32_val b))"

text \<open>\<^verbatim>\<open>a / b\<close>.\<close>

definition f32_div :: "float32 \<Rightarrow> float32 \<Rightarrow> float32" where
  "f32_div a b =
     (let s = (f32_neg a \<noteq> f32_neg b)
      in if a = NaN \<or> b = NaN then NaN
         else if f32_isInf a then (if f32_isInf b then NaN else f32_inf s)
         else if f32_isInf b then f32_zero s
         else if f32_isZero b then (if f32_isZero a then NaN else f32_inf s)
         else if f32_isZero a then f32_zero s
         else f32_round (f32_val a / f32_val b))"

text \<open>\<^verbatim>\<open>a * b\<close>.\<close>

definition f32_mul :: "float32 \<Rightarrow> float32 \<Rightarrow> float32" where
  "f32_mul a b =
     (let s = (f32_neg a \<noteq> f32_neg b)
      in if a = NaN \<or> b = NaN then NaN
         else if f32_isInf a \<or> f32_isInf b
           then (if f32_isZero a \<or> f32_isZero b then NaN else f32_inf s)
         else if f32_isZero a \<or> f32_isZero b then f32_zero s
         else f32_round (f32_val a * f32_val b))"

text \<open>\<^verbatim>\<open>math.MaxFloat32\<close>, the largest finite value \<open>(2 - 2^-23) * 2^127\<close>, and its
  negation.\<close>

definition MaxFloat32 :: float32 where
  "MaxFloat32 = Fin (2 ^ 128 - 2 ^ 104)"

definition NegMaxFloat32 :: float32 where
  "NegMaxFloat32 = Fin (- (2 ^ 128 - 2 ^ 104))"

text \<open>A value is finite when it is a zero or a number no larger than
  \<^verbatim>\<open>math.MaxFloat32\<close> in magnitude.\<close>

definition f32_isFinite :: "float32 \<Rightarrow> bool" where
  "f32_isFinite a = (case a of NegZero \<Rightarrow> True | Fin q \<Rightarrow> \<bar>q\<bar> \<le> 2 ^ 128 - 2 ^ 104 | _ \<Rightarrow> False)"

subsection \<open>int\<close>

text \<open>
  Go's \<^verbatim>\<open>int\<close> is taken as the 64-bit two's complement integer of the 64-bit
  platforms: a mathematical integer, with the wrap-around written out after every
  operation. Division truncates towards zero.
\<close>

definition is_int64 :: "int \<Rightarrow> bool" where
  "is_int64 i = (- (2 ^ 63) \<le> i \<and> i < 2 ^ 63)"

definition wrap64 :: "int \<Rightarrow> int" where
  "wrap64 i = (i + 2 ^ 63) mod 2 ^ 64 - 2 ^ 63"

definition int_add :: "int \<Rightarrow> int \<Rightarrow> int" where
  "int_add a b = wrap64 (a + b)"

definition int_sub :: "int \<Rightarrow> int \<Rightarrow> int" where
  "int_sub a b = wrap64 (a - b)"

definition int_quot :: "int \<Rightarrow> int \<Rightarrow> int" where
  "int_quot a b =
     wrap64 (if (a < 0) = (b < 0) then \<bar>a\<bar> div \<bar>b\<bar> else - (\<bar>a\<bar> div \<bar>b\<bar>))"

text \<open>\<^verbatim>\<open>float32(i)\<close> rounds to the nearest value.\<close>

definition f32_of_int :: "int \<Rightarrow> float32" where
  "f32_of_int i = f32_round (of_int i)"

text \<open>
  \<^verbatim>\<open>int(x)\<close> discards the fraction. For a NaN, an infinity or a value outside the range of
  \<^verbatim>\<open>int\<close> the conversion succeeds and its result is left to the implementation by the
  language; the model takes that choice as the parameter \<open>oor\<close>.
\<close>

definition f32_trunc :: "rat \<Rightarrow> int" where
  "f32_trunc q = (if 0 \<le> q then \<lfloor>q\<rfloor> else - \<lfloor>- q\<rfloor>)"

definition f32_to_int :: "(float32 \<Rightarrow> int) \<Rightarrow> float32 \<Rightarrow> int" where
  "f32_to_int oor a =
     (case a of
        Fin q \<Rightarrow> if is_int64 (f32_trunc q) then f32_trunc q else wrap64 (oor a)
      | NegZero \<Rightarrow> 0
      | _ \<Rightarrow> wrap64 (oor a))"

text \<open>What amd64 does where the language leaves the result open: every such conversion
  gives the least \<^verbatim>\<open>int\<close>.\<close>

definition oor_amd64 :: "float32 \<Rightarrow> int" where
  "oor_amd64 a = - (2 ^ 63)"

subsection \<open>Arrays of three, panics and errors\<close>

datatype 'a arr3 = Arr3 'a 'a 'a

text \<open>Indexing \<^verbatim>\<open>a[i]\<close> and assignment \<^verbatim>\<open>a[i] = x\<close> of a \<^verbatim>\<open>[3]T\<close>. The program indexes these
  arrays by \<^verbatim>\<open>range\<close> loops and by the axis numbers of \<open>GetAxisForProjection\<close> only,
  all of them below 3.\<close>

fun arr3_get :: "'a arr3 \<Rightarrow> nat \<Rightarrow> 'a" where
  "arr3_get (Arr3 x y z) i = (if i = 0 then x else if i = 1 then y else z)"

fun arr3_set :: "'a arr3 \<Rightarrow> nat \<Rightarrow> 'a \<Rightarrow> 'a arr3" where
  "arr3_set (Arr3 x y z) i v =
     (if i = 0 then Arr3 v y z else if i = 1 then Arr3 x v z else Arr3 x y v)"

fun arr3_list :: "'a arr3 \<Rightarrow> 'a list" where
  "arr3_list (Arr3 x y z) = [x, y, z]"

text \<open>What ends a call without a result: the three run-time panics of the program and
  the runtime's fatal error when the machine has no memory left for an allocation.\<close>

datatype panic = SliceBoundsOutOfRange | IndexOutOfRange | MakeSliceLenOutOfRange | OutOfMemory

datatype error =
    EOF
  | ErrUnexpectedEOF
  | LineShorter
  | LineDifferent
  | PartsNumber
  | NumError

section \<open>The data model\<close>

record Triangle =
  Normal :: "float32 arr3"
  Vertices :: "float32 arr3 arr3"
  AttrByteCount :: "16 word"

record Model =
  Header :: string
  NumTriangles :: "32 word"
  Triangles :: "Triangle list"

definition zeroTriangle :: Triangle where
  "zeroTriangle =
     \<lparr>Normal = Arr3 (Fin 0) (Fin 0) (Fin 0),
      Vertices = Arr3 (Arr3 (Fin 0) (Fin 0) (Fin 0)) (Arr3 (Fin 0) (Fin 0) (Fin 0))
                      (Arr3 (Fin 0) (Fin 0) (Fin 0)),
      AttrByteCount = 0\<rparr>"

definition zeroModel :: Model where
  "zeroModel = \<lparr>Header = [], NumTriangles = 0, Triangles = []\<rparr>"

section \<open>Projection\<close>

subsection \<open>GetAxisForProjection\<close>

definition ProjectFromSide :: int where "ProjectFromSide = 0"
definition ProjectFromFront :: int where "ProjectFromFront = 1"
definition ProjectFromTop :: int where "ProjectFromTop = 2"

text \<open>The results are returned as \<open>(forX, forY, forValue)\<close>; a value of \<^verbatim>\<open>ProjectFrom\<close>
  that is none of the three constants leaves the named results at zero.\<close>

definition GetAxisForProjection :: "int \<Rightarrow> nat \<times> nat \<times> nat" where
  "GetAxisForProjection p =
     (if p = ProjectFromSide then (2, 1, 0)
      else if p = ProjectFromFront then (2, 0, 1)
      else if p = ProjectFromTop then (1, 0, 2)
      else (0, 0, 0))"

subsection \<open>getMinsMaxs\<close>

text \<open>The body of the innermost loop: coordinate \<open>k\<close> of one vertex against \<open>mins[k]\<close>
  and \<open>maxs[k]\<close>.\<close>

definition update_min_max :: "float32 arr3 \<Rightarrow> nat \<Rightarrow> float32 arr3 \<times> float32 arr3
    \<Rightarrow> float32 arr3 \<times> float32 arr3" where
  "update_min_max vertex k mm =
     (let mins = fst mm; maxs = snd mm;
          mins' = (if f32_lt (arr3_get vertex k) (arr3_get mins k)
                   then arr3_set mins k (arr3_get vertex k) else mins);
          maxs' = (if f32_gt (arr3_get vertex k) (arr3_get maxs k)
                   then arr3_set maxs k (arr3_get vertex k) else maxs)
      in (mins', maxs'))"

definition scan_vertex :: "float32 arr3 \<Rightarrow> float32 arr3 \<times> float32 arr3
    \<Rightarrow> float32 arr3 \<times> float32 arr3" where
  "scan_vertex vertex mm = fold (update_min_max vertex) [0, 1, 2] mm"

definition scan_triangle :: "Triangle \<Rightarrow> float32 arr3 \<times> float32 arr3
    \<Rightarrow> float32 arr3 \<times> float32 arr3" where
  "scan_triangle t mm = fold scan_vertex (arr3_list (Vertices t)) mm"

definition getMinsMaxs :: "Model \<Rightarrow> float32 arr3 \<times> float32 arr3" where
  "getMinsMaxs m =
     fold scan_triangle (Triangles m)
       (Arr3 MaxFloat32 MaxFloat32 MaxFloat32, Arr3 NegMaxFloat32 NegMaxFloat32 NegMaxFloat32)"

text \<open>Every vertex of the mesh, in the order the loops visit them.\<close>

definition all_vertices :: "Model \<Rightarrow> float32 arr3 list" where
  "all_vertices m = concat (map (\<lambda>t. arr3_list (Vertices t)) (Triangles m))"

text \<open>On one axis the scan is a running minimum and a running maximum; the second is
  also the comparison-and-store of the projection on one cell.\<close>

definition min_step :: "float32 \<Rightarrow> float32 \<Rightarrow> float32" where
  "min_step c a = (if f32_lt c a then c else a)"

definition max_step :: "float32 \<Rightarrow> float32 \<Rightarrow> float32" where
  "max_step c a = (if f32_gt c a then c else a)"

subsection \<open>ProjectModelVertices\<close>

text \<open>
  \<^verbatim>\<open>make([]T, n)\<close> panics with \<^verbatim>\<open>makeslice: len out of range\<close> when \<open>n\<close> is negative
  or the \<open>n\<close> elements take more bytes than the runtime's \<^verbatim>\<open>maxAlloc\<close> (a byte
  count that overflows the machine word lies above it); within that
  bound the allocation still fails, with the fatal error \<^verbatim>\<open>out of memory\<close>, when the
  machine cannot provide the bytes; a slice of no bytes needs no memory. Both belong
  to the machine the program runs on: \<open>maxAlloc\<close> is the limit of the runtime, and
  \<open>has_memory k b\<close> tells whether the allocation number \<open>k\<close> of the call, of \<open>b\<close> bytes,
  finds the memory. Every element of the new slice is the zero value \<open>z\<close>.
\<close>

record runtime =
  maxAlloc :: int
  has_memory :: "nat \<Rightarrow> int \<Rightarrow> bool"

definition can_make :: "runtime \<Rightarrow> nat \<Rightarrow> int \<Rightarrow> int \<Rightarrow> bool" where
  "can_make rt k esize n =
     (0 \<le> n \<and> esize * n \<le> maxAlloc rt \<and> (0 < esize * n \<longrightarrow> has_memory rt k (esize * n)))"

definition make_slice :: "runtime \<Rightarrow> nat \<Rightarrow> int \<Rightarrow> int \<Rightarrow> 'a \<Rightarrow> panic + 'a list" where
  "make_slice rt k esize n z =
     (if n < 0 \<or> maxAlloc rt < esize * n then Inl MakeSliceLenOutOfRange
      else if 0 < esize * n \<and> \<not> has_memory rt k (esize * n) then Inl OutOfMemory
      else Inr (replicate (nat n) z))"

text \<open>The loop \<^verbatim>\<open>for i := range matrix\<close> that allocates each row, of \<^verbatim>\<open>float32\<close>
  elements of 4 bytes; \<open>k\<close> numbers the allocations.\<close>

fun alloc_rows :: "runtime \<Rightarrow> int \<Rightarrow> nat \<Rightarrow> float32 list list
    \<Rightarrow> panic + float32 list list" where
  "alloc_rows rt matrixSize k [] = Inr []"
| "alloc_rows rt matrixSize k (r # rs) =
     (case make_slice rt k 4 (int_add matrixSize 1) (Fin 0) of
        Inl p \<Rightarrow> Inl p
      | Inr row \<Rightarrow>
          (case alloc_rows rt matrixSize (Suc k) rs of
             Inl p \<Rightarrow> Inl p
           | Inr rows \<Rightarrow> Inr (row # rows)))"

text \<open>The slice of the rows comes first; its elements are slice headers of 24 bytes.\<close>

definition make_matrix :: "runtime \<Rightarrow> int \<Rightarrow> panic + float32 list list" where
  "make_matrix rt matrixSize =
     (case make_slice rt 0 24 (int_add (int_quot matrixSize 2) 1) [] of
        Inl p \<Rightarrow> Inl p
      | Inr matrix \<Rightarrow> alloc_rows rt matrixSize 1 matrix)"

text \<open>\<^verbatim>\<open>xs[i]\<close> on a slice panics outside \<open>0 \<le> i < len(xs)\<close>.\<close>

definition index :: "'a list \<Rightarrow> int \<Rightarrow> panic + 'a" where
  "index xs i = (if 0 \<le> i \<and> i < int (length xs) then Inr (xs ! nat i) else Inl IndexOutOfRange)"

text \<open>The locals that the vertex loop reads and never writes.\<close>

record proj_env =
  matrixSize :: int
  projectToX :: nat
  projectToY :: nat
  projectToValue :: nat
  mins :: "float32 arr3"
  dimensions :: "float32 arr3"
  scale :: float32

definition proj_env_of :: "Model \<Rightarrow> int \<Rightarrow> int \<Rightarrow> proj_env" where
  "proj_env_of m gridSize projectFrom =
     (let (toX, toY, toValue) = GetAxisForProjection projectFrom;
          (mins', maxs') = getMinsMaxs m;
          dims = Arr3 (f32_sub (arr3_get maxs' 0) (arr3_get mins' 0))
                      (f32_sub (arr3_get maxs' 1) (arr3_get mins' 1))
                      (f32_sub (arr3_get maxs' 2) (arr3_get mins' 2));
          scale' = (if f32_gt (arr3_get dims toX) (arr3_get dims toY)
                    then f32_div (arr3_get dims toX) (f32_of_int gridSize)
                    else f32_div (arr3_get dims toY) (f32_of_int gridSize))
      in \<lparr>matrixSize = gridSize, projectToX = toX, projectToY = toY, projectToValue = toValue,
          mins = mins', dimensions = dims, scale = scale'\<rparr>)"

text \<open>\<^verbatim>\<open>matrixX\<close>, \<^verbatim>\<open>matrixY\<close> and \<^verbatim>\<open>newValue\<close> of one vertex, and the row
  \<^verbatim>\<open>(matrixSize-matrixX)/2\<close> it indexes.\<close>

definition vertex_matrixX :: "(float32 \<Rightarrow> int) \<Rightarrow> proj_env \<Rightarrow> float32 arr3 \<Rightarrow> int" where
  "vertex_matrixX oor e v =
     f32_to_int oor
       (f32_div (f32_sub (arr3_get v (projectToX e)) (arr3_get (mins e) (projectToX e))) (scale e))"

definition vertex_matrixY :: "(float32 \<Rightarrow> int) \<Rightarrow> proj_env \<Rightarrow> float32 arr3 \<Rightarrow> int" where
  "vertex_matrixY oor e v =
     f32_to_int oor
       (f32_div (f32_sub (arr3_get v (projectToY e)) (arr3_get (mins e) (projectToY e))) (scale e))"

definition vertex_row :: "(float32 \<Rightarrow> int) \<Rightarrow> proj_env \<Rightarrow> float32 arr3 \<Rightarrow> int" where
  "vertex_row oor e v = int_quot (int_sub (matrixSize e) (vertex_matrixX oor e v)) 2"

definition vertex_newValue :: "proj_env \<Rightarrow> float32 arr3 \<Rightarrow> float32" where
  "vertex_newValue e v =
     f32_div (f32_sub (arr3_get v (projectToValue e)) (arr3_get (mins e) (projectToValue e)))
       (arr3_get (dimensions e) (projectToValue e))"

text \<open>The body of the vertex loop.\<close>

definition mark_vertex :: "(float32 \<Rightarrow> int) \<Rightarrow> proj_env \<Rightarrow> float32 arr3 \<Rightarrow> float32 list list
    \<Rightarrow> panic + float32 list list" where
  "mark_vertex oor e v matrix =
     (let matrixY = vertex_matrixY oor e v;
          newValue = vertex_newValue e v;
          row = vertex_row oor e v
      in case index matrix row of
           Inl p \<Rightarrow> Inl p
         | Inr cells \<Rightarrow>
             (case index cells matrixY of
                Inl p \<Rightarrow> Inl p
              | Inr cur \<Rightarrow>
                  if f32_gt newValue cur
                  then Inr (matrix[nat row := cells[nat matrixY := newValue]])
                  else Inr matrix))"

fun mark_vertices :: "(float32 \<Rightarrow> int) \<Rightarrow> proj_env \<Rightarrow> float32 arr3 list \<Rightarrow> float32 list list
    \<Rightarrow> panic + float32 list list" where
  "mark_vertices oor e [] matrix = Inr matrix"
| "mark_vertices oor e (v # vs) matrix =
     (case mark_vertex oor e v matrix of
        Inl p \<Rightarrow> Inl p
      | Inr matrix' \<Rightarrow> mark_vertices oor e vs matrix')"

fun mark_triangles :: "(float32 \<Rightarrow> int) \<Rightarrow> proj_env \<Rightarrow> Triangle list \<Rightarrow> float32 list list
    \<Rightarrow> panic + float32 list list" where
  "mark_triangles oor e [] matrix = Inr matrix"
| "mark_triangles oor e (t # ts) matrix =
     (case mark_vertices oor e (arr3_list (Vertices t)) matrix of
        Inl p \<Rightarrow> Inl p
      | Inr matrix' \<Rightarrow> mark_triangles oor e ts matrix')"

definition ProjectModelVertices :: "runtime \<Rightarrow> (float32 \<Rightarrow> int) \<Rightarrow> Model \<Rightarrow> int \<Rightarrow> int
    \<Rightarrow> panic + float32 list list" where
  "ProjectModelVertices rt oor m gridSize projectFrom =
     (let e = proj_env_of m gridSize projectFrom
      in case make_matrix rt gridSize of
           Inl p \<Rightarrow> Inl p
         | Inr matrix \<Rightarrow> mark_triangles oor e (Triangles m) matrix)"

text \<open>The candidate values that the loop compares with the cell in row \<open>r\<close> and
  column \<open>c\<close>, in the order of the vertices.\<close>

definition cell_depths :: "(float32 \<Rightarrow> int) \<Rightarrow> proj_env \<Rightarrow> float32 arr3 list \<Rightarrow> int \<Rightarrow> int
    \<Rightarrow> float32 list" where
  "cell_depths oor e vs r c =
     map (vertex_newValue e)
       (filter (\<lambda>v. vertex_row oor e v = r \<and> vertex_matrixY oor e v = c) vs)"

text \<open>A grid of \<open>rows\<close> rows with \<open>cols\<close> cells each.\<close>

definition grid_shape :: "nat \<Rightarrow> nat \<Rightarrow> 'a list list \<Rightarrow> bool" where
  "grid_shape rows cols g = (length g = rows \<and> (\<forall>row \<in> set g. length row = cols))"

section \<open>Rendering\<close>

text \<open>The glyphs are the UTF-8 bytes of U+2593, U+2592 and U+2591.\<close>

definition heavy_shade :: string where
  "heavy_shade = [CHR 0xE2, CHR 0x96, CHR 0x93]"

definition medium_shade :: string where
  "medium_shade = [CHR 0xE2, CHR 0x96, CHR 0x92]"

definition light_shade :: string where
  "light_shade = [CHR 0xE2, CHR 0x96, CHR 0x91]"

text \<open>The \<^verbatim>\<open>switch\<close> on \<^verbatim>\<open>adjVal := matrix[i][j] * 4\<close>.\<close>

definition glyph :: "float32 \<Rightarrow> string" where
  "glyph v =
     (let adjVal = f32_mul v (Fin 4)
      in if f32_gt adjVal (Fin 3) then heavy_shade
         else if f32_gt adjVal (Fin (3 / 2)) then medium_shade
         else if f32_gt adjVal (Fin 0) then light_shade
         else '' '')"

fun draw_row :: "float32 list \<Rightarrow> string \<Rightarrow> string" where
  "draw_row [] buffer = buffer"
| "draw_row (v # vs) buffer = draw_row vs (buffer @ glyph v)"

fun draw_rows :: "float32 list list \<Rightarrow> string \<Rightarrow> string" where
  "draw_rows [] buffer = buffer"
| "draw_rows (row # rows) buffer = draw_rows rows (draw_row row buffer @ [CHR 0x0A])"

definition DrawMatrix :: "float32 list list \<Rightarrow> string" where
  "DrawMatrix matrix = draw_rows matrix []"

section \<open>Binary decoding\<close>

text \<open>
  A byte is a \<open>char\<close> and a Go string a \<open>string\<close>. A reader is the list of the bytes
  it still has to deliver; reading from it cannot fail in any other way than by running
  out of bytes. A \<^verbatim>\<open>[]byte\<close> is a window on a backing array: \<open>backing\<close> holds the array
  from the first element of the slice up to its capacity, \<open>slen\<close> is the length.
\<close>

record byte_slice =
  backing :: "char list"
  slen :: nat

definition slice_of :: "char list \<Rightarrow> byte_slice" where
  "slice_of bs = \<lparr>backing = bs, slen = length bs\<rparr>"

definition bytes_of :: "byte_slice \<Rightarrow> char list" where
  "bytes_of s = take (slen s) (backing s)"

text \<open>\<^verbatim>\<open>s[lo:hi]\<close> panics unless \<open>lo \<le> hi \<le> cap(s)\<close>; in \<^verbatim>\<open>s[lo:]\<close> the upper bound
  is \<open>len(s)\<close>.\<close>

definition slice_lo_hi :: "byte_slice \<Rightarrow> nat \<Rightarrow> nat \<Rightarrow> panic + byte_slice" where
  "slice_lo_hi s lo hi =
     (if lo \<le> hi \<and> hi \<le> length (backing s)
      then Inr \<lparr>backing = drop lo (backing s), slen = hi - lo\<rparr>
      else Inl SliceBoundsOutOfRange)"

definition slice_from :: "byte_slice \<Rightarrow> nat \<Rightarrow> panic + byte_slice" where
  "slice_from s lo = slice_lo_hi s lo (slen s)"

text \<open>\<^verbatim>\<open>strings.Trim(s, cutset)\<close> for a cutset of ASCII characters.\<close>

definition Trim :: "string \<Rightarrow> string \<Rightarrow> string" where
  "Trim s cutset =
     rev (dropWhile (\<lambda>c. c \<in> set cutset) (rev (dropWhile (\<lambda>c. c \<in> set cutset) s)))"

text \<open>Little-endian numbers.\<close>

fun le_int :: "char list \<Rightarrow> int" where
  "le_int [] = 0"
| "le_int (b # bs) = of_char b + 256 * le_int bs"

definition Uint32 :: "char list \<Rightarrow> 32 word" where
  "Uint32 b = of_int (le_int (take 4 b))"

definition Uint16 :: "char list \<Rightarrow> 16 word" where
  "Uint16 b = of_int (le_int (take 2 b))"

text \<open>The binary32 value of a bit pattern: sign, 8 bits of exponent, 23 of fraction.\<close>

definition f32_of_bits :: "int \<Rightarrow> float32" where
  "f32_of_bits n =
     (let s = (n div 2 ^ 31) mod 2 = 1;
          ex = (n div 2 ^ 23) mod 256;
          fr = n mod 2 ^ 23
      in if ex = 255 then (if fr = 0 then f32_inf s else NaN)
         else if ex = 0 \<and> fr = 0 then f32_zero s
         else let mag = (if ex = 0 then of_int fr * pow2 (- 149)
                         else of_int (2 ^ 23 + fr) * pow2 (ex - 150))
              in Fin (if s then - mag else mag))"

definition Float32 :: "char list \<Rightarrow> float32" where
  "Float32 b = f32_of_bits (le_int (take 4 b))"

definition decode_vec :: "char list \<Rightarrow> float32 arr3" where
  "decode_vec b = Arr3 (Float32 b) (Float32 (drop 4 b)) (Float32 (drop 8 b))"

text \<open>One 50-byte record: the fields of \<open>Triangle\<close> in order, without padding.\<close>

definition decode_triangle :: "char list \<Rightarrow> Triangle" where
  "decode_triangle b =
     \<lparr>Normal = decode_vec b,
      Vertices = Arr3 (decode_vec (drop 12 b)) (decode_vec (drop 24 b)) (decode_vec (drop 36 b)),
      AttrByteCount = Uint16 (drop 48 b)\<rparr>"

fun decode_triangles :: "nat \<Rightarrow> char list \<Rightarrow> Triangle list" where
  "decode_triangles 0 b = []"
| "decode_triangles (Suc n) b = decode_triangle b # decode_triangles n (drop 50 b)"

text \<open>\<^verbatim>\<open>io.ReadFull\<close> for a buffer of \<open>n\<close> bytes: the bytes and the rest of the reader, or
  \<^verbatim>\<open>io.EOF\<close> when nothing could be read and \<^verbatim>\<open>io.ErrUnexpectedEOF\<close> when the reader
  ended early.\<close>

definition ReadFull :: "char list \<Rightarrow> nat \<Rightarrow> (error + char list) \<times> char list" where
  "ReadFull r n =
     (if n \<le> length r then (Inr (take n r), drop n r)
      else if r = [] then (Inl EOF, [])
      else (Inl ErrUnexpectedEOF, []))"

text \<open>\<^verbatim>\<open>binary.Read(r, binary.LittleEndian, &m.Triangles)\<close> for a slice of \<open>n\<close> triangles:
  it reads \<open>50 * n\<close> bytes in one piece and then decodes them.\<close>

definition binary_Read :: "char list \<Rightarrow> nat \<Rightarrow> (error + Triangle list) \<times> char list" where
  "binary_Read r n =
     (case ReadFull r (50 * n) of
        (Inl e, r') \<Rightarrow> (Inl e, r')
      | (Inr buf, r') \<Rightarrow> (Inr (decode_triangles n buf), r'))"

text \<open>Both decoders return the model together with the error, as the Go functions do;
  \<open>None\<close> is \<^verbatim>\<open>nil\<close>. \<open>CreateFromBinarySTL\<close> returns the rest of the reader as well.\<close>

definition CreateFromByteSlice :: "byte_slice \<Rightarrow> panic + Model \<times> error option" where
  "CreateFromByteSlice byteSlice =
     (case slice_lo_hi byteSlice 0 80 of
        Inl p \<Rightarrow> Inl p
      | Inr h \<Rightarrow>
          (case slice_lo_hi byteSlice 80 84 of
             Inl p \<Rightarrow> Inl p
           | Inr c \<Rightarrow>
               (let n = Uint32 (bytes_of c);
                    m = \<lparr>Header = Trim (bytes_of h) [CHR 0x00], NumTriangles = n,
                         Triangles = replicate (unat n) zeroTriangle\<rparr>
                in case slice_from byteSlice 84 of
                     Inl p \<Rightarrow> Inl p
                   | Inr rest \<Rightarrow>
                       (case binary_Read (bytes_of rest) (unat n) of
                          (Inl e, buf) \<Rightarrow> Inr (m, Some e)
                        | (Inr ts, buf) \<Rightarrow> Inr (m\<lparr>Triangles := ts\<rparr>, None)))))"

definition CreateFromBinarySTL :: "char list \<Rightarrow> (Model \<times> error option) \<times> char list" where
  "CreateFromBinarySTL r =
     (case ReadFull r 84 of
        (Inl e, r') \<Rightarrow> ((zeroModel, Some e), r')
      | (Inr header, r') \<Rightarrow>
          (let n = Uint32 (drop 80 header);
               m = \<lparr>Header = Trim (take 80 header) [CHR 0x00], NumTriangles = n,
                    Triangles = replicate (unat n) zeroTriangle\<rparr>
           in case binary_Read r' (unat n) of
                (Inl e, r'') \<Rightarrow> ((m, Some e), r'')
              | (Inr ts, r'') \<Rightarrow> ((m\<lparr>Triangles := ts\<rparr>, None), r'')))"

text \<open>The errors of the two decoders that report missing bytes.\<close>

definition is_truncated :: "error option \<Rightarrow> bool" where
  "is_truncated e = (e = Some EOF \<or> e = Some ErrUnexpectedEOF)"

section \<open>ASCII decoding\<close>

text \<open>\<^verbatim>\<open>r.ReadString('\n')\<close>: the bytes up to and including the first newline, or
  \<^verbatim>\<open>io.EOF\<close> (and everything consumed) when the reader holds no newline.\<close>

definition ReadString :: "string \<Rightarrow> (error + string) \<times> string" where
  "ReadString r =
     (if CHR 0x0A \<in> set r
      then (Inr (takeWhile (\<lambda>c. c \<noteq> CHR 0x0A) r @ [CHR 0x0A]),
            tl (dropWhile (\<lambda>c. c \<noteq> CHR 0x0A) r))
      else (Inl EOF, []))"

text \<open>
  \<^verbatim>\<open>strings.Split(s, sep)\<close>: the pieces of \<open>s\<close> between the occurrences of \<open>sep\<close>, found
  from the left without overlap. With an empty separator Go cuts after each UTF-8
  sequence; the model cuts after each byte, which gives no piece for the empty string and
  at least one otherwise, and the program only counts the pieces in that case.
\<close>

fun split_sep :: "string \<Rightarrow> nat \<Rightarrow> string \<Rightarrow> string \<Rightarrow> string list" where
  "split_sep sep skip acc [] = [rev acc]"
| "split_sep sep skip acc (c # cs) =
     (if 0 < skip then split_sep sep (skip - 1) acc cs
      else if take (length sep) (c # cs) = sep
        then rev acc # split_sep sep (length sep - 1) [] cs
      else split_sep sep 0 (c # acc) cs)"

definition Split :: "string \<Rightarrow> string \<Rightarrow> string list" where
  "Split s sep = (if sep = [] then map (\<lambda>c. [c]) s else split_sep sep 0 [] s)"

text \<open>The closure \<open>readAndTreatLine\<close>; it returns the rest of the reader as well.\<close>

definition readAndTreatLine :: "string \<Rightarrow> string \<Rightarrow> string \<Rightarrow> int
    \<Rightarrow> (error + string list) \<times> string" where
  "readAndTreatLine r mustStartWith partSplitters expectedPartsLength =
     (case ReadString r of
        (Inl e, r') \<Rightarrow> (Inl e, r')
      | (Inr line0, r') \<Rightarrow>
          (let line = Trim line0 [CHR '' '', CHR 0x09, CHR 0x0A, CHR 0x0D]
           in if length line < length mustStartWith then (Inl LineShorter, r')
              else if take (length mustStartWith) line \<noteq> mustStartWith
                then (Inl LineDifferent, r')
              else let lineParts = Split (drop (length mustStartWith) line) partSplitters
                   in if int (length lineParts) \<noteq> expectedPartsLength
                      then (Inl PartsNumber, r')
                      else (Inr lineParts, r')))"

text \<open>
  \<^verbatim>\<open>strconv.ParseFloat(s, 32)\<close> followed by \<^verbatim>\<open>float32(...)\<close> is the parameter \<open>pf\<close> of the
  decoder. The three fields of a line are parsed in order and the first error is returned.
\<close>

definition parse3 :: "(string \<Rightarrow> error + float32) \<Rightarrow> string list \<Rightarrow> error + float32 arr3" where
  "parse3 pf parts =
     (case pf (parts ! 0) of
        Inl e \<Rightarrow> Inl e
      | Inr a \<Rightarrow>
          (case pf (parts ! 1) of
             Inl e \<Rightarrow> Inl e
           | Inr b \<Rightarrow>
               (case pf (parts ! 2) of
                  Inl e \<Rightarrow> Inl e
                | Inr c \<Rightarrow> Inr (Arr3 a b c))))"

definition read_vertex :: "(string \<Rightarrow> error + float32) \<Rightarrow> string
    \<Rightarrow> (error + float32 arr3) \<times> string" where
  "read_vertex pf r =
     (case readAndTreatLine r ''vertex '' '' '' 3 of
        (Inl e, r') \<Rightarrow> (Inl e, r')
      | (Inr vertexParts, r') \<Rightarrow> (parse3 pf vertexParts, r'))"

text \<open>One turn of the \<^verbatim>\<open>for\<close> loop: \<open>Stop\<close> is the \<^verbatim>\<open>break\<close>, \<open>Abort\<close> a
  \<^verbatim>\<open>return m, err\<close>, \<open>Next\<close> the triangle to append and the rest of the reader.\<close>

datatype step = Stop | Abort error | Next Triangle string

definition read_facet :: "(string \<Rightarrow> error + float32) \<Rightarrow> string \<Rightarrow> step" where
  "read_facet pf r =
     (case readAndTreatLine r ''facet normal '' '' '' 3 of
        (Inl e, r1) \<Rightarrow> Stop
      | (Inr normalParts, r1) \<Rightarrow>
     (case parse3 pf normalParts of
        Inl e \<Rightarrow> Abort e
      | Inr normal \<Rightarrow>
     (case readAndTreatLine r1 ''outer loop'' [] 0 of
        (Inl e, r2) \<Rightarrow> Abort e
      | (Inr _, r2) \<Rightarrow>
     (case read_vertex pf r2 of
        (Inl e, r3) \<Rightarrow> Abort e
      | (Inr v0, r3) \<Rightarrow>
     (case read_vertex pf r3 of
        (Inl e, r4) \<Rightarrow> Abort e
      | (Inr v1, r4) \<Rightarrow>
     (case read_vertex pf r4 of
        (Inl e, r5) \<Rightarrow> Abort e
      | (Inr v2, r5) \<Rightarrow>
     (case readAndTreatLine r5 ''endloop'' [] 0 of
        (Inl e, r6) \<Rightarrow> Abort e
      | (Inr _, r6) \<Rightarrow>
     (case readAndTreatLine r6 ''endfacet'' [] 0 of
        (Inl e, r7) \<Rightarrow> Abort e
      | (Inr _, r7) \<Rightarrow>
          Next \<lparr>Normal = normal, Vertices = Arr3 v0 v1 v2, AttrByteCount = 0\<rparr> r7))))))))"

definition append_triangle :: "Model \<Rightarrow> Triangle \<Rightarrow> Model" where
  "append_triangle m t = m\<lparr>Triangles := Triangles m @ [t], NumTriangles := NumTriangles m + 1\<rparr>"

text \<open>The \<^verbatim>\<open>for\<close> loop, from the model built so far and the reader. Every line that is
  read takes at least its newline from the reader, so the loop ends.\<close>

function read_facets :: "(string \<Rightarrow> error + float32) \<Rightarrow> Model \<Rightarrow> string
    \<Rightarrow> Model \<times> error option" where
  "read_facets pf m r =
     (case read_facet pf r of
        Stop \<Rightarrow> (m, None)
      | Abort e \<Rightarrow> (m, Some e)
      | Next t r' \<Rightarrow> read_facets pf (append_triangle m t) r')"
  by pat_completeness auto
termination
proof (relation "measure (\<lambda>(pf, m, r). length r)")
  show "wf (measure (\<lambda>(pf, m, r). length r))"
    by simp
next
  fix pf :: "string \<Rightarrow> error + float32" and m :: Model and r :: string
    and t :: Triangle and r' :: string
  assume nx: "read_facet pf r = Next t r'"
  have rs: "\<And>(a::string) l b. ReadString a = (Inr l, b) \<Longrightarrow> length b < length a"
  proof -
    fix a :: string and l b
    assume a: "ReadString a = (Inr l, b)"
    then have nl: "CHR 0x0A \<in> set a"
      by (auto simp: ReadString_def split: if_splits)
    then have ne: "dropWhile (\<lambda>c. c \<noteq> CHR 0x0A) a \<noteq> []"
      by simp
    from a nl have "b = tl (dropWhile (\<lambda>c. c \<noteq> CHR 0x0A) a)"
      by (simp add: ReadString_def)
    moreover have "length (dropWhile (\<lambda>c. c \<noteq> CHR 0x0A) a) \<le> length a"
      by (rule length_dropWhile_le)
    ultimately show "length b < length a"
      using ne by (cases "dropWhile (\<lambda>c. c \<noteq> CHR 0x0A) a") auto
  qed
  have rl: "\<And>(a::string) p s n ps b.
      readAndTreatLine a p s n = (Inr ps, b) \<Longrightarrow> length b < length a"
    by (auto simp: readAndTreatLine_def Let_def split: prod.splits sum.splits if_splits
        dest: rs)
  have rv: "\<And>(a::string) v b. read_vertex pf a = (Inr v, b) \<Longrightarrow> length b < length a"
    by (auto simp: read_vertex_def split: prod.splits sum.splits dest: rl)
  from nx obtain np r1 u2 r2 v0 r3 v1 r4 v2 r5 u6 r6 u7 where
    s1: "readAndTreatLine r ''facet normal '' '' '' 3 = (Inr np, r1)" and
    s2: "readAndTreatLine r1 ''outer loop'' [] 0 = (Inr u2, r2)" and
    s3: "read_vertex pf r2 = (Inr v0, r3)" and
    s4: "read_vertex pf r3 = (Inr v1, r4)" and
    s5: "read_vertex pf r4 = (Inr v2, r5)" and
    s6: "readAndTreatLine r5 ''endloop'' [] 0 = (Inr u6, r6)" and
    s7: "readAndTreatLine r6 ''endfacet'' [] 0 = (Inr u7, r')"
    unfolding read_facet_def by (auto split: prod.splits sum.splits)
  from rl[OF s1] rl[OF s2] rv[OF s3] rv[OF s4] rv[OF s5] rl[OF s6] rl[OF s7]
  have "length r' < length r"
    by linarith
  then show "((pf, append_triangle m t, r'), (pf, m, r)) \<in> measure (\<lambda>(pf, m, r). length r)"
    by simp
qed

declare read_facets.simps [simp del]

text \<open>\<^verbatim>\<open>Header[5:]\<close> panics on a first line of fewer than 5 bytes, newline included.\<close>

definition CreateFromASCIISTL :: "(string \<Rightarrow> error + float32) \<Rightarrow> string
    \<Rightarrow> panic + Model \<times> error option" where
  "CreateFromASCIISTL pf r =
     (case ReadString r of
        (Inl e, r') \<Rightarrow> Inr (zeroModel, Some e)
      | (Inr Header', r') \<Rightarrow>
          if length Header' < 5 then Inl SliceBoundsOutOfRange
          else Inr (read_facets pf
                 (zeroModel\<lparr>Header := ''Imported from ASCII STL by stl2ascii - ''
                    @ Trim (drop 5 Header') [CHR '' '', CHR 0x0A]\<rparr>) r'))"

text \<open>Whole facets in a row: \<open>reads_facets pf r ts r'\<close> when the turns of the loop started
  on the reader \<open>r\<close> read the triangles \<open>ts\<close>, in this order, and leave the reader \<open>r'\<close>.\<close>

inductive reads_facets :: "(string \<Rightarrow> error + float32) \<Rightarrow> string \<Rightarrow> Triangle list \<Rightarrow> string
    \<Rightarrow> bool" where
  none: "reads_facets pf r [] r"
| more: "read_facet pf r = Next t r1 \<Longrightarrow> reads_facets pf r1 ts r'
         \<Longrightarrow> reads_facets pf r (t # ts) r'"

section \<open>Example inputs\<close>

text \<open>A 64-bit machine: the runtime allows \<open>2^48\<close> bytes for one allocation, and every
  allocation of up to \<open>2^32\<close> bytes finds the memory.\<close>

definition rt_amd64 :: runtime where
  "rt_amd64 = \<lparr>maxAlloc = 2 ^ 48, has_memory = (\<lambda>k b. b \<le> 2 ^ 32)\<rparr>"

text \<open>A parser for the two tokens of the examples.\<close>

definition pf01 :: "string \<Rightarrow> error + float32" where
  "pf01 s = (if s = ''0'' then Inr (Fin 0) else if s = ''1'' then Inr (Fin 1) else Inl NumError)"

text \<open>One triangle with the corners \<open>(0,0,0)\<close>, \<open>(1,0,1)\<close> and \<open>(0,1,2)\<close>.\<close>

definition tri_mesh :: Model where
  "tri_mesh =
     \<lparr>Header = ''t'', NumTriangles = 1,
      Triangles =
        [\<lparr>Normal = Arr3 (Fin 0) (Fin 0) (Fin 1),
          Vertices = Arr3 (Arr3 (Fin 0) (Fin 0) (Fin 0)) (Arr3 (Fin 1) (Fin 0) (Fin 1))
                          (Arr3 (Fin 0) (Fin 1) (Fin 2)),
          AttrByteCount = 0\<rparr>]\<rparr>"

text \<open>One triangle whose first corner has a NaN for its x coordinate, as the record
  bytes \<^verbatim>\<open>00 00 c0 7f\<close> of a binary file decode to.\<close>

definition nan_mesh :: Model where
  "nan_mesh =
     \<lparr>Header = ''n'', NumTriangles = 1,
      Triangles =
        [\<lparr>Normal = Arr3 (Fin 0) (Fin 0) (Fin 1),
          Vertices = Arr3 (Arr3 NaN (Fin 0) (Fin 0)) (Arr3 (Fin 1) (Fin 0) (Fin 0))
                          (Arr3 (Fin 0) (Fin 1) (Fin 0)),
          AttrByteCount = 0\<rparr>]\<rparr>"

text \<open>The binary file of that mesh: the header, the count 1 and one record.\<close>

definition f32_bytes_0 :: string where
  "f32_bytes_0 = [CHR 0x00, CHR 0x00, CHR 0x00, CHR 0x00]"

definition f32_bytes_1 :: string where
  "f32_bytes_1 = [CHR 0x00, CHR 0x00, CHR 0x80, CHR 0x3F]"

definition f32_bytes_NaN :: string where
  "f32_bytes_NaN = [CHR 0x00, CHR 0x00, CHR 0xC0, CHR 0x7F]"

definition nan_stl :: string where
  "nan_stl =
     ''n'' @ replicate 79 (CHR 0x00) @ [CHR 0x01, CHR 0x00, CHR 0x00, CHR 0x00]
     @ f32_bytes_0 @ f32_bytes_0 @ f32_bytes_1
     @ f32_bytes_NaN @ f32_bytes_0 @ f32_bytes_0
     @ f32_bytes_1 @ f32_bytes_0 @ f32_bytes_0
     @ f32_bytes_0 @ f32_bytes_1 @ f32_bytes_0
     @ [CHR 0x00, CHR 0x00]"

text \<open>One triangle with \<open>+Inf\<close> for the x coordinate of every corner, as the bytes
  \<^verbatim>\<open>00 00 80 7f\<close> decode to, and its binary file.\<close>

definition inf_mesh :: Model where
  "inf_mesh =
     \<lparr>Header = ''i'', NumTriangles = 1,
      Triangles =
        [\<lparr>Normal = Arr3 (Fin 0) (Fin 0) (Fin 1),
          Vertices = Arr3 (Arr3 PInf (Fin 0) (Fin 0)) (Arr3 PInf (Fin 1) (Fin 0))
                          (Arr3 PInf (Fin 0) (Fin 1)),
          AttrByteCount = 0\<rparr>]\<rparr>"

definition f32_bytes_Inf :: string where
  "f32_bytes_Inf = [CHR 0x00, CHR 0x00, CHR 0x80, CHR 0x7F]"

definition inf_stl :: string where
  "inf_stl =
     ''i'' @ replicate 79 (CHR 0x00) @ [CHR 0x01, CHR 0x00, CHR 0x00, CHR 0x00]
     @ f32_bytes_0 @ f32_bytes_0 @ f32_bytes_1
     @ f32_bytes_Inf @ f32_bytes_0 @ f32_bytes_0
     @ f32_bytes_Inf @ f32_bytes_1 @ f32_bytes_0
     @ f32_bytes_Inf @ f32_bytes_0 @ f32_bytes_1
     @ [CHR 0x00, CHR 0x00]"

text \<open>One triangle in the plane \<open>z = 0\<close>, flat when seen from the top.\<close>

definition flat_mesh :: Model where
  "flat_mesh =
     \<lparr>Header = ''f'', NumTriangles = 1,
      Triangles =
        [\<lparr>Normal = Arr3 (Fin 0) (Fin 0) (Fin 1),
          Vertices = Arr3 (Arr3 (Fin 0) (Fin 0) (Fin 0)) (Arr3 (Fin 1) (Fin 0) (Fin 0))
                          (Arr3 (Fin 0) (Fin 1) (Fin 0)),
          AttrByteCount = 0\<rparr>]\<rparr>"

text \<open>A triangle shrunk to the point \<open>(0,0,0)\<close>: every extent is 0.\<close>

definition point_mesh :: Model where
  "point_mesh =
     \<lparr>Header = ''p'', NumTriangles = 1,
      Triangles =
        [\<lparr>Normal = Arr3 (Fin 0) (Fin 0) (Fin 0),
          Vertices = Arr3 (Arr3 (Fin 0) (Fin 0) (Fin 0)) (Arr3 (Fin 0) (Fin 0) (Fin 0))
                          (Arr3 (Fin 0) (Fin 0) (Fin 0)),
          AttrByteCount = 0\<rparr>]\<rparr>"

text \<open>The locals of the projection of these meshes from the top at the resolution 4.\<close>

definition tri_env :: proj_env where
  "tri_env =
     \<lparr>matrixSize = 4, projectToX = 1, projectToY = 0, projectToValue = 2,
      mins = Arr3 (Fin 0) (Fin 0) (Fin 0), dimensions = Arr3 (Fin 1) (Fin 1) (Fin 2),
      scale = Fin (1 / 4)\<rparr>"

definition flat_env :: proj_env where
  "flat_env =
     \<lparr>matrixSize = 4, projectToX = 1, projectToY = 0, projectToValue = 2,
      mins = Arr3 (Fin 0) (Fin 0) (Fin 0), dimensions = Arr3 (Fin 1) (Fin 1) (Fin 0),
      scale = Fin (1 / 4)\<rparr>"

definition point_env :: proj_env where
  "point_env =
     \<lparr>matrixSize = 4, projectToX = 1, projectToY = 0, projectToValue = 2,
      mins = Arr3 (Fin 0) (Fin 0) (Fin 0), dimensions = Arr3 (Fin 0) (Fin 0) (Fin 0),
      scale = Fin 0\<rparr>"

text \<open>Two triangles with three corners above one another along the y axis, at the
  heights 1, 2 and 0 in the order of the file, and the locals of their projection from
  the front at the resolution 4.\<close>

definition stack_mesh :: Model where
  "stack_mesh =
     \<lparr>Header = ''s'', NumTriangles = 2,
      Triangles =
        [\<lparr>Normal = Arr3 (Fin 0) (Fin 0) (Fin 0),
          Vertices = Arr3 (Arr3 (Fin 0) (Fin 1) (Fin 0)) (Arr3 (Fin 0) (Fin 2) (Fin 0))
                          (Arr3 (Fin 1) (Fin 0) (Fin 1)),
          AttrByteCount = 0\<rparr>,
         \<lparr>Normal = Arr3 (Fin 0) (Fin 0) (Fin 0),
          Vertices = Arr3 (Arr3 (Fin 0) (Fin 0) (Fin 0)) (Arr3 (Fin 1) (Fin 0) (Fin 1))
                          (Arr3 (Fin 1) (Fin 0) (Fin 1)),
          AttrByteCount = 0\<rparr>]\<rparr>"

definition stack_env :: proj_env where
  "stack_env =
     \<lparr>matrixSize = 4, projectToX = 2, projectToY = 0, projectToValue = 1,
      mins = Arr3 (Fin 0) (Fin 0) (Fin 0), dimensions = Arr3 (Fin 1) (Fin 2) (Fin 1),
      scale = Fin (1 / 4)\<rparr>"

text \<open>One facet and the closing line of a solid, and the triangle it holds.\<close>

definition ascii_facet :: string where
  "ascii_facet =
     ''facet normal 0 0 1\<newline>outer loop\<newline>vertex 0 0 0\<newline>vertex 1 0 0\<newline>vertex 0 1 0\<newline>endloop\<newline>endfacet\<newline>endsolid t\<newline>''"

definition ascii_triangle :: Triangle where
  "ascii_triangle =
     \<lparr>Normal = Arr3 (Fin 0) (Fin 0) (Fin 1),
      Vertices = Arr3 (Arr3 (Fin 0) (Fin 0) (Fin 0)) (Arr3 (Fin 1) (Fin 0) (Fin 0))
                      (Arr3 (Fin 0) (Fin 1) (Fin 0)),
      AttrByteCount = 0\<rparr>"

text \<open>Two facets and the closing line of a solid, and the triangle of the first.\<close>

definition ascii_two :: string where
  "ascii_two =
     ''facet normal 1 0 0\<newline>outer loop\<newline>vertex 1 1 1\<newline>vertex 0 0 1\<newline>vertex 1 0 1\<newline>endloop\<newline>endfacet\<newline>''
     @ ascii_facet"

definition ascii_triangle2 :: Triangle where
  "ascii_triangle2 =
     \<lparr>Normal = Arr3 (Fin 1) (Fin 0) (Fin 0),
      Vertices = Arr3 (Arr3 (Fin 1) (Fin 1) (Fin 1)) (Arr3 (Fin 0) (Fin 0) (Fin 1))
                      (Arr3 (Fin 1) (Fin 0) (Fin 1)),
      AttrByteCount = 0\<rparr>"

section \<open>Facts about the float32 comparisons\<close>

lemma f32_lt_irrefl: "\<not> f32_lt a a"
  by (simp add: f32_lt_def)

lemma f32_lt_trans: "f32_lt a b \<Longrightarrow> f32_lt b c \<Longrightarrow> f32_lt a c"
  by (auto simp: f32_lt_def)

lemma f32_le_iff: "f32_le a b = (a \<noteq> NaN \<and> b \<noteq> NaN \<and> \<not> f32_lt b a)"
  by (auto simp: f32_le_def f32_lt_def f32_eq_def)

lemma f32_le_refl: "a \<noteq> NaN \<Longrightarrow> f32_le a a"
  by (simp add: f32_le_iff f32_lt_irrefl)

lemma f32_le_trans: "f32_le a b \<Longrightarrow> f32_le b c \<Longrightarrow> f32_le a c"
  by (auto simp: f32_le_iff f32_lt_def)

lemma f32_lt_le: "f32_lt a b \<Longrightarrow> f32_le a b"
  by (simp add: f32_le_def)

lemma f32_lt_not_NaN: "f32_lt a b \<Longrightarrow> a \<noteq> NaN \<and> b \<noteq> NaN"
  by (simp add: f32_lt_def)

lemma f32_finite_ge_Max: "f32_isFinite x \<Longrightarrow> f32_le MaxFloat32 x \<Longrightarrow> x = MaxFloat32"
  by (cases x) (auto simp: f32_isFinite_def f32_le_iff f32_lt_def MaxFloat32_def)

lemma f32_finite_le_NegMax: "f32_isFinite x \<Longrightarrow> f32_le x NegMaxFloat32 \<Longrightarrow> x = NegMaxFloat32"
  by (cases x) (auto simp: f32_isFinite_def f32_le_iff f32_lt_def NegMaxFloat32_def)

lemma f32_finite_not_NaN: "f32_isFinite x \<Longrightarrow> x \<noteq> NaN"
  by (auto simp: f32_isFinite_def)

section \<open>GetAxisForProjection\<close>

text \<open>
  C5: \<open>GetAxisForProjection\<close> is the fixed table: the side view gives X = axis 2,
  Y = axis 1 and depth = axis 0; the front view X = axis 2, Y = axis 0 and depth = axis 1;
  the top view X = axis 1, Y = axis 0 and depth = axis 2.
\<close>

theorem GetAxisForProjection_table:
  "GetAxisForProjection ProjectFromSide = (2, 1, 0) \<and>
   GetAxisForProjection ProjectFromFront = (2, 0, 1) \<and>
   GetAxisForProjection ProjectFromTop = (1, 0, 2)"
  by (simp add: GetAxisForProjection_def ProjectFromSide_def ProjectFromFront_def
        ProjectFromTop_def)

lemma GetAxisForProjection_lt3:
  "GetAxisForProjection p = (x, y, d) \<Longrightarrow> x < 3 \<and> y < 3 \<and> d < 3"
  by (auto simp: GetAxisForProjection_def split: if_splits)

section \<open>getMinsMaxs\<close>

lemma arr3_get_set:
  "k < 3 \<Longrightarrow> j < 3 \<Longrightarrow> arr3_get (arr3_set a k v) j = (if j = k then v else arr3_get a j)"
  by (cases a) auto

lemma lt3_cases: "(k::nat) < 3 \<Longrightarrow> k = 0 \<or> k = 1 \<or> k = 2"
  by arith

lemma scan_vertex_min:
  "k < 3 \<Longrightarrow>
   arr3_get (fst (scan_vertex v mm)) k = min_step (arr3_get v k) (arr3_get (fst mm) k)"
  by (auto dest!: lt3_cases
      simp: scan_vertex_def update_min_max_def Let_def min_step_def arr3_get_set)

lemma scan_vertex_max:
  "k < 3 \<Longrightarrow>
   arr3_get (snd (scan_vertex v mm)) k = max_step (arr3_get v k) (arr3_get (snd mm) k)"
  by (auto dest!: lt3_cases
      simp: scan_vertex_def update_min_max_def Let_def max_step_def arr3_get_set)

lemma fold_scan_triangle:
  "fold scan_triangle ts mm =
   fold scan_vertex (concat (map (\<lambda>t. arr3_list (Vertices t)) ts)) mm"
  by (induction ts arbitrary: mm) (simp_all add: scan_triangle_def)

lemma getMinsMaxs_flat:
  "getMinsMaxs m =
   fold scan_vertex (all_vertices m)
     (Arr3 MaxFloat32 MaxFloat32 MaxFloat32, Arr3 NegMaxFloat32 NegMaxFloat32 NegMaxFloat32)"
  by (simp add: getMinsMaxs_def all_vertices_def fold_scan_triangle)

lemma fold_scan_min:
  "k < 3 \<Longrightarrow>
   arr3_get (fst (fold scan_vertex vs mm)) k =
   fold min_step (map (\<lambda>v. arr3_get v k) vs) (arr3_get (fst mm) k)"
  by (induction vs arbitrary: mm) (simp_all add: scan_vertex_min)

lemma fold_scan_max:
  "k < 3 \<Longrightarrow>
   arr3_get (snd (fold scan_vertex vs mm)) k =
   fold max_step (map (\<lambda>v. arr3_get v k) vs) (arr3_get (snd mm) k)"
  by (induction vs arbitrary: mm) (simp_all add: scan_vertex_max)

lemma fold_min_step_le_init: "a \<noteq> NaN \<Longrightarrow> f32_le (fold min_step xs a) a"
proof (induction xs arbitrary: a)
  case Nil
  then show ?case by (simp add: f32_le_refl)
next
  case (Cons x xs)
  show ?case
  proof (cases "f32_lt x a")
    case True
    then have "x \<noteq> NaN" by (simp add: f32_lt_def)
    from Cons.IH[OF this] True show ?thesis
      by (auto simp: min_step_def intro: f32_le_trans f32_lt_le)
  next
    case False
    with Cons show ?thesis by (simp add: min_step_def)
  qed
qed

lemma fold_min_step_lower:
  "a \<noteq> NaN \<Longrightarrow> x \<in> set xs \<Longrightarrow> x \<noteq> NaN \<Longrightarrow> f32_le (fold min_step xs a) x"
proof (induction xs arbitrary: a)
  case Nil
  then show ?case by simp
next
  case (Cons y ys)
  have ms: "min_step y a \<noteq> NaN"
    using Cons.prems(1) by (auto simp: min_step_def f32_lt_def)
  show ?case
  proof (cases "x = y")
    case True
    have "f32_le (min_step y a) y"
      using Cons.prems True by (auto simp: min_step_def f32_le_iff f32_lt_irrefl)
    with fold_min_step_le_init[OF ms, of ys] show ?thesis
      using True by (auto intro: f32_le_trans)
  next
    case False
    with Cons.prems have "x \<in> set ys" by simp
    from Cons.IH[OF ms this Cons.prems(3)] show ?thesis by simp
  qed
qed

lemma fold_min_step_in: "fold min_step xs a = a \<or> fold min_step xs a \<in> set xs"
proof (induction xs arbitrary: a)
  case Nil
  then show ?case by simp
next
  case (Cons y ys)
  from Cons.IH[of "min_step y a"] show ?case
    by (auto simp: min_step_def split: if_splits)
qed

lemma fold_max_step_ge_init: "a \<noteq> NaN \<Longrightarrow> f32_le a (fold max_step xs a)"
proof (induction xs arbitrary: a)
  case Nil
  then show ?case by (simp add: f32_le_refl)
next
  case (Cons x xs)
  show ?case
  proof (cases "f32_gt x a")
    case True
    then have "x \<noteq> NaN" by (simp add: f32_lt_def f32_gt_def)
    from Cons.IH[OF this] True show ?thesis
      by (auto simp: max_step_def f32_gt_def intro: f32_le_trans f32_lt_le)
  next
    case False
    with Cons show ?thesis by (simp add: max_step_def)
  qed
qed

lemma fold_max_step_upper:
  "a \<noteq> NaN \<Longrightarrow> x \<in> set xs \<Longrightarrow> x \<noteq> NaN \<Longrightarrow> f32_le x (fold max_step xs a)"
proof (induction xs arbitrary: a)
  case Nil
  then show ?case by simp
next
  case (Cons y ys)
  have ms: "max_step y a \<noteq> NaN"
    using Cons.prems(1) by (auto simp: max_step_def f32_lt_def f32_gt_def)
  show ?case
  proof (cases "x = y")
    case True
    have "f32_le y (max_step y a)"
      using Cons.prems True by (auto simp: max_step_def f32_gt_def f32_le_iff f32_lt_irrefl)
    with fold_max_step_ge_init[OF ms, of ys] show ?thesis
      using True by (auto intro: f32_le_trans)
  next
    case False
    with Cons.prems have "x \<in> set ys" by simp
    from Cons.IH[OF ms this Cons.prems(3)] show ?thesis by simp
  qed
qed

lemma fold_max_step_in: "fold max_step xs a = a \<or> fold max_step xs a \<in> set xs"
proof (induction xs arbitrary: a)
  case Nil
  then show ?case by simp
next
  case (Cons y ys)
  from Cons.IH[of "max_step y a"] show ?case
    by (auto simp: max_step_def split: if_splits)
qed

lemma getMinsMaxs_min:
  "k < 3 \<Longrightarrow>
   arr3_get (fst (getMinsMaxs m)) k =
   fold min_step (map (\<lambda>v. arr3_get v k) (all_vertices m)) MaxFloat32"
  by (auto dest!: lt3_cases simp: getMinsMaxs_flat fold_scan_min)

lemma getMinsMaxs_max:
  "k < 3 \<Longrightarrow>
   arr3_get (snd (getMinsMaxs m)) k =
   fold max_step (map (\<lambda>v. arr3_get v k) (all_vertices m)) NegMaxFloat32"
  by (auto dest!: lt3_cases simp: getMinsMaxs_flat fold_scan_max)

lemma getMinsMaxs_lower:
  assumes "k < 3" "v \<in> set (all_vertices m)" "arr3_get v k \<noteq> NaN"
  shows "f32_le (arr3_get (fst (getMinsMaxs m)) k) (arr3_get v k)"
  unfolding getMinsMaxs_min[OF assms(1)]
  using assms(2,3) by (intro fold_min_step_lower) (auto simp: MaxFloat32_def)

lemma getMinsMaxs_upper:
  assumes "k < 3" "v \<in> set (all_vertices m)" "arr3_get v k \<noteq> NaN"
  shows "f32_le (arr3_get v k) (arr3_get (snd (getMinsMaxs m)) k)"
  unfolding getMinsMaxs_max[OF assms(1)]
  using assms(2,3) by (intro fold_max_step_upper) (auto simp: NegMaxFloat32_def)

lemma f32_le_Max_antisym: "f32_le MaxFloat32 x \<Longrightarrow> f32_le x MaxFloat32 \<Longrightarrow> x = MaxFloat32"
  by (cases x) (auto simp: f32_le_iff f32_lt_def MaxFloat32_def)

lemma f32_le_NegMax_antisym:
  "f32_le NegMaxFloat32 x \<Longrightarrow> f32_le x NegMaxFloat32 \<Longrightarrow> x = NegMaxFloat32"
  by (cases x) (auto simp: f32_le_iff f32_lt_def NegMaxFloat32_def)

lemma f32_finite_between: "f32_isFinite x \<Longrightarrow> f32_le x MaxFloat32 \<and> f32_le NegMaxFloat32 x"
  by (cases x)
    (auto simp: f32_isFinite_def f32_le_iff f32_lt_def MaxFloat32_def NegMaxFloat32_def)

text \<open>\<open>mins[k]\<close> is the coordinate of a vertex exactly when some coordinate on the axis is at
  most \<^verbatim>\<open>math.MaxFloat32\<close>, that is, neither a NaN nor \<open>+Inf\<close>.\<close>

lemma getMinsMaxs_min_attained:
  assumes k: "k < 3"
  shows "(\<exists>v \<in> set (all_vertices m). arr3_get v k = arr3_get (fst (getMinsMaxs m)) k) \<longleftrightarrow>
         (\<exists>v \<in> set (all_vertices m). f32_le (arr3_get v k) MaxFloat32)"
proof
  let ?xs = "map (\<lambda>v. arr3_get v k) (all_vertices m)"
  have mx: "MaxFloat32 \<noteq> NaN"
    by (simp add: MaxFloat32_def)
  assume "\<exists>v \<in> set (all_vertices m). arr3_get v k = arr3_get (fst (getMinsMaxs m)) k"
  then obtain v where v: "v \<in> set (all_vertices m)"
    and e: "arr3_get v k = fold min_step ?xs MaxFloat32"
    unfolding getMinsMaxs_min[OF k] by blast
  from fold_min_step_le_init[OF mx, of ?xs] e have "f32_le (arr3_get v k) MaxFloat32"
    by simp
  with v show "\<exists>v \<in> set (all_vertices m). f32_le (arr3_get v k) MaxFloat32"
    by blast
next
  let ?xs = "map (\<lambda>v. arr3_get v k) (all_vertices m)"
  let ?r = "fold min_step ?xs MaxFloat32"
  have mx: "MaxFloat32 \<noteq> NaN"
    by (simp add: MaxFloat32_def)
  assume "\<exists>v \<in> set (all_vertices m). f32_le (arr3_get v k) MaxFloat32"
  then obtain w where w: "w \<in> set (all_vertices m)" and le: "f32_le (arr3_get w k) MaxFloat32"
    by blast
  consider "?r \<in> set ?xs" | "?r = MaxFloat32"
    using fold_min_step_in[of ?xs MaxFloat32] by blast
  then have "?r \<in> set ?xs"
  proof cases
    case 1
    then show ?thesis .
  next
    case 2
    have wn: "arr3_get w k \<noteq> NaN"
      using le by (simp add: f32_le_iff)
    have "arr3_get w k \<in> set ?xs"
      using w by simp
    from fold_min_step_lower[OF mx this wn] 2 have "f32_le MaxFloat32 (arr3_get w k)"
      by simp
    from f32_le_Max_antisym[OF this le] 2 w show ?thesis
      by force
  qed
  then show "\<exists>v \<in> set (all_vertices m). arr3_get v k = arr3_get (fst (getMinsMaxs m)) k"
    unfolding getMinsMaxs_min[OF k] by auto
qed

text \<open>\<open>maxs[k]\<close> is the coordinate of a vertex exactly when some coordinate on the axis is at
  least \<^verbatim>\<open>-math.MaxFloat32\<close>, that is, neither a NaN nor \<open>-Inf\<close>.\<close>

lemma getMinsMaxs_max_attained:
  assumes k: "k < 3"
  shows "(\<exists>v \<in> set (all_vertices m). arr3_get v k = arr3_get (snd (getMinsMaxs m)) k) \<longleftrightarrow>
         (\<exists>v \<in> set (all_vertices m). f32_le NegMaxFloat32 (arr3_get v k))"
proof
  let ?xs = "map (\<lambda>v. arr3_get v k) (all_vertices m)"
  have mx: "NegMaxFloat32 \<noteq> NaN"
    by (simp add: NegMaxFloat32_def)
  assume "\<exists>v \<in> set (all_vertices m). arr3_get v k = arr3_get (snd (getMinsMaxs m)) k"
  then obtain v where v: "v \<in> set (all_vertices m)"
    and e: "arr3_get v k = fold max_step ?xs NegMaxFloat32"
    unfolding getMinsMaxs_max[OF k] by blast
  from fold_max_step_ge_init[OF mx, of ?xs] e have "f32_le NegMaxFloat32 (arr3_get v k)"
    by simp
  with v show "\<exists>v \<in> set (all_vertices m). f32_le NegMaxFloat32 (arr3_get v k)"
    by blast
next
  let ?xs = "map (\<lambda>v. arr3_get v k) (all_vertices m)"
  let ?r = "fold max_step ?xs NegMaxFloat32"
  have mx: "NegMaxFloat32 \<noteq> NaN"
    by (simp add: NegMaxFloat32_def)
  assume "\<exists>v \<in> set (all_vertices m). f32_le NegMaxFloat32 (arr3_get v k)"
  then obtain w where w: "w \<in> set (all_vertices m)" and le: "f32_le NegMaxFloat32 (arr3_get w k)"
    by blast
  consider "?r \<in> set ?xs" | "?r = NegMaxFloat32"
    using fold_max_step_in[of ?xs NegMaxFloat32] by blast
  then have "?r \<in> set ?xs"
  proof cases
    case 1
    then show ?thesis .
  next
    case 2
    have wn: "arr3_get w k \<noteq> NaN"
      using le by (simp add: f32_le_iff)
    have "arr3_get w k \<in> set ?xs"
      using w by simp
    from fold_max_step_upper[OF mx this wn] 2 have "f32_le (arr3_get w k) NegMaxFloat32"
      by simp
    from f32_le_NegMax_antisym[OF le this] 2 w show ?thesis
      by force
  qed
  then show "\<exists>v \<in> set (all_vertices m). arr3_get v k = arr3_get (snd (getMinsMaxs m)) k"
    unfolding getMinsMaxs_max[OF k] by auto
qed

lemma Bex_all_vertices:
  "(\<exists>v \<in> set (all_vertices m). P v) \<longleftrightarrow>
   (\<exists>t \<in> set (Triangles m). \<exists>v \<in> set (arr3_list (Vertices t)). P v)"
  by (auto simp: all_vertices_def)

lemma all_vertices_empty_iff: "all_vertices m = [] \<longleftrightarrow> Triangles m = []"
proof
  assume a: "all_vertices m = []"
  show "Triangles m = []"
  proof (cases "Triangles m")
    case Nil
    then show ?thesis .
  next
    case (Cons t ts)
    then have "arr3_list (Vertices t) = []"
      using a by (simp add: all_vertices_def)
    then show ?thesis by (cases "Vertices t") simp
  qed
qed (simp add: all_vertices_def)

lemma all_vertices_set:
  "v \<in> set (all_vertices m) \<longleftrightarrow> (\<exists>t \<in> set (Triangles m). v \<in> set (arr3_list (Vertices t)))"
  by (auto simp: all_vertices_def)

text \<open>
  C9, as the code has it: on every axis \<open>k\<close>, \<open>mins[k]\<close> and \<open>maxs[k]\<close> bound every vertex
  coordinate that is not a NaN; \<open>mins[k]\<close> is the coordinate of some vertex exactly when
  some vertex has a coordinate on the axis that is neither a NaN nor \<open>+Inf\<close>, and
  \<open>maxs[k]\<close> exactly when some vertex has one that is neither a NaN nor \<open>-Inf\<close>, so that
  both are attained as soon as one vertex has a finite coordinate on the axis; and for an
  empty triangle list \<open>mins\<close> is \<^verbatim>\<open>math.MaxFloat32\<close> and \<open>maxs\<close> its negation on every
  axis, so that \<open>mins[k] > maxs[k]\<close>.
\<close>

theorem getMinsMaxs_bounds:
  "k < 3 \<Longrightarrow>
   (\<forall>t \<in> set (Triangles m). \<forall>v \<in> set (arr3_list (Vertices t)).
      arr3_get v k \<noteq> NaN \<longrightarrow>
        f32_le (arr3_get (fst (getMinsMaxs m)) k) (arr3_get v k) \<and>
        f32_le (arr3_get v k) (arr3_get (snd (getMinsMaxs m)) k)) \<and>
   ((\<exists>t \<in> set (Triangles m). \<exists>v \<in> set (arr3_list (Vertices t)).
       arr3_get v k = arr3_get (fst (getMinsMaxs m)) k) \<longleftrightarrow>
    (\<exists>t \<in> set (Triangles m). \<exists>v \<in> set (arr3_list (Vertices t)).
       f32_le (arr3_get v k) MaxFloat32)) \<and>
   ((\<exists>t \<in> set (Triangles m). \<exists>v \<in> set (arr3_list (Vertices t)).
       arr3_get v k = arr3_get (snd (getMinsMaxs m)) k) \<longleftrightarrow>
    (\<exists>t \<in> set (Triangles m). \<exists>v \<in> set (arr3_list (Vertices t)).
       f32_le NegMaxFloat32 (arr3_get v k))) \<and>
   ((\<exists>t \<in> set (Triangles m). \<exists>v \<in> set (arr3_list (Vertices t)). f32_isFinite (arr3_get v k))
    \<longrightarrow>
      (\<exists>t \<in> set (Triangles m). \<exists>v \<in> set (arr3_list (Vertices t)).
         arr3_get v k = arr3_get (fst (getMinsMaxs m)) k) \<and>
      (\<exists>t \<in> set (Triangles m). \<exists>v \<in> set (arr3_list (Vertices t)).
         arr3_get v k = arr3_get (snd (getMinsMaxs m)) k)) \<and>
   (Triangles m = [] \<longrightarrow>
      getMinsMaxs m =
        (Arr3 MaxFloat32 MaxFloat32 MaxFloat32,
         Arr3 NegMaxFloat32 NegMaxFloat32 NegMaxFloat32) \<and>
      f32_gt (arr3_get (fst (getMinsMaxs m)) k) (arr3_get (snd (getMinsMaxs m)) k))"
proof -
  assume k: "k < 3"
  have bounds: "\<forall>t \<in> set (Triangles m). \<forall>v \<in> set (arr3_list (Vertices t)).
      arr3_get v k \<noteq> NaN \<longrightarrow>
        f32_le (arr3_get (fst (getMinsMaxs m)) k) (arr3_get v k) \<and>
        f32_le (arr3_get v k) (arr3_get (snd (getMinsMaxs m)) k)"
    using getMinsMaxs_lower[OF k, of _ m] getMinsMaxs_upper[OF k, of _ m]
    by (auto simp: all_vertices_set)
  have mn: "(\<exists>t \<in> set (Triangles m). \<exists>v \<in> set (arr3_list (Vertices t)).
       arr3_get v k = arr3_get (fst (getMinsMaxs m)) k) \<longleftrightarrow>
    (\<exists>t \<in> set (Triangles m). \<exists>v \<in> set (arr3_list (Vertices t)).
       f32_le (arr3_get v k) MaxFloat32)"
    using getMinsMaxs_min_attained[OF k, of m] unfolding Bex_all_vertices .
  have mx: "(\<exists>t \<in> set (Triangles m). \<exists>v \<in> set (arr3_list (Vertices t)).
       arr3_get v k = arr3_get (snd (getMinsMaxs m)) k) \<longleftrightarrow>
    (\<exists>t \<in> set (Triangles m). \<exists>v \<in> set (arr3_list (Vertices t)).
       f32_le NegMaxFloat32 (arr3_get v k))"
    using getMinsMaxs_max_attained[OF k, of m] unfolding Bex_all_vertices .
  have fin: "(\<exists>t \<in> set (Triangles m). \<exists>v \<in> set (arr3_list (Vertices t)).
        f32_isFinite (arr3_get v k)) \<longrightarrow>
      (\<exists>t \<in> set (Triangles m). \<exists>v \<in> set (arr3_list (Vertices t)).
         arr3_get v k = arr3_get (fst (getMinsMaxs m)) k) \<and>
      (\<exists>t \<in> set (Triangles m). \<exists>v \<in> set (arr3_list (Vertices t)).
         arr3_get v k = arr3_get (snd (getMinsMaxs m)) k)"
    unfolding mn mx using f32_finite_between by blast
  have empty: "Triangles m = [] \<longrightarrow>
      getMinsMaxs m =
        (Arr3 MaxFloat32 MaxFloat32 MaxFloat32,
         Arr3 NegMaxFloat32 NegMaxFloat32 NegMaxFloat32) \<and>
      f32_gt (arr3_get (fst (getMinsMaxs m)) k) (arr3_get (snd (getMinsMaxs m)) k)"
    using k by (auto dest!: lt3_cases
        simp: getMinsMaxs_def f32_gt_def f32_lt_def MaxFloat32_def NegMaxFloat32_def)
  from bounds mn mx fin empty show ?thesis
    by blast
qed

lemma getMinsMaxs_nan_mesh:
  "getMinsMaxs nan_mesh = (Arr3 (Fin 0) (Fin 0) (Fin 0), Arr3 (Fin 1) (Fin 1) (Fin 0))"
  by (simp add: getMinsMaxs_def nan_mesh_def scan_triangle_def scan_vertex_def
      update_min_max_def f32_lt_def f32_gt_def MaxFloat32_def NegMaxFloat32_def Let_def)

lemma getMinsMaxs_inf_mesh:
  "getMinsMaxs inf_mesh = (Arr3 MaxFloat32 (Fin 0) (Fin 0), Arr3 PInf (Fin 1) (Fin 1))"
  by (simp add: getMinsMaxs_def inf_mesh_def scan_triangle_def scan_vertex_def
      update_min_max_def f32_lt_def f32_gt_def MaxFloat32_def NegMaxFloat32_def Let_def)

text \<open>The theorem on the triangle of numbers, and on the triangle with a NaN, where the
  two finite coordinates on the x axis are the bounds.\<close>

theorem getMinsMaxs_bounds_witness:
  "Triangles tri_mesh \<noteq> [] \<and>
   f32_le (arr3_get (fst (getMinsMaxs tri_mesh)) 0) (Fin 1) \<and>
   f32_le (Fin 1) (arr3_get (snd (getMinsMaxs tri_mesh)) 0) \<and>
   (\<exists>t \<in> set (Triangles tri_mesh). \<exists>v \<in> set (arr3_list (Vertices t)).
      arr3_get v 0 = arr3_get (fst (getMinsMaxs tri_mesh)) 0) \<and>
   (\<exists>t \<in> set (Triangles tri_mesh). \<exists>v \<in> set (arr3_list (Vertices t)).
      arr3_get v 0 = arr3_get (snd (getMinsMaxs tri_mesh)) 0) \<and>
   f32_isFinite (Fin 1) \<and>
   (\<exists>t \<in> set (Triangles nan_mesh). \<exists>v \<in> set (arr3_list (Vertices t)).
      arr3_get v 0 = arr3_get (fst (getMinsMaxs nan_mesh)) 0) \<and>
   (\<exists>t \<in> set (Triangles nan_mesh). \<exists>v \<in> set (arr3_list (Vertices t)).
      arr3_get v 0 = arr3_get (snd (getMinsMaxs nan_mesh)) 0) \<and>
   getMinsMaxs zeroModel =
     (Arr3 MaxFloat32 MaxFloat32 MaxFloat32, Arr3 NegMaxFloat32 NegMaxFloat32 NegMaxFloat32)"
proof -
  have k: "(0::nat) < 3"
    by simp
  have ne: "Triangles tri_mesh \<noteq> []"
    by (simp add: tri_mesh_def)
  have f1: "f32_isFinite (Fin 1)"
    by (simp add: f32_isFinite_def)
  have fin: "\<exists>t \<in> set (Triangles tri_mesh). \<exists>v \<in> set (arr3_list (Vertices t)).
      f32_isFinite (arr3_get v 0)"
    by (simp add: tri_mesh_def f32_isFinite_def)
  have fin': "\<exists>t \<in> set (Triangles nan_mesh). \<exists>v \<in> set (arr3_list (Vertices t)).
      f32_isFinite (arr3_get v 0)"
    by (simp add: nan_mesh_def f32_isFinite_def)
  have t: "hd (Triangles tri_mesh) \<in> set (Triangles tri_mesh)"
    and v: "Arr3 (Fin 1) (Fin 0) (Fin 1) \<in> set (arr3_list (Vertices (hd (Triangles tri_mesh))))"
    by (simp_all add: tri_mesh_def)
  note b = getMinsMaxs_bounds[OF k, of tri_mesh]
  from b t v have b1:
    "f32_le (arr3_get (fst (getMinsMaxs tri_mesh)) 0) (arr3_get (Arr3 (Fin 1) (Fin 0) (Fin 1)) 0) \<and>
     f32_le (arr3_get (Arr3 (Fin 1) (Fin 0) (Fin 1)) 0) (arr3_get (snd (getMinsMaxs tri_mesh)) 0)"
    by fastforce
  from b fin have b2:
    "(\<exists>t \<in> set (Triangles tri_mesh). \<exists>v \<in> set (arr3_list (Vertices t)).
        arr3_get v 0 = arr3_get (fst (getMinsMaxs tri_mesh)) 0) \<and>
     (\<exists>t \<in> set (Triangles tri_mesh). \<exists>v \<in> set (arr3_list (Vertices t)).
        arr3_get v 0 = arr3_get (snd (getMinsMaxs tri_mesh)) 0)"
    by blast
  from getMinsMaxs_bounds[OF k, of nan_mesh] fin' have b3:
    "(\<exists>t \<in> set (Triangles nan_mesh). \<exists>v \<in> set (arr3_list (Vertices t)).
        arr3_get v 0 = arr3_get (fst (getMinsMaxs nan_mesh)) 0) \<and>
     (\<exists>t \<in> set (Triangles nan_mesh). \<exists>v \<in> set (arr3_list (Vertices t)).
        arr3_get v 0 = arr3_get (snd (getMinsMaxs nan_mesh)) 0)"
    by blast
  have "Triangles zeroModel = []"
    by (simp add: zeroModel_def)
  with getMinsMaxs_bounds[OF k, of zeroModel] have b4: "getMinsMaxs zeroModel =
     (Arr3 MaxFloat32 MaxFloat32 MaxFloat32, Arr3 NegMaxFloat32 NegMaxFloat32 NegMaxFloat32)"
    by blast
  from ne b1 b2 f1 b3 b4 show ?thesis
    by simp
qed

text \<open>Both binary decoders return the mesh with the NaN, and the mesh with the
  infinities, for its file.\<close>

lemma CreateFromByteSlice_nan_stl: "CreateFromByteSlice (slice_of nan_stl) = Inr (nan_mesh, None)"
  by code_simp

lemma CreateFromBinarySTL_nan_stl: "CreateFromBinarySTL nan_stl = ((nan_mesh, None), [])"
  by code_simp

lemma CreateFromByteSlice_inf_stl: "CreateFromByteSlice (slice_of inf_stl) = Inr (inf_mesh, None)"
  by code_simp

text \<open>On the mesh with the NaN the lower bound does not hold of the NaN; on the mesh with
  the infinities \<open>mins[0]\<close> is still \<^verbatim>\<open>math.MaxFloat32\<close>, the x coordinate of none of the
  three corners.\<close>

theorem getMinsMaxs_bounds_counterexample:
  "CreateFromByteSlice (slice_of nan_stl) = Inr (nan_mesh, None) \<and>
   Triangles nan_mesh \<noteq> [] \<and>
   arr3_get (arr3_get (Vertices (hd (Triangles nan_mesh))) 0) 0 = NaN \<and>
   arr3_get (fst (getMinsMaxs nan_mesh)) 0 = Fin 0 \<and>
   \<not> f32_le (arr3_get (fst (getMinsMaxs nan_mesh)) 0)
           (arr3_get (arr3_get (Vertices (hd (Triangles nan_mesh))) 0) 0) \<and>
   CreateFromByteSlice (slice_of inf_stl) = Inr (inf_mesh, None) \<and>
   Triangles inf_mesh =
     [\<lparr>Normal = Arr3 (Fin 0) (Fin 0) (Fin 1),
       Vertices = Arr3 (Arr3 PInf (Fin 0) (Fin 0)) (Arr3 PInf (Fin 1) (Fin 0))
                       (Arr3 PInf (Fin 0) (Fin 1)),
       AttrByteCount = 0\<rparr>] \<and>
   arr3_get (fst (getMinsMaxs inf_mesh)) 0 = MaxFloat32 \<and>
   arr3_get (Arr3 PInf (Fin 0) (Fin 0)) 0 \<noteq> arr3_get (fst (getMinsMaxs inf_mesh)) 0 \<and>
   arr3_get (Arr3 PInf (Fin 1) (Fin 0)) 0 \<noteq> arr3_get (fst (getMinsMaxs inf_mesh)) 0 \<and>
   arr3_get (Arr3 PInf (Fin 0) (Fin 1)) 0 \<noteq> arr3_get (fst (getMinsMaxs inf_mesh)) 0"
proof -
  have "arr3_get (arr3_get (Vertices (hd (Triangles nan_mesh))) 0) 0 = NaN"
    and "Triangles nan_mesh \<noteq> []"
    by (simp_all add: nan_mesh_def)
  moreover have "arr3_get (fst (getMinsMaxs nan_mesh)) 0 = Fin 0"
    by (simp add: getMinsMaxs_nan_mesh)
  moreover have "Triangles inf_mesh =
     [\<lparr>Normal = Arr3 (Fin 0) (Fin 0) (Fin 1),
       Vertices = Arr3 (Arr3 PInf (Fin 0) (Fin 0)) (Arr3 PInf (Fin 1) (Fin 0))
                       (Arr3 PInf (Fin 0) (Fin 1)),
       AttrByteCount = 0\<rparr>]"
    by (simp add: inf_mesh_def)
  moreover have "arr3_get (fst (getMinsMaxs inf_mesh)) 0 = MaxFloat32"
    by (simp add: getMinsMaxs_inf_mesh)
  ultimately show ?thesis
    using CreateFromByteSlice_nan_stl CreateFromByteSlice_inf_stl
    by (simp add: f32_le_iff MaxFloat32_def)
qed

section \<open>DrawMatrix\<close>

lemma draw_row_eq: "draw_row vs buffer = buffer @ concat (map glyph vs)"
  by (induction vs arbitrary: buffer) simp_all

lemma draw_rows_eq:
  "draw_rows rows buffer =
   buffer @ concat (map (\<lambda>row. concat (map glyph row) @ [CHR 0x0A]) rows)"
  by (induction rows arbitrary: buffer) (simp_all add: draw_row_eq)

lemma glyph_zero: "f32_isZero v \<Longrightarrow> glyph v = '' ''"
  by (auto simp: f32_isZero_def glyph_def f32_mul_def f32_isInf_def f32_zero_def f32_gt_def
      f32_lt_def)

lemma glyph_no_newline: "CHR 0x0A \<notin> set (glyph v)"
  by (simp add: glyph_def Let_def heavy_shade_def medium_shade_def light_shade_def)

lemma concat_glyph_zero:
  "\<forall>v \<in> set row. f32_isZero v \<Longrightarrow> concat (map glyph row) = replicate (length row) (CHR '' '')"
  by (induction row) (simp_all add: glyph_zero)

lemma newlines_of_row:
  "filter (\<lambda>c. c = CHR 0x0A) (concat (map glyph row)) = []"
proof (induction row)
  case Nil
  then show ?case by simp
next
  case (Cons v row)
  have "filter (\<lambda>c. c = CHR 0x0A) (glyph v) = []"
    using glyph_no_newline[of v] by (auto simp: filter_empty_conv)
  with Cons show ?case by simp
qed

text \<open>
  C7: \<open>DrawMatrix\<close> writes, for each row in order, one glyph for each cell and then a
  newline, so that the string has as many newlines as the grid has rows; the glyph of a
  cell \<open>v\<close> follows the thresholds on \<open>v * 4\<close>: above 3 the heavy shade, above 1.5 the
  medium shade, above 0 the light shade, a space otherwise; and a grid of zeros is
  rendered with spaces only.
\<close>

theorem DrawMatrix_table:
  "DrawMatrix matrix = concat (map (\<lambda>row. concat (map glyph row) @ [CHR 0x0A]) matrix) \<and>
   length (filter (\<lambda>c. c = CHR 0x0A) (DrawMatrix matrix)) = length matrix \<and>
   glyph v =
     (if f32_gt (f32_mul v (Fin 4)) (Fin 3) then [CHR 0xE2, CHR 0x96, CHR 0x93]
      else if f32_gt (f32_mul v (Fin 4)) (Fin (3 / 2)) then [CHR 0xE2, CHR 0x96, CHR 0x92]
      else if f32_gt (f32_mul v (Fin 4)) (Fin 0) then [CHR 0xE2, CHR 0x96, CHR 0x91]
      else '' '') \<and>
   ((\<forall>row \<in> set matrix. \<forall>c \<in> set row. f32_isZero c) \<longrightarrow>
      DrawMatrix matrix =
        concat (map (\<lambda>row. replicate (length row) (CHR '' '') @ [CHR 0x0A]) matrix))"
proof (intro conjI impI)
  show closed: "DrawMatrix matrix =
      concat (map (\<lambda>row. concat (map glyph row) @ [CHR 0x0A]) matrix)"
    by (simp add: DrawMatrix_def draw_rows_eq)
  show "length (filter (\<lambda>c. c = CHR 0x0A) (DrawMatrix matrix)) = length matrix"
    unfolding closed by (induction matrix) (simp_all add: newlines_of_row)
  show "glyph v =
     (if f32_gt (f32_mul v (Fin 4)) (Fin 3) then [CHR 0xE2, CHR 0x96, CHR 0x93]
      else if f32_gt (f32_mul v (Fin 4)) (Fin (3 / 2)) then [CHR 0xE2, CHR 0x96, CHR 0x92]
      else if f32_gt (f32_mul v (Fin 4)) (Fin 0) then [CHR 0xE2, CHR 0x96, CHR 0x91]
      else '' '')"
    by (simp add: glyph_def Let_def heavy_shade_def medium_shade_def light_shade_def)
  assume z: "\<forall>row \<in> set matrix. \<forall>c \<in> set row. f32_isZero c"
  have "map (\<lambda>row. concat (map glyph row) @ [CHR 0x0A]) matrix =
        map (\<lambda>row. replicate (length row) (CHR '' '') @ [CHR 0x0A]) matrix"
    using z by (intro map_cong) (simp_all add: concat_glyph_zero)
  then show "DrawMatrix matrix =
        concat (map (\<lambda>row. replicate (length row) (CHR '' '') @ [CHR 0x0A]) matrix)"
    by (simp only: closed)
qed

theorem DrawMatrix_table_witness:
  "DrawMatrix [[Fin 0, Fin 0], [Fin 0, NegZero]] =
     [CHR '' '', CHR '' '', CHR 0x0A, CHR '' '', CHR '' '', CHR 0x0A] \<and>
   glyph (Fin 1) = [CHR 0xE2, CHR 0x96, CHR 0x93]"
proof -
  have z: "\<forall>row \<in> set [[Fin 0, Fin 0], [Fin 0, NegZero]]. \<forall>c \<in> set row. f32_isZero c"
    by (simp add: f32_isZero_def)
  have m: "f32_mul (Fin 1) (Fin 4) = Fin 4"
    by code_simp
  note th = DrawMatrix_table[of "[[Fin 0, Fin 0], [Fin 0, NegZero]]" "Fin 1"]
  from th z have a: "DrawMatrix [[Fin 0, Fin 0], [Fin 0, NegZero]] =
      concat (map (\<lambda>row. replicate (length row) (CHR '' '') @ [CHR 0x0A])
        [[Fin 0, Fin 0], [Fin 0, NegZero]])"
    by blast
  from th have g: "glyph (Fin 1) =
     (if f32_gt (f32_mul (Fin 1) (Fin 4)) (Fin 3) then [CHR 0xE2, CHR 0x96, CHR 0x93]
      else if f32_gt (f32_mul (Fin 1) (Fin 4)) (Fin (3 / 2)) then [CHR 0xE2, CHR 0x96, CHR 0x92]
      else if f32_gt (f32_mul (Fin 1) (Fin 4)) (Fin 0) then [CHR 0xE2, CHR 0x96, CHR 0x91]
      else '' '')"
    by blast
  have "glyph (Fin 1) = [CHR 0xE2, CHR 0x96, CHR 0x93]"
    unfolding g m by (simp add: f32_gt_def f32_lt_def)
  moreover have "DrawMatrix [[Fin 0, Fin 0], [Fin 0, NegZero]] =
     [CHR '' '', CHR '' '', CHR 0x0A, CHR '' '', CHR '' '', CHR 0x0A]"
    unfolding a by (simp add: numeral_2_eq_2)
  ultimately show ?thesis
    by simp
qed


section \<open>ProjectModelVertices\<close>

subsection \<open>Integer facts\<close>

lemma wrap64_id: "is_int64 i \<Longrightarrow> wrap64 i = i"
  by (simp add: is_int64_def wrap64_def)

lemma wrap64_range: "is_int64 (wrap64 i)"
proof -
  have "0 \<le> (i + 2 ^ 63) mod 2 ^ 64" "(i + 2 ^ 63) mod 2 ^ 64 < (2 ^ 64 :: int)"
    by simp_all
  then show ?thesis
    by (simp add: is_int64_def wrap64_def)
qed

lemma int_quot_2: "is_int64 i \<Longrightarrow> int_quot i 2 = (if 0 \<le> i then i div 2 else - ((- i) div 2))"
proof -
  assume a: "is_int64 i"
  have "is_int64 (if 0 \<le> i then i div 2 else - ((- i) div 2))"
    using a by (auto simp: is_int64_def)
  from wrap64_id[OF this] show ?thesis
    by (auto simp: int_quot_def)
qed

lemma rows_no_wrap: "is_int64 i \<Longrightarrow> int_add (int_quot i 2) 1 = int_quot i 2 + 1"
proof -
  assume a: "is_int64 i"
  have "is_int64 (int_quot i 2 + 1)"
    unfolding int_quot_2[OF a] using a by (auto simp: is_int64_def)
  then show ?thesis
    by (simp add: int_add_def wrap64_id)
qed

lemma cols_no_wrap: "is_int64 i \<Longrightarrow> 0 \<le> int_add i 1 \<Longrightarrow> int_add i 1 = i + 1"
proof -
  assume a: "is_int64 i" and b: "0 \<le> int_add i 1"
  show ?thesis
  proof (cases "i + 1 < 2 ^ 63")
    case True
    with a have "is_int64 (i + 1)" by (simp add: is_int64_def)
    then show ?thesis by (simp add: int_add_def wrap64_id)
  next
    case False
    with a have "i + 1 = 2 ^ 63" by (simp add: is_int64_def)
    then have "int_add i 1 = - (2 ^ 63)" by (simp add: int_add_def wrap64_def)
    with b show ?thesis by simp
  qed
qed

subsection \<open>The shape of the grid\<close>

lemma make_slice_Inr:
  "make_slice rt k esize n z = Inr xs \<longleftrightarrow> can_make rt k esize n \<and> xs = replicate (nat n) z"
  by (auto simp: make_slice_def can_make_def)

lemma make_slice_Inl_len:
  "n < 0 \<or> maxAlloc rt < esize * n \<Longrightarrow> make_slice rt k esize n z = Inl MakeSliceLenOutOfRange"
  by (simp add: make_slice_def)

lemma alloc_rows_iff:
  "alloc_rows rt sz k rs = Inr g \<longleftrightarrow>
   (\<forall>i < length rs. can_make rt (k + i) 4 (int_add sz 1)) \<and>
   g = replicate (length rs) (replicate (nat (int_add sz 1)) (Fin 0))"
proof (induction rs arbitrary: k g)
  case Nil
  then show ?case by auto
next
  case (Cons r rs)
  let ?row = "replicate (nat (int_add sz 1)) (Fin 0)"
  have all: "(\<forall>i < length (r # rs). can_make rt (k + i) 4 (int_add sz 1)) \<longleftrightarrow>
      can_make rt k 4 (int_add sz 1) \<and> (\<forall>i < length rs. can_make rt (Suc k + i) 4 (int_add sz 1))"
  proof
    assume a: "\<forall>i < length (r # rs). can_make rt (k + i) 4 (int_add sz 1)"
    then have "can_make rt (k + 0) 4 (int_add sz 1)"
      by (intro a[rule_format]) simp
    moreover have "\<forall>i < length rs. can_make rt (Suc k + i) 4 (int_add sz 1)"
    proof (intro allI impI)
      fix i
      assume "i < length rs"
      then have "Suc i < length (r # rs)" by simp
      from a[rule_format, OF this] show "can_make rt (Suc k + i) 4 (int_add sz 1)" by simp
    qed
    ultimately show "can_make rt k 4 (int_add sz 1) \<and>
        (\<forall>i < length rs. can_make rt (Suc k + i) 4 (int_add sz 1))"
      by simp
  next
    assume b: "can_make rt k 4 (int_add sz 1) \<and>
        (\<forall>i < length rs. can_make rt (Suc k + i) 4 (int_add sz 1))"
    show "\<forall>i < length (r # rs). can_make rt (k + i) 4 (int_add sz 1)"
    proof (intro allI impI)
      fix i
      assume i: "i < length (r # rs)"
      show "can_make rt (k + i) 4 (int_add sz 1)"
      proof (cases i)
        case 0
        with b show ?thesis by simp
      next
        case (Suc j)
        with i have "j < length rs" by simp
        with b have "can_make rt (Suc k + j) 4 (int_add sz 1)" by blast
        with Suc show ?thesis by simp
      qed
    qed
  qed
  show ?case
  proof (cases "make_slice rt k 4 (int_add sz 1) (Fin 0)")
    case (Inl p)
    then have "\<not> can_make rt k 4 (int_add sz 1)"
      using make_slice_Inr[of rt k 4 "int_add sz 1" "Fin 0"] by auto
    with Inl all show ?thesis by simp
  next
    case (Inr row)
    then have c: "can_make rt k 4 (int_add sz 1)" and row: "row = ?row"
      using make_slice_Inr[of rt k 4 "int_add sz 1" "Fin 0" row] by auto
    show ?thesis
    proof (cases "alloc_rows rt sz (Suc k) rs")
      case (Inl p)
      with Cons.IH[of "Suc k"] have
        "\<not> (\<forall>i < length rs. can_make rt (Suc k + i) 4 (int_add sz 1))"
        by auto
      with Inl Inr all show ?thesis by simp
    next
      case (Inr rows)
      with Cons.IH[of "Suc k" rows] have
        "(\<forall>i < length rs. can_make rt (Suc k + i) 4 (int_add sz 1))"
        "rows = replicate (length rs) ?row"
        by auto
      with Inr \<open>make_slice rt k 4 (int_add sz 1) (Fin 0) = Inr row\<close> row c all show ?thesis
        by auto
    qed
  qed
qed

lemma make_matrix_Inr_iff:
  "make_matrix rt sz = Inr g \<longleftrightarrow>
   can_make rt 0 24 (int_add (int_quot sz 2) 1) \<and>
   (\<forall>i < nat (int_add (int_quot sz 2) 1). can_make rt (Suc i) 4 (int_add sz 1)) \<and>
   g = replicate (nat (int_add (int_quot sz 2) 1)) (replicate (nat (int_add sz 1)) (Fin 0))"
proof (cases "make_slice rt 0 24 (int_add (int_quot sz 2) 1) ([]::float32 list)")
  case (Inl p)
  then have "\<not> can_make rt 0 24 (int_add (int_quot sz 2) 1)"
    using make_slice_Inr[of rt 0 24 "int_add (int_quot sz 2) 1" "[]::float32 list"] by auto
  with Inl show ?thesis
    by (simp add: make_matrix_def)
next
  case (Inr matrix)
  then have c: "can_make rt 0 24 (int_add (int_quot sz 2) 1)"
    and m: "matrix = replicate (nat (int_add (int_quot sz 2) 1)) []"
    using make_slice_Inr[of rt 0 24 "int_add (int_quot sz 2) 1" "[]::float32 list" matrix]
    by auto
  show ?thesis
    using Inr c by (simp add: make_matrix_def m alloc_rows_iff)
qed

lemma make_matrix_Inr:
  "make_matrix rt sz = Inr g \<Longrightarrow>
   0 \<le> int_add (int_quot sz 2) 1 \<and>
   (0 < int_add (int_quot sz 2) 1 \<longrightarrow> 0 \<le> int_add sz 1) \<and>
   g = replicate (nat (int_add (int_quot sz 2) 1)) (replicate (nat (int_add sz 1)) (Fin 0))"
proof -
  assume a: "make_matrix rt sz = Inr g"
  let ?n = "int_add (int_quot sz 2) 1"
  from a have c: "can_make rt 0 24 ?n"
    and r: "\<forall>i < nat ?n. can_make rt (Suc i) 4 (int_add sz 1)"
    and g: "g = replicate (nat ?n) (replicate (nat (int_add sz 1)) (Fin 0))"
    unfolding make_matrix_Inr_iff by blast+
  from c have n: "0 \<le> ?n"
    by (simp add: can_make_def)
  have "0 < ?n \<longrightarrow> 0 \<le> int_add sz 1"
  proof
    assume "0 < ?n"
    then have "0 < nat ?n" by simp
    with r have "can_make rt (Suc 0) 4 (int_add sz 1)" by blast
    then show "0 \<le> int_add sz 1" by (simp add: can_make_def)
  qed
  with n g show ?thesis
    by blast
qed

lemma make_matrix_Inl_len:
  "int_add (int_quot sz 2) 1 < 0 \<or> maxAlloc rt < 24 * int_add (int_quot sz 2) 1 \<Longrightarrow>
   make_matrix rt sz = Inl MakeSliceLenOutOfRange"
  by (simp add: make_matrix_def make_slice_Inl_len)

lemma index_Inr: "index xs i = Inr x \<longleftrightarrow> 0 \<le> i \<and> i < int (length xs) \<and> x = xs ! nat i"
  by (auto simp: index_def)

lemma mark_vertex_Inr:
  "mark_vertex oor e v g = Inr g' \<Longrightarrow>
   0 \<le> vertex_row oor e v \<and> vertex_row oor e v < int (length g) \<and>
   0 \<le> vertex_matrixY oor e v \<and>
   vertex_matrixY oor e v < int (length (g ! nat (vertex_row oor e v))) \<and>
   g' = g[nat (vertex_row oor e v) :=
          (g ! nat (vertex_row oor e v))[nat (vertex_matrixY oor e v) :=
             max_step (vertex_newValue e v)
               (g ! nat (vertex_row oor e v) ! nat (vertex_matrixY oor e v))]]"
  by (auto simp: mark_vertex_def Let_def index_Inr max_step_def split: sum.splits if_splits)

lemma mark_vertex_iff:
  "(\<exists>g'. mark_vertex oor e v g = Inr g') \<longleftrightarrow>
   0 \<le> vertex_row oor e v \<and> vertex_row oor e v < int (length g) \<and>
   0 \<le> vertex_matrixY oor e v \<and>
   vertex_matrixY oor e v < int (length (g ! nat (vertex_row oor e v)))"
  by (auto simp: mark_vertex_def Let_def index_def split: sum.splits if_splits)

lemma mark_vertex_Inl: "mark_vertex oor e v g = Inl p \<Longrightarrow> p = IndexOutOfRange"
  by (auto simp: mark_vertex_def Let_def index_def split: sum.splits if_splits)

lemma grid_shape_update:
  assumes s: "grid_shape rows cols g" and r: "r < length g"
  shows "grid_shape rows cols (g[r := (g ! r)[c := x]])"
  unfolding grid_shape_def
proof (intro conjI ballI)
  show "length (g[r := (g ! r)[c := x]]) = rows"
    using s by (simp add: grid_shape_def)
next
  fix row
  assume "row \<in> set (g[r := (g ! r)[c := x]])"
  then have "row \<in> insert ((g ! r)[c := x]) (set g)"
    using set_update_subset_insert[of g r "(g ! r)[c := x]"] by blast
  moreover have "length ((g ! r)[c := x]) = cols"
    using s r by (simp add: grid_shape_def)
  moreover have "\<forall>row \<in> set g. length row = cols"
    using s by (simp add: grid_shape_def)
  ultimately show "length row = cols"
    by blast
qed

lemma mark_vertex_shape:
  "mark_vertex oor e v g = Inr g' \<Longrightarrow> grid_shape rows cols g \<Longrightarrow> grid_shape rows cols g'"
proof -
  assume a: "mark_vertex oor e v g = Inr g'" and s: "grid_shape rows cols g"
  note m = mark_vertex_Inr[OF a]
  have r: "nat (vertex_row oor e v) < length g"
    using m by linarith
  from m have "g' = g[nat (vertex_row oor e v) :=
          (g ! nat (vertex_row oor e v))[nat (vertex_matrixY oor e v) :=
             max_step (vertex_newValue e v)
               (g ! nat (vertex_row oor e v) ! nat (vertex_matrixY oor e v))]]"
    by blast
  then show ?thesis
    using grid_shape_update[OF s r] by simp
qed

lemma mark_triangles_flat:
  "mark_triangles oor e ts g =
   mark_vertices oor e (concat (map (\<lambda>t. arr3_list (Vertices t)) ts)) g"
proof (induction ts arbitrary: g)
  case Nil
  then show ?case by simp
next
  case (Cons t ts)
  have app: "\<And>xs ys h. mark_vertices oor e (xs @ ys) h =
      (case mark_vertices oor e xs h of Inl p \<Rightarrow> Inl p | Inr h' \<Rightarrow> mark_vertices oor e ys h')"
  proof -
    fix xs ys h
    show "mark_vertices oor e (xs @ ys) h =
      (case mark_vertices oor e xs h of Inl p \<Rightarrow> Inl p | Inr h' \<Rightarrow> mark_vertices oor e ys h')"
      by (induction xs arbitrary: h) (auto split: sum.splits)
  qed
  show ?case
    by (simp add: app Cons.IH split: sum.splits)
qed

lemma mark_vertices_shape:
  "mark_vertices oor e vs g = Inr g' \<Longrightarrow> grid_shape rows cols g \<Longrightarrow> grid_shape rows cols g'"
proof (induction vs arbitrary: g)
  case Nil
  then show ?case by simp
next
  case (Cons v vs)
  from Cons.prems(1) obtain g1 where
    g1: "mark_vertex oor e v g = Inr g1" and rest: "mark_vertices oor e vs g1 = Inr g'"
    by (auto split: sum.splits)
  from Cons.IH[OF rest mark_vertex_shape[OF g1 Cons.prems(2)]] show ?case .
qed

lemma ProjectModelVertices_flat:
  "ProjectModelVertices rt oor m sz p =
   (case make_matrix rt sz of
      Inl q \<Rightarrow> Inl q
    | Inr g \<Rightarrow> mark_vertices oor (proj_env_of m sz p) (all_vertices m) g)"
  by (simp add: ProjectModelVertices_def Let_def mark_triangles_flat all_vertices_def
      split: sum.splits)

lemma ProjectModelVertices_Inr:
  assumes "ProjectModelVertices rt oor m sz p = Inr g"
  shows "\<exists>g0. make_matrix rt sz = Inr g0 \<and>
           mark_vertices oor (proj_env_of m sz p) (all_vertices m) g0 = Inr g"
  using assms by (auto simp: ProjectModelVertices_flat split: sum.splits)

lemma replicate_shape: "grid_shape n c (replicate n (replicate c x))"
  by (simp add: grid_shape_def)

lemma ProjectModelVertices_shape:
  assumes "ProjectModelVertices rt oor m sz p = Inr g"
  shows "grid_shape (nat (int_add (int_quot sz 2) 1)) (nat (int_add sz 1)) g"
proof -
  from ProjectModelVertices_Inr[OF assms] obtain g0 where
    g0: "make_matrix rt sz = Inr g0" and
    mv: "mark_vertices oor (proj_env_of m sz p) (all_vertices m) g0 = Inr g"
    by blast
  from make_matrix_Inr[OF g0] have
    "grid_shape (nat (int_add (int_quot sz 2) 1)) (nat (int_add sz 1)) g0"
    by (simp add: replicate_shape)
  from mark_vertices_shape[OF mv this] show ?thesis .
qed

text \<open>
  C6: the grid that \<open>ProjectModelVertices\<close> returns for the resolution \<open>S\<close> has
  \<open>S/2 + 1\<close> rows, with Go's division, and \<open>S + 1\<close> cells in every row, whatever the
  mesh and the viewing direction.
\<close>

theorem ProjectModelVertices_grid_shape:
  "is_int64 S \<Longrightarrow> ProjectModelVertices rt oor m S p = Inr g \<Longrightarrow>
   int (length g) = int_quot S 2 + 1 \<and>
   (0 \<le> S \<longrightarrow> int (length g) = S div 2 + 1) \<and>
   (\<forall>row \<in> set g. int (length row) = S + 1)"
proof -
  assume S: "is_int64 S" and a: "ProjectModelVertices rt oor m S p = Inr g"
  from ProjectModelVertices_Inr[OF a] obtain g0 where g0: "make_matrix rt S = Inr g0"
    by blast
  from make_matrix_Inr[OF g0] have
    n0: "0 \<le> int_add (int_quot S 2) 1" and
    c0: "0 < int_add (int_quot S 2) 1 \<longrightarrow> 0 \<le> int_add S 1"
    by blast+
  from ProjectModelVertices_shape[OF a] have
    len: "length g = nat (int_add (int_quot S 2) 1)" and
    row: "\<forall>row \<in> set g. length row = nat (int_add S 1)"
    unfolding grid_shape_def by blast+
  have rows: "int (length g) = int_quot S 2 + 1"
    using len n0 rows_no_wrap[OF S] by linarith
  have cols: "\<forall>row \<in> set g. int (length row) = S + 1"
  proof
    fix r
    assume r: "r \<in> set g"
    then have "0 < length g"
      by (cases g) auto
    with len have "0 < int_add (int_quot S 2) 1"
      by linarith
    with c0 have c: "0 \<le> int_add S 1"
      by blast
    from row r have "length r = nat (int_add S 1)"
      by blast
    with c cols_no_wrap[OF S c] show "int (length r) = S + 1"
      by linarith
  qed
  have "0 \<le> S \<longrightarrow> int_quot S 2 = S div 2"
    using int_quot_2[OF S] by simp
  with rows cols show ?thesis
    by simp
qed


subsection \<open>The fields of the environment\<close>

lemma proj_env_of_fields:
  "matrixSize (proj_env_of m S p) = S"
  "projectToX (proj_env_of m S p) = fst (GetAxisForProjection p)"
  "projectToY (proj_env_of m S p) = fst (snd (GetAxisForProjection p))"
  "projectToValue (proj_env_of m S p) = snd (snd (GetAxisForProjection p))"
  "mins (proj_env_of m S p) = fst (getMinsMaxs m)"
  by (simp_all add: proj_env_of_def Let_def split: prod.splits)

lemma proj_env_of_dimensions:
  "k < 3 \<Longrightarrow>
   arr3_get (dimensions (proj_env_of m S p)) k =
   f32_sub (arr3_get (snd (getMinsMaxs m)) k) (arr3_get (fst (getMinsMaxs m)) k)"
  by (auto dest!: lt3_cases simp: proj_env_of_def Let_def split: prod.splits)

lemma depth_axis_lt3: "snd (snd (GetAxisForProjection p)) < 3"
  by (simp add: GetAxisForProjection_def)

lemma vertex_newValue_eq:
  "vertex_newValue (proj_env_of m S p) v =
   f32_div
     (f32_sub (arr3_get v (snd (snd (GetAxisForProjection p))))
        (arr3_get (fst (getMinsMaxs m)) (snd (snd (GetAxisForProjection p)))))
     (f32_sub (arr3_get (snd (getMinsMaxs m)) (snd (snd (GetAxisForProjection p))))
        (arr3_get (fst (getMinsMaxs m)) (snd (snd (GetAxisForProjection p)))))"
  by (simp add: vertex_newValue_def proj_env_of_fields proj_env_of_dimensions depth_axis_lt3)

subsection \<open>Cells are never negative and never NaN\<close>

lemma max_step_ge0: "f32_le (Fin 0) cur \<Longrightarrow> f32_le (Fin 0) (max_step nv cur)"
  by (auto simp: max_step_def f32_gt_def f32_le_iff f32_lt_def)

lemma cells_update:
  assumes g: "\<forall>row \<in> set g. \<forall>c \<in> set row. P c" and r: "r < length g" and x: "P x"
  shows "\<forall>row \<in> set (g[r := (g ! r)[c := x]]). \<forall>c \<in> set row. P c"
proof (intro ballI)
  fix row y
  assume row: "row \<in> set (g[r := (g ! r)[c := x]])" and y: "y \<in> set row"
  from row have "row \<in> insert ((g ! r)[c := x]) (set g)"
    using set_update_subset_insert[of g r "(g ! r)[c := x]"] by blast
  then consider "row = (g ! r)[c := x]" | "row \<in> set g"
    by blast
  then show "P y"
  proof cases
    case 1
    with y have "y \<in> insert x (set (g ! r))"
      using set_update_subset_insert[of "g ! r" c x] by blast
    moreover have "g ! r \<in> set g"
      using r by simp
    ultimately show ?thesis
      using g x by blast
  next
    case 2
    with g y show ?thesis by blast
  qed
qed

lemma mark_vertex_ge0:
  assumes a: "mark_vertex oor e v g = Inr g'"
    and g: "\<forall>row \<in> set g. \<forall>c \<in> set row. f32_le (Fin 0) c"
  shows "\<forall>row \<in> set g'. \<forall>c \<in> set row. f32_le (Fin 0) c"
proof -
  note m = mark_vertex_Inr[OF a]
  let ?r = "nat (vertex_row oor e v)" and ?c = "nat (vertex_matrixY oor e v)"
  have r: "?r < length g"
    using m by linarith
  have c: "?c < length (g ! ?r)"
    using m by linarith
  have "g ! ?r \<in> set g"
    using r by simp
  moreover have "g ! ?r ! ?c \<in> set (g ! ?r)"
    using c by simp
  ultimately have "f32_le (Fin 0) (g ! ?r ! ?c)"
    using g by blast
  then have x: "f32_le (Fin 0) (max_step (vertex_newValue e v) (g ! ?r ! ?c))"
    by (rule max_step_ge0)
  from m have eq: "g' = g[?r := (g ! ?r)[?c := max_step (vertex_newValue e v) (g ! ?r ! ?c)]]"
    by blast
  show ?thesis
    unfolding eq using g r x by (rule cells_update)
qed

lemma mark_vertices_ge0:
  "mark_vertices oor e vs g = Inr g' \<Longrightarrow>
   \<forall>row \<in> set g. \<forall>c \<in> set row. f32_le (Fin 0) c \<Longrightarrow>
   \<forall>row \<in> set g'. \<forall>c \<in> set row. f32_le (Fin 0) c"
proof (induction vs arbitrary: g)
  case Nil
  then show ?case by simp
next
  case (Cons v vs)
  from Cons.prems(1) obtain g1 where
    g1: "mark_vertex oor e v g = Inr g1" and rest: "mark_vertices oor e vs g1 = Inr g'"
    by (auto split: sum.splits)
  from Cons.IH[OF rest mark_vertex_ge0[OF g1 Cons.prems(2)]] show ?case .
qed

lemma ProjectModelVertices_ge0:
  assumes "ProjectModelVertices rt oor m S p = Inr g"
  shows "\<forall>row \<in> set g. \<forall>c \<in> set row. f32_le (Fin 0) c"
proof -
  from ProjectModelVertices_Inr[OF assms] obtain g0 where
    g0: "make_matrix rt S = Inr g0" and
    mv: "mark_vertices oor (proj_env_of m S p) (all_vertices m) g0 = Inr g"
    by blast
  from make_matrix_Inr[OF g0] have "\<forall>row \<in> set g0. \<forall>c \<in> set row. f32_le (Fin 0) c"
    by (auto simp: f32_le_refl)
  from mark_vertices_ge0[OF mv this] show ?thesis .
qed

subsection \<open>A mesh that is flat along the depth axis\<close>

lemma f32_eq_finite:
  "f32_eq a c \<Longrightarrow> f32_isFinite c \<Longrightarrow> a \<noteq> NaN \<and> \<not> f32_isInf a \<and> f32_val a = f32_val c"
  by (cases a; cases c) (auto simp: f32_eq_def f32_isFinite_def f32_isInf_def)

lemma f32_sub_eq_zero:
  assumes "f32_eq a c" "f32_eq b c" "f32_isFinite c"
  shows "f32_isZero (f32_sub a b)"
  using f32_eq_finite[OF assms(1,3)] f32_eq_finite[OF assms(2,3)]
  by (simp add: f32_sub_def f32_isZero_def)

lemma f32_div_zero_zero: "f32_isZero a \<Longrightarrow> f32_isZero b \<Longrightarrow> f32_div a b = NaN"
  by (auto simp: f32_div_def f32_isZero_def f32_isInf_def)

lemma max_step_NaN: "max_step NaN cur = cur"
  by (simp add: max_step_def f32_gt_def f32_lt_def)

lemma f32_eq_le_Max:
  "f32_eq x c \<Longrightarrow> f32_isFinite c \<Longrightarrow> f32_le MaxFloat32 x \<Longrightarrow> f32_eq MaxFloat32 c"
  by (cases x; cases c)
    (auto simp: f32_eq_def f32_isFinite_def f32_le_iff f32_lt_def MaxFloat32_def)

lemma f32_eq_ge_NegMax:
  "f32_eq x c \<Longrightarrow> f32_isFinite c \<Longrightarrow> f32_le x NegMaxFloat32 \<Longrightarrow> f32_eq NegMaxFloat32 c"
  by (cases x; cases c)
    (auto simp: f32_eq_def f32_isFinite_def f32_le_iff f32_lt_def NegMaxFloat32_def)

lemma f32_eq_not_NaN: "f32_eq a b \<Longrightarrow> a \<noteq> NaN"
  by (simp add: f32_eq_def)

lemma flat_min:
  assumes k: "k < 3" and w: "w \<in> set (all_vertices m)" and fin: "f32_isFinite c"
    and flat: "\<forall>v \<in> set (all_vertices m). f32_eq (arr3_get v k) c"
  shows "f32_eq (arr3_get (fst (getMinsMaxs m)) k) c"
proof -
  let ?xs = "map (\<lambda>v. arr3_get v k) (all_vertices m)"
  let ?r = "fold min_step ?xs MaxFloat32"
  consider "?r \<in> set ?xs" | "?r = MaxFloat32"
    using fold_min_step_in[of ?xs MaxFloat32] by blast
  then have "f32_eq ?r c"
  proof cases
    case 1
    with flat show ?thesis by auto
  next
    case 2
    from flat w have e: "f32_eq (arr3_get w k) c" by blast
    have "f32_le ?r (arr3_get w k)"
      using w f32_eq_not_NaN[OF e] by (intro fold_min_step_lower) (auto simp: MaxFloat32_def)
    with 2 f32_eq_le_Max[OF e fin] show ?thesis by simp
  qed
  then show ?thesis
    by (simp add: getMinsMaxs_min[OF k])
qed

lemma flat_max:
  assumes k: "k < 3" and w: "w \<in> set (all_vertices m)" and fin: "f32_isFinite c"
    and flat: "\<forall>v \<in> set (all_vertices m). f32_eq (arr3_get v k) c"
  shows "f32_eq (arr3_get (snd (getMinsMaxs m)) k) c"
proof -
  let ?xs = "map (\<lambda>v. arr3_get v k) (all_vertices m)"
  let ?r = "fold max_step ?xs NegMaxFloat32"
  consider "?r \<in> set ?xs" | "?r = NegMaxFloat32"
    using fold_max_step_in[of ?xs NegMaxFloat32] by blast
  then have "f32_eq ?r c"
  proof cases
    case 1
    with flat show ?thesis by auto
  next
    case 2
    from flat w have e: "f32_eq (arr3_get w k) c" by blast
    have "f32_le (arr3_get w k) ?r"
      using w f32_eq_not_NaN[OF e] by (intro fold_max_step_upper) (auto simp: NegMaxFloat32_def)
    with 2 f32_eq_ge_NegMax[OF e fin] show ?thesis by simp
  qed
  then show ?thesis
    by (simp add: getMinsMaxs_max[OF k])
qed

lemma flat_newValue:
  assumes w: "w \<in> set (all_vertices m)" and fin: "f32_isFinite c"
    and flat: "\<forall>v \<in> set (all_vertices m).
        f32_eq (arr3_get v (snd (snd (GetAxisForProjection p)))) c"
  shows "vertex_newValue (proj_env_of m S p) w = NaN"
proof -
  let ?d = "snd (snd (GetAxisForProjection p))"
  note mn = flat_min[OF depth_axis_lt3 w fin flat]
  note mx = flat_max[OF depth_axis_lt3 w fin flat]
  from flat w have e: "f32_eq (arr3_get w ?d) c" by blast
  show ?thesis
    unfolding vertex_newValue_eq
    by (intro f32_div_zero_zero f32_sub_eq_zero[OF e mn fin] f32_sub_eq_zero[OF mx mn fin])
qed

lemma mark_vertex_NaN:
  "mark_vertex oor e v g = Inr g' \<Longrightarrow> vertex_newValue e v = NaN \<Longrightarrow> g' = g"
  by (auto simp: mark_vertex_def Let_def f32_gt_def f32_lt_def split: sum.splits if_splits)

lemma mark_vertices_NaN:
  "mark_vertices oor e vs g = Inr g' \<Longrightarrow> \<forall>v \<in> set vs. vertex_newValue e v = NaN \<Longrightarrow> g' = g"
proof (induction vs arbitrary: g)
  case Nil
  then show ?case by simp
next
  case (Cons v vs)
  from Cons.prems(1) obtain g1 where
    g1: "mark_vertex oor e v g = Inr g1" and rest: "mark_vertices oor e vs g1 = Inr g'"
    by (auto split: sum.splits)
  from mark_vertex_NaN[OF g1] Cons.prems(2) have "g1 = g" by simp
  with Cons.IH[OF rest] Cons.prems(2) show ?case by simp
qed

lemma ProjectModelVertices_flat_mesh:
  assumes a: "ProjectModelVertices rt oor m S p = Inr g" and fin: "f32_isFinite c"
    and flat: "\<forall>v \<in> set (all_vertices m).
        f32_eq (arr3_get v (snd (snd (GetAxisForProjection p)))) c"
  shows "\<forall>row \<in> set g. \<forall>x \<in> set row. x = Fin 0"
proof -
  from ProjectModelVertices_Inr[OF a] obtain g0 where
    g0: "make_matrix rt S = Inr g0" and
    mv: "mark_vertices oor (proj_env_of m S p) (all_vertices m) g0 = Inr g"
    by blast
  have "\<forall>v \<in> set (all_vertices m). vertex_newValue (proj_env_of m S p) v = NaN"
    using flat_newValue[OF _ fin flat] by blast
  from mark_vertices_NaN[OF mv this] have "g = g0" .
  with make_matrix_Inr[OF g0] show ?thesis
    by auto
qed

text \<open>
  C10: every cell of the grid that \<open>ProjectModelVertices\<close> returns is a number that is
  not negative, and so not a NaN; and when every vertex of the mesh has the same finite
  coordinate on the depth axis, every cell is the zero the grid was allocated with.
\<close>

theorem ProjectModelVertices_cells:
  "ProjectModelVertices rt oor m S p = Inr g \<Longrightarrow>
   (\<forall>row \<in> set g. \<forall>x \<in> set row. x \<noteq> NaN \<and> f32_le (Fin 0) x) \<and>
   ((\<exists>c. f32_isFinite c \<and>
         (\<forall>t \<in> set (Triangles m). \<forall>v \<in> set (arr3_list (Vertices t)).
            f32_eq (arr3_get v (snd (snd (GetAxisForProjection p)))) c)) \<longrightarrow>
    (\<forall>row \<in> set g. \<forall>x \<in> set row. x = Fin 0))"
proof (intro conjI impI)
  assume a: "ProjectModelVertices rt oor m S p = Inr g"
  from ProjectModelVertices_ge0[OF a]
  show "\<forall>row \<in> set g. \<forall>x \<in> set row. x \<noteq> NaN \<and> f32_le (Fin 0) x"
    by (auto simp: f32_le_iff)
  assume "\<exists>c. f32_isFinite c \<and>
         (\<forall>t \<in> set (Triangles m). \<forall>v \<in> set (arr3_list (Vertices t)).
            f32_eq (arr3_get v (snd (snd (GetAxisForProjection p)))) c)"
  then obtain c where fin: "f32_isFinite c" and
    flat: "\<forall>t \<in> set (Triangles m). \<forall>v \<in> set (arr3_list (Vertices t)).
            f32_eq (arr3_get v (snd (snd (GetAxisForProjection p)))) c"
    by blast
  from flat have "\<forall>v \<in> set (all_vertices m).
        f32_eq (arr3_get v (snd (snd (GetAxisForProjection p)))) c"
    using all_vertices_set[of _ m] by blast
  from ProjectModelVertices_flat_mesh[OF a fin this]
  show "\<forall>row \<in> set g. \<forall>x \<in> set row. x = Fin 0" .
qed


subsection \<open>The value of a cell\<close>

lemma cell_depths_Cons:
  "cell_depths oor e (v # vs) r c =
   (if vertex_row oor e v = r \<and> vertex_matrixY oor e v = c
    then vertex_newValue e v # cell_depths oor e vs r c
    else cell_depths oor e vs r c)"
  by (simp add: cell_depths_def)

lemma nth_update2:
  assumes "r0 < length g" "c0 < length (g ! r0)" "r < length g" "c < length (g ! r)"
  shows "g[r0 := (g ! r0)[c0 := x]] ! r ! c = (if r = r0 \<and> c = c0 then x else g ! r ! c)"
  using assms by (auto simp: nth_list_update)

lemma mark_vertex_cell:
  assumes a: "mark_vertex oor e v g = Inr g'" and r: "r < length g" and c: "c < length (g ! r)"
  shows "length g' = length g \<and> length (g' ! r) = length (g ! r) \<and>
         g' ! r ! c =
           (if vertex_row oor e v = int r \<and> vertex_matrixY oor e v = int c
            then max_step (vertex_newValue e v) (g ! r ! c) else g ! r ! c)"
proof -
  note m = mark_vertex_Inr[OF a]
  let ?r = "nat (vertex_row oor e v)" and ?c = "nat (vertex_matrixY oor e v)"
  let ?x = "max_step (vertex_newValue e v) (g ! ?r ! ?c)"
  have r0: "?r < length g" and c0: "?c < length (g ! ?r)"
    using m by linarith+
  from m have eq: "g' = g[?r := (g ! ?r)[?c := ?x]]"
    by blast
  have rr: "vertex_row oor e v = int r \<longleftrightarrow> r = ?r"
    using m by linarith
  have cc: "vertex_matrixY oor e v = int c \<longleftrightarrow> c = ?c"
    using m by linarith
  have l1: "length g' = length g"
    by (simp add: eq)
  have l2: "length (g' ! r) = length (g ! r)"
    using r r0 by (cases "r = ?r") (simp_all add: eq)
  have "g' ! r ! c = (if r = ?r \<and> c = ?c then ?x else g ! r ! c)"
    unfolding eq by (rule nth_update2[OF r0 c0 r c])
  then have "g' ! r ! c =
           (if vertex_row oor e v = int r \<and> vertex_matrixY oor e v = int c
            then max_step (vertex_newValue e v) (g ! r ! c) else g ! r ! c)"
    unfolding rr cc by auto
  with l1 l2 show ?thesis
    by blast
qed

lemma mark_vertices_cell:
  "mark_vertices oor e vs g = Inr g' \<Longrightarrow> r < length g \<Longrightarrow> c < length (g ! r) \<Longrightarrow>
   g' ! r ! c = fold max_step (cell_depths oor e vs (int r) (int c)) (g ! r ! c)"
proof (induction vs arbitrary: g)
  case Nil
  then show ?case by (simp add: cell_depths_def)
next
  case (Cons v vs)
  from Cons.prems(1) obtain g1 where
    g1: "mark_vertex oor e v g = Inr g1" and rest: "mark_vertices oor e vs g1 = Inr g'"
    by (auto split: sum.splits)
  note s = mark_vertex_cell[OF g1 Cons.prems(2,3)]
  have r1: "r < length g1" and c1: "c < length (g1 ! r)"
    using s Cons.prems(2,3) by simp_all
  from Cons.IH[OF rest r1 c1] s show ?case
    by (simp add: cell_depths_Cons)
qed

lemma cell_value_fold:
  assumes a: "ProjectModelVertices rt oor m S p = Inr g" and r: "r < length g"
    and c: "c < length (g ! r)"
  shows "g ! r ! c =
    fold max_step (cell_depths oor (proj_env_of m S p) (all_vertices m) (int r) (int c)) (Fin 0)"
proof -
  from ProjectModelVertices_Inr[OF a] obtain g0 where
    g0: "make_matrix rt S = Inr g0" and
    mv: "mark_vertices oor (proj_env_of m S p) (all_vertices m) g0 = Inr g"
    by blast
  let ?rows = "nat (int_add (int_quot S 2) 1)" and ?cols = "nat (int_add S 1)"
  from make_matrix_Inr[OF g0] have g0eq: "g0 = replicate ?rows (replicate ?cols (Fin 0))"
    by blast
  from ProjectModelVertices_shape[OF a] r have rr: "r < ?rows"
    by (simp add: grid_shape_def)
  from ProjectModelVertices_shape[OF a] r c have "c < ?cols"
    by (auto simp: grid_shape_def)
  with rr have r0: "r < length g0" and c0: "c < length (g0 ! r)" and z: "g0 ! r ! c = Fin 0"
    by (simp_all add: g0eq)
  from mark_vertices_cell[OF mv r0 c0] z show ?thesis
    by simp
qed

subsection \<open>Depths are never negative\<close>

lemma pow2_pos: "0 < pow2 e"
  by (simp add: pow2_def)

lemma round_half_even_nonneg: "0 \<le> r \<Longrightarrow> 0 \<le> round_half_even r"
proof -
  assume "0 \<le> r"
  then have "0 \<le> \<lfloor>r\<rfloor>" by simp
  then show ?thesis
    by (auto simp: round_half_even_def Let_def)
qed

lemma f32_round_mag_nonneg: "0 < q \<Longrightarrow> f32_round_mag q = Some r \<Longrightarrow> 0 \<le> r"
proof -
  assume q: "0 < q" and a: "f32_round_mag q = Some r"
  let ?u = "pow2 (f32_exponent q - 23)"
  have "0 \<le> q / ?u"
    using q pow2_pos[of "f32_exponent q - 23"] by simp
  then have "0 \<le> round_half_even (q / ?u)"
    by (rule round_half_even_nonneg)
  then have "0 \<le> (of_int (round_half_even (q / ?u)) :: rat) * ?u"
    using pow2_pos[of "f32_exponent q - 23"] by simp
  with a show ?thesis
    by (auto simp: f32_round_mag_def Let_def split: if_splits)
qed

lemma f32_round_pos: "0 < q \<Longrightarrow> f32_round q \<noteq> NaN \<and> f32_round q \<noteq> NegZero \<and> f32_le (Fin 0) (f32_round q)"
  using f32_round_mag_nonneg[of q]
  by (auto simp: f32_round_def f32_le_iff f32_lt_def split: option.splits)

lemma f32_round_not_NaN: "f32_round q \<noteq> NaN"
  by (auto simp: f32_round_def split: option.splits)

text \<open>\<open>a - b\<close> for \<open>b \<le> a\<close>: a NaN or a value that is not negative, and \<open>-0\<close> only when
  \<open>a\<close> is \<open>-0\<close> and \<open>b\<close> is \<open>+0\<close>.\<close>

lemma f32_sub_nonneg:
  assumes "f32_le b a"
  shows "f32_sub a b = NaN \<or>
         (f32_le (Fin 0) (f32_sub a b) \<and> (f32_sub a b = NegZero \<longrightarrow> a = NegZero \<and> b = Fin 0))"
proof -
  from assms have n: "a \<noteq> NaN" "b \<noteq> NaN"
    and o: "f32_cls b < f32_cls a \<or> f32_cls b = f32_cls a \<and> f32_val b \<le> f32_val a"
    by (auto simp: f32_le_iff f32_lt_def)
  show ?thesis
  proof (cases "f32_isInf a \<or> f32_isInf b")
    case True
    with n o show ?thesis
      by (cases a; cases b)
        (auto simp: f32_sub_def f32_isInf_def f32_inf_def f32_le_iff f32_lt_def)
  next
    case False
    then have fa: "f32_cls a = 0" "f32_cls b = 0"
      using n by (cases a; cases b; simp add: f32_isInf_def)+
    with o have le: "f32_val b \<le> f32_val a" by simp
    show ?thesis
    proof (cases "f32_val a - f32_val b = 0")
      case True
      with False n show ?thesis
        by (auto simp: f32_sub_def f32_le_iff f32_lt_def)
    next
      case nz: False
      with le have "0 < f32_val a - f32_val b" by simp
      from f32_round_pos[OF this] False n nz show ?thesis
        by (simp add: f32_sub_def)
    qed
  qed
qed

text \<open>\<open>x / y\<close> for \<open>x\<close> and \<open>y\<close> that are not negative.\<close>

lemma f32_div_nonneg:
  assumes x: "f32_le (Fin 0) x" and y: "f32_le (Fin 0) y"
    and nz: "y = NegZero \<longrightarrow> f32_isZero x"
  shows "f32_div x y = NaN \<or> f32_le (Fin 0) (f32_div x y)"
proof -
  from x have xn: "x \<noteq> NaN" "x \<noteq> NInf" and xv: "0 \<le> f32_val x"
    by (cases x; auto simp: f32_le_iff f32_lt_def)+
  from y have yn: "y \<noteq> NaN" "y \<noteq> NInf" and yv: "0 \<le> f32_val y"
    by (cases y; auto simp: f32_le_iff f32_lt_def)+
  have z: "\<And>s. f32_le (Fin 0) (f32_zero s)"
    by (simp add: f32_zero_def f32_le_iff f32_lt_def)
  have sx: "\<not> f32_isZero x \<Longrightarrow> \<not> f32_neg x"
    using xn xv by (cases x) (auto simp: f32_isZero_def)
  have sy: "y \<noteq> NegZero \<Longrightarrow> \<not> f32_neg y"
    using yn yv by (cases y) auto
  have p: "f32_le (Fin 0) PInf"
    by (simp add: f32_le_iff f32_lt_def)
  consider (xinf) "f32_isInf x" | (yinf) "\<not> f32_isInf x" "f32_isInf y"
    | (yz) "\<not> f32_isInf x" "\<not> f32_isInf y" "f32_isZero y"
    | (xz) "\<not> f32_isInf x" "\<not> f32_isInf y" "\<not> f32_isZero y" "f32_isZero x"
    | (fin) "\<not> f32_isInf x" "\<not> f32_isInf y" "\<not> f32_isZero y" "\<not> f32_isZero x"
    by blast
  then show ?thesis
  proof cases
    case xinf
    then have "x = PInf" using xn by (simp add: f32_isInf_def)
    then have nzx: "\<not> f32_isZero x" by (simp add: f32_isZero_def)
    with nz have "y \<noteq> NegZero" by blast
    from sy[OF this] \<open>x = PInf\<close> xn yn p show ?thesis
      by (simp add: f32_div_def f32_inf_def f32_isInf_def)
  next
    case yinf
    with xn yn z show ?thesis
      by (simp add: f32_div_def)
  next
    case yz
    show ?thesis
    proof (cases "f32_isZero x")
      case True
      with yz xn yn show ?thesis by (simp add: f32_div_def)
    next
      case False
      with nz have "y \<noteq> NegZero" by blast
      from sy[OF this] sx[OF False] False yz xn yn p show ?thesis
        by (simp add: f32_div_def f32_inf_def)
    qed
  next
    case xz
    with xn yn z show ?thesis
      by (simp add: f32_div_def)
  next
    case fin
    have "0 < f32_val x"
      using fin xn xv by (cases x) (auto simp: f32_isZero_def f32_isInf_def)
    moreover have "0 < f32_val y"
      using fin yn yv by (cases y) (auto simp: f32_isZero_def f32_isInf_def)
    ultimately have "0 < f32_val x / f32_val y" by simp
    from f32_round_pos[OF this] fin xn yn show ?thesis
      by (simp add: f32_div_def)
  qed
qed

lemma f32_sub_NaN_left: "f32_sub NaN b = NaN"
  by (simp add: f32_sub_def)

lemma f32_div_NaN: "f32_div NaN b = NaN" "f32_div a NaN = NaN"
  by (simp_all add: f32_div_def)

lemma f32_sub_zero_right_zero:
  "f32_le (Fin 0) a \<Longrightarrow> f32_le a NegZero \<Longrightarrow> f32_isZero (f32_sub a (Fin 0))"
  by (cases a) (auto simp: f32_le_iff f32_lt_def f32_sub_def f32_isZero_def f32_isInf_def)

lemma vertex_newValue_nonneg:
  assumes v: "v \<in> set (all_vertices m)"
  shows "vertex_newValue (proj_env_of m S p) v = NaN \<or>
         f32_le (Fin 0) (vertex_newValue (proj_env_of m S p) v)"
proof -
  let ?d = "snd (snd (GetAxisForProjection p))"
  let ?c = "arr3_get v ?d"
  let ?mn = "arr3_get (fst (getMinsMaxs m)) ?d" and ?mx = "arr3_get (snd (getMinsMaxs m)) ?d"
  let ?x = "f32_sub ?c ?mn" and ?y = "f32_sub ?mx ?mn"
  show ?thesis
  proof (cases "?c = NaN \<or> ?x = NaN \<or> ?y = NaN")
    case True
    then show ?thesis
      unfolding vertex_newValue_eq by (auto simp: f32_sub_NaN_left f32_div_NaN)
  next
    case False
    then have cn: "?c \<noteq> NaN" and xn: "?x \<noteq> NaN" and yn: "?y \<noteq> NaN"
      by simp_all
    note lo = getMinsMaxs_lower[OF depth_axis_lt3 v cn]
    note hi = getMinsMaxs_upper[OF depth_axis_lt3 v cn]
    from f32_sub_nonneg[OF lo] xn have x0: "f32_le (Fin 0) ?x"
      by blast
    from f32_sub_nonneg[OF f32_le_trans[OF lo hi]] yn have
      y0: "f32_le (Fin 0) ?y" and yz: "?y = NegZero \<longrightarrow> ?mx = NegZero \<and> ?mn = Fin 0"
      by blast+
    have nz: "?y = NegZero \<longrightarrow> f32_isZero ?x"
    proof
      assume "?y = NegZero"
      with yz have mx: "?mx = NegZero" and mn: "?mn = Fin 0" by blast+
      from lo hi show "f32_isZero ?x"
        unfolding mx mn by (intro f32_sub_zero_right_zero)
    qed
    from f32_div_nonneg[OF x0 y0 nz] show ?thesis
      unfolding vertex_newValue_eq .
  qed
qed

lemma fold_max_step_attained:
  assumes a: "f32_le (Fin 0) a \<and> f32_le a (Fin 0)"
    and ds: "\<forall>d \<in> set ds. d = NaN \<or> f32_le (Fin 0) d"
    and ex: "\<exists>d \<in> set ds. d \<noteq> NaN"
  shows "\<exists>d \<in> set ds. f32_eq d (fold max_step ds a)"
proof -
  from ex obtain d0 where d0: "d0 \<in> set ds" "d0 \<noteq> NaN" by blast
  have an: "a \<noteq> NaN" using a by (simp add: f32_le_iff)
  consider "fold max_step ds a \<in> set ds" | "fold max_step ds a = a"
    using fold_max_step_in[of ds a] by blast
  then show ?thesis
  proof cases
    case 1
    then have "fold max_step ds a \<noteq> NaN \<or> fold max_step ds a = NaN" by simp
    moreover have "fold max_step ds a \<noteq> NaN"
      using fold_max_step_ge_init[OF an, of ds] by (simp add: f32_le_iff)
    ultimately show ?thesis
      using 1 by (auto simp: f32_eq_def)
  next
    case 2
    from fold_max_step_upper[OF an d0] 2 have "f32_le d0 a" by simp
    moreover from ds d0 have "f32_le (Fin 0) d0" by blast
    ultimately have "f32_eq d0 a"
      using a by (auto simp: f32_le_iff f32_lt_def f32_eq_def)
    with d0 2 show ?thesis by auto
  qed
qed


lemma fold_max_step_all_NaN: "\<forall>d \<in> set ds. d = NaN \<Longrightarrow> fold max_step ds a = a"
  by (induction ds arbitrary: a) (simp_all add: max_step_NaN)

lemma cell_depths_set:
  "set (cell_depths oor e vs r c) =
   vertex_newValue e ` {v \<in> set vs. vertex_row oor e v = r \<and> vertex_matrixY oor e v = c}"
  by (auto simp: cell_depths_def)

lemma cell_depths_nonneg:
  "\<forall>d \<in> set (cell_depths oor (proj_env_of m S p) (all_vertices m) r c).
     d = NaN \<or> f32_le (Fin 0) d"
  using vertex_newValue_nonneg[of _ m S p] by (auto simp: cell_depths_def)

text \<open>
  C8: in the grid that \<open>ProjectModelVertices\<close> returns, the vertices that are written to
  the cell in row \<open>r\<close> and column \<open>c\<close> are those with \<open>(S - matrixX) / 2 = r\<close> and
  \<open>matrixY = c\<close>; the depth of a vertex is its coordinate on the depth axis minus the
  minimum, divided by the extent; the cell holds the result of the max-wins update over
  the depths of its vertices in order, starting from 0: it is at least every such depth
  that is a number, it equals one of them when there is one, and it is 0 when there is
  none.
\<close>

theorem ProjectModelVertices_max_depth:
  "ProjectModelVertices rt oor m S p = Inr g \<Longrightarrow> r < length g \<Longrightarrow> c < length (g ! r) \<Longrightarrow>
   ds = cell_depths oor (proj_env_of m S p) (all_vertices m) (int r) (int c) \<Longrightarrow>
   set ds = vertex_newValue (proj_env_of m S p) `
     {v \<in> set (all_vertices m).
        int_quot (int_sub S (vertex_matrixX oor (proj_env_of m S p) v)) 2 = int r \<and>
        vertex_matrixY oor (proj_env_of m S p) v = int c} \<and>
   vertex_newValue (proj_env_of m S p) v =
     f32_div
       (f32_sub (arr3_get v (snd (snd (GetAxisForProjection p))))
          (arr3_get (fst (getMinsMaxs m)) (snd (snd (GetAxisForProjection p)))))
       (f32_sub (arr3_get (snd (getMinsMaxs m)) (snd (snd (GetAxisForProjection p))))
          (arr3_get (fst (getMinsMaxs m)) (snd (snd (GetAxisForProjection p))))) \<and>
   g ! r ! c = fold max_step ds (Fin 0) \<and>
   (\<forall>d \<in> set ds. d \<noteq> NaN \<longrightarrow> f32_le d (g ! r ! c)) \<and>
   ((\<exists>d \<in> set ds. d \<noteq> NaN) \<longrightarrow> (\<exists>d \<in> set ds. f32_eq d (g ! r ! c))) \<and>
   ((\<forall>d \<in> set ds. d = NaN) \<longrightarrow> g ! r ! c = Fin 0)"
proof -
  assume a: "ProjectModelVertices rt oor m S p = Inr g" and r: "r < length g"
    and c: "c < length (g ! r)"
    and ds: "ds = cell_depths oor (proj_env_of m S p) (all_vertices m) (int r) (int c)"
  have s: "set ds = vertex_newValue (proj_env_of m S p) `
     {v \<in> set (all_vertices m).
        int_quot (int_sub S (vertex_matrixX oor (proj_env_of m S p) v)) 2 = int r \<and>
        vertex_matrixY oor (proj_env_of m S p) v = int c}"
    unfolding ds cell_depths_set by (simp add: vertex_row_def proj_env_of_fields)
  have cell: "g ! r ! c = fold max_step ds (Fin 0)"
    unfolding ds by (rule cell_value_fold[OF a r c])
  have z: "f32_le (Fin 0) (Fin 0) \<and> f32_le (Fin 0) (Fin 0)" "Fin 0 \<noteq> NaN"
    by (simp_all add: f32_le_iff f32_lt_def)
  have nn: "\<forall>d \<in> set ds. d = NaN \<or> f32_le (Fin 0) d"
    unfolding ds by (rule cell_depths_nonneg)
  have ub: "\<forall>d \<in> set ds. d \<noteq> NaN \<longrightarrow> f32_le d (g ! r ! c)"
    unfolding cell using fold_max_step_upper[OF z(2), of _ ds] by blast
  have att: "(\<exists>d \<in> set ds. d \<noteq> NaN) \<longrightarrow> (\<exists>d \<in> set ds. f32_eq d (g ! r ! c))"
    unfolding cell using fold_max_step_attained[OF z(1) nn] by blast
  have none: "(\<forall>d \<in> set ds. d = NaN) \<longrightarrow> g ! r ! c = Fin 0"
    unfolding cell using fold_max_step_all_NaN[of ds "Fin 0"] by blast
  from s vertex_newValue_eq[of m S p v] cell ub att none show ?thesis
    by blast
qed

subsection \<open>When the projection panics\<close>

lemma mark_vertices_iff:
  "grid_shape rows cols g \<Longrightarrow>
   (\<exists>g'. mark_vertices oor e vs g = Inr g') \<longleftrightarrow>
   (\<forall>v \<in> set vs. 0 \<le> vertex_row oor e v \<and> vertex_row oor e v < int rows \<and>
      0 \<le> vertex_matrixY oor e v \<and> vertex_matrixY oor e v < int cols)"
proof (induction vs arbitrary: g)
  case Nil
  then show ?case by simp
next
  case (Cons v vs)
  let ?ok = "\<lambda>v. 0 \<le> vertex_row oor e v \<and> vertex_row oor e v < int rows \<and>
      0 \<le> vertex_matrixY oor e v \<and> vertex_matrixY oor e v < int cols"
  have len: "length g = rows"
    using Cons.prems by (simp add: grid_shape_def)
  have rowlen: "\<And>i. i < rows \<Longrightarrow> length (g ! i) = cols"
    using Cons.prems by (simp add: grid_shape_def)
  have one: "(\<exists>g1. mark_vertex oor e v g = Inr g1) \<longleftrightarrow> ?ok v"
  proof
    assume "\<exists>g1. mark_vertex oor e v g = Inr g1"
    then have m: "0 \<le> vertex_row oor e v \<and> vertex_row oor e v < int (length g) \<and>
       0 \<le> vertex_matrixY oor e v \<and>
       vertex_matrixY oor e v < int (length (g ! nat (vertex_row oor e v)))"
      unfolding mark_vertex_iff .
    then have "nat (vertex_row oor e v) < rows"
      using len by linarith
    from rowlen[OF this] m len show "?ok v"
      by simp
  next
    assume ok: "?ok v"
    then have "nat (vertex_row oor e v) < rows"
      by linarith
    from rowlen[OF this] ok len show "\<exists>g1. mark_vertex oor e v g = Inr g1"
      unfolding mark_vertex_iff by simp
  qed
  show ?case
  proof
    assume "\<exists>g'. mark_vertices oor e (v # vs) g = Inr g'"
    then obtain g' g1 where
      g1: "mark_vertex oor e v g = Inr g1" and rest: "mark_vertices oor e vs g1 = Inr g'"
      by (auto split: sum.splits)
    from g1 one have "?ok v" by blast
    moreover from Cons.IH[OF mark_vertex_shape[OF g1 Cons.prems]] rest
    have "\<forall>w \<in> set vs. ?ok w" by blast
    ultimately show "\<forall>w \<in> set (v # vs). ?ok w" by simp
  next
    assume all: "\<forall>w \<in> set (v # vs). ?ok w"
    then have "?ok v" by simp
    with one obtain g1 where g1: "mark_vertex oor e v g = Inr g1" by blast
    from all have "\<forall>w \<in> set vs. ?ok w" by simp
    with Cons.IH[OF mark_vertex_shape[OF g1 Cons.prems]] obtain g' where
      "mark_vertices oor e vs g1 = Inr g'" by blast
    with g1 show "\<exists>g'. mark_vertices oor e (v # vs) g = Inr g'" by simp
  qed
qed

lemma mark_vertices_Inl: "mark_vertices oor e vs g = Inl q \<Longrightarrow> q = IndexOutOfRange"
proof (induction vs arbitrary: g)
  case Nil
  then show ?case by simp
next
  case (Cons v vs)
  then show ?case
    by (auto split: sum.splits dest: mark_vertex_Inl)
qed

text \<open>
  C2, as the code has it: \<open>ProjectModelVertices\<close> neither clamps nor skips. It returns a
  grid exactly when the grid can be allocated (the slice of \<open>S/2 + 1\<close> rows and, for each
  row, the slice of \<open>S + 1\<close> cells: a length that is not negative, a size within the
  limit of the runtime, and the memory for it) and every vertex has its row index
  \<open>(S - matrixX)/2\<close> within the rows and its column index \<open>matrixY\<close> within the columns.
  With the grid allocated, a vertex with an index outside the grid makes the call panic
  with an index out of range; a number of rows that is negative or beyond the limit of
  the runtime makes it panic in \<^verbatim>\<open>make\<close>.
\<close>

theorem ProjectModelVertices_panics:
  "((\<exists>g. ProjectModelVertices rt oor m S p = Inr g) \<longleftrightarrow>
      can_make rt 0 24 (int_add (int_quot S 2) 1) \<and>
      (\<forall>i < nat (int_add (int_quot S 2) 1). can_make rt (Suc i) 4 (int_add S 1)) \<and>
      (\<forall>v \<in> set (all_vertices m).
         0 \<le> vertex_row oor (proj_env_of m S p) v \<and>
         vertex_row oor (proj_env_of m S p) v < int_add (int_quot S 2) 1 \<and>
         0 \<le> vertex_matrixY oor (proj_env_of m S p) v \<and>
         vertex_matrixY oor (proj_env_of m S p) v < int_add S 1)) \<and>
   (can_make rt 0 24 (int_add (int_quot S 2) 1) \<and>
    (\<forall>i < nat (int_add (int_quot S 2) 1). can_make rt (Suc i) 4 (int_add S 1)) \<and>
    (\<exists>v \<in> set (all_vertices m).
       \<not> (0 \<le> vertex_row oor (proj_env_of m S p) v \<and>
          vertex_row oor (proj_env_of m S p) v < int_add (int_quot S 2) 1 \<and>
          0 \<le> vertex_matrixY oor (proj_env_of m S p) v \<and>
          vertex_matrixY oor (proj_env_of m S p) v < int_add S 1))
    \<longrightarrow> ProjectModelVertices rt oor m S p = Inl IndexOutOfRange) \<and>
   (int_add (int_quot S 2) 1 < 0 \<or> maxAlloc rt < 24 * int_add (int_quot S 2) 1
    \<longrightarrow> ProjectModelVertices rt oor m S p = Inl MakeSliceLenOutOfRange)"
proof -
  let ?rows = "int_add (int_quot S 2) 1" and ?cols = "int_add S 1"
  let ?e = "proj_env_of m S p"
  let ?ok = "\<lambda>v. 0 \<le> vertex_row oor ?e v \<and> vertex_row oor ?e v < ?rows \<and>
         0 \<le> vertex_matrixY oor ?e v \<and> vertex_matrixY oor ?e v < ?cols"
  let ?alloc = "can_make rt 0 24 ?rows \<and> (\<forall>i < nat ?rows. can_make rt (Suc i) 4 ?cols)"
  have alloc_iff: "(\<exists>g0. make_matrix rt S = Inr g0) \<longleftrightarrow> ?alloc"
    unfolding make_matrix_Inr_iff by blast
  have main: "(\<exists>g. ProjectModelVertices rt oor m S p = Inr g) \<longleftrightarrow>
      ?alloc \<and> (\<forall>v \<in> set (all_vertices m). ?ok v)"
  proof (cases "\<exists>g0. make_matrix rt S = Inr g0")
    case False
    then have "\<not> ?alloc"
      unfolding alloc_iff .
    moreover have "\<not> (\<exists>g. ProjectModelVertices rt oor m S p = Inr g)"
      using False ProjectModelVertices_Inr by blast
    ultimately show ?thesis by blast
  next
    case True
    then obtain g0 where g0: "make_matrix rt S = Inr g0" by blast
    from True have al: ?alloc
      unfolding alloc_iff .
    from make_matrix_Inr[OF g0] have sh: "grid_shape (nat ?rows) (nat ?cols) g0"
      and r0: "0 \<le> ?rows" and c0: "0 < ?rows \<longrightarrow> 0 \<le> ?cols"
      by (simp_all add: replicate_shape)
    have eq: "ProjectModelVertices rt oor m S p = mark_vertices oor ?e (all_vertices m) g0"
      by (simp add: ProjectModelVertices_flat g0)
    have "(\<exists>g. mark_vertices oor ?e (all_vertices m) g0 = Inr g) \<longleftrightarrow>
        (\<forall>v \<in> set (all_vertices m).
           0 \<le> vertex_row oor ?e v \<and> vertex_row oor ?e v < int (nat ?rows) \<and>
           0 \<le> vertex_matrixY oor ?e v \<and> vertex_matrixY oor ?e v < int (nat ?cols))"
      by (rule mark_vertices_iff[OF sh])
    also have "\<dots> \<longleftrightarrow> (\<forall>v \<in> set (all_vertices m). ?ok v)"
    proof (intro ball_cong refl)
      fix v
      show "(0 \<le> vertex_row oor ?e v \<and> vertex_row oor ?e v < int (nat ?rows) \<and>
           0 \<le> vertex_matrixY oor ?e v \<and> vertex_matrixY oor ?e v < int (nat ?cols)) \<longleftrightarrow> ?ok v"
        using r0 c0 by auto
    qed
    finally show ?thesis
      using al eq by simp
  qed
  have panic: "?alloc \<and> (\<exists>v \<in> set (all_vertices m). \<not> ?ok v)
      \<longrightarrow> ProjectModelVertices rt oor m S p = Inl IndexOutOfRange"
  proof
    assume h: "?alloc \<and> (\<exists>v \<in> set (all_vertices m). \<not> ?ok v)"
    then have "\<exists>g0. make_matrix rt S = Inr g0"
      unfolding alloc_iff by blast
    then obtain g0 where g0: "make_matrix rt S = Inr g0" by blast
    have eq: "ProjectModelVertices rt oor m S p = mark_vertices oor ?e (all_vertices m) g0"
      by (simp add: ProjectModelVertices_flat g0)
    from h main have "\<not> (\<exists>g. ProjectModelVertices rt oor m S p = Inr g)"
      by blast
    then obtain q where "ProjectModelVertices rt oor m S p = Inl q"
      by (cases "ProjectModelVertices rt oor m S p") auto
    with eq mark_vertices_Inl show "ProjectModelVertices rt oor m S p = Inl IndexOutOfRange"
      by metis
  qed
  have len: "?rows < 0 \<or> maxAlloc rt < 24 * ?rows
      \<longrightarrow> ProjectModelVertices rt oor m S p = Inl MakeSliceLenOutOfRange"
    by (simp add: ProjectModelVertices_flat make_matrix_Inl_len)
  from main panic len show ?thesis
    by blast
qed

subsection \<open>The projection of the example meshes\<close>

lemma getMinsMaxs_tri_mesh:
  "getMinsMaxs tri_mesh = (Arr3 (Fin 0) (Fin 0) (Fin 0), Arr3 (Fin 1) (Fin 1) (Fin 2))"
  by (simp add: getMinsMaxs_def tri_mesh_def scan_triangle_def scan_vertex_def
      update_min_max_def f32_lt_def f32_gt_def MaxFloat32_def NegMaxFloat32_def Let_def)

lemma getMinsMaxs_flat_mesh:
  "getMinsMaxs flat_mesh = (Arr3 (Fin 0) (Fin 0) (Fin 0), Arr3 (Fin 1) (Fin 1) (Fin 0))"
  by (simp add: getMinsMaxs_def flat_mesh_def scan_triangle_def scan_vertex_def
      update_min_max_def f32_lt_def f32_gt_def MaxFloat32_def NegMaxFloat32_def Let_def)

lemma f32_ops_examples:
  "f32_of_int 4 = Fin 4"
  "f32_sub (Fin 1) (Fin 0) = Fin 1"
  "f32_sub (Fin 2) (Fin 0) = Fin 2"
  "f32_sub (Fin 0) (Fin 0) = Fin 0"
  "f32_div (Fin 1) (Fin 4) = Fin (1 / 4)"
  by code_simp+

lemma proj_env_of_tri_mesh: "proj_env_of tri_mesh 4 ProjectFromTop = tri_env"
  by (simp add: proj_env_of_def getMinsMaxs_tri_mesh GetAxisForProjection_def
      ProjectFromTop_def ProjectFromSide_def ProjectFromFront_def f32_ops_examples
      f32_gt_def f32_lt_def tri_env_def)

lemma proj_env_of_flat_mesh: "proj_env_of flat_mesh 4 ProjectFromTop = flat_env"
  by (simp add: proj_env_of_def getMinsMaxs_flat_mesh GetAxisForProjection_def
      ProjectFromTop_def ProjectFromSide_def ProjectFromFront_def f32_ops_examples
      f32_gt_def f32_lt_def flat_env_def)

lemma make_matrix_4: "make_matrix rt_amd64 4 = Inr (replicate 3 (replicate 5 (Fin 0)))"
  by (simp add: make_matrix_Inr_iff can_make_def rt_amd64_def int_add_def int_quot_def
      wrap64_def)

lemma mark_vertices_tri_mesh:
  "mark_vertices oor_amd64 tri_env (all_vertices tri_mesh) (replicate 3 (replicate 5 (Fin 0))) =
   Inr [[Fin 1, Fin 0, Fin 0, Fin 0, Fin 0],
        [Fin 0, Fin 0, Fin 0, Fin 0, Fin 0],
        [Fin 0, Fin 0, Fin 0, Fin 0, Fin (1 / 2)]]"
  by code_simp

lemma mark_vertices_flat_mesh:
  "mark_vertices oor_amd64 flat_env (all_vertices flat_mesh) (replicate 3 (replicate 5 (Fin 0))) =
   Inr [[Fin 0, Fin 0, Fin 0, Fin 0, Fin 0],
        [Fin 0, Fin 0, Fin 0, Fin 0, Fin 0],
        [Fin 0, Fin 0, Fin 0, Fin 0, Fin 0]]"
  by code_simp

lemma cell_depths_tri_mesh:
  "cell_depths oor_amd64 tri_env (all_vertices tri_mesh) 0 0 = [Fin 1]"
  "cell_depths oor_amd64 tri_env (all_vertices tri_mesh) 2 4 = [Fin (1 / 2)]"
  "cell_depths oor_amd64 tri_env (all_vertices tri_mesh) 1 1 = []"
  by code_simp+

lemma ProjectModelVertices_tri_mesh:
  "ProjectModelVertices rt_amd64 oor_amd64 tri_mesh 4 ProjectFromTop =
   Inr [[Fin 1, Fin 0, Fin 0, Fin 0, Fin 0],
        [Fin 0, Fin 0, Fin 0, Fin 0, Fin 0],
        [Fin 0, Fin 0, Fin 0, Fin 0, Fin (1 / 2)]]"
  by (simp add: ProjectModelVertices_flat make_matrix_4 proj_env_of_tri_mesh
      mark_vertices_tri_mesh)

lemma ProjectModelVertices_flat_mesh_4:
  "ProjectModelVertices rt_amd64 oor_amd64 flat_mesh 4 ProjectFromTop =
   Inr [[Fin 0, Fin 0, Fin 0, Fin 0, Fin 0],
        [Fin 0, Fin 0, Fin 0, Fin 0, Fin 0],
        [Fin 0, Fin 0, Fin 0, Fin 0, Fin 0]]"
  by (simp add: ProjectModelVertices_flat make_matrix_4 proj_env_of_flat_mesh
      mark_vertices_flat_mesh)

text \<open>The two triangles seen from the front: the cell in row 2 and column 0 is offered the
  depths \<open>1/2\<close>, \<open>1\<close> and \<open>0\<close>, in this order.\<close>

lemma getMinsMaxs_stack_mesh:
  "getMinsMaxs stack_mesh = (Arr3 (Fin 0) (Fin 0) (Fin 0), Arr3 (Fin 1) (Fin 2) (Fin 1))"
  by (simp add: getMinsMaxs_def stack_mesh_def scan_triangle_def scan_vertex_def
      update_min_max_def f32_lt_def f32_gt_def MaxFloat32_def NegMaxFloat32_def Let_def)

lemma proj_env_of_stack_mesh: "proj_env_of stack_mesh 4 ProjectFromFront = stack_env"
  by (simp add: proj_env_of_def getMinsMaxs_stack_mesh GetAxisForProjection_def
      ProjectFromTop_def ProjectFromSide_def ProjectFromFront_def f32_ops_examples
      f32_gt_def f32_lt_def stack_env_def Let_def)

lemma mark_vertices_stack_mesh:
  "mark_vertices oor_amd64 stack_env (all_vertices stack_mesh)
     (replicate 3 (replicate 5 (Fin 0))) =
   Inr [[Fin 0, Fin 0, Fin 0, Fin 0, Fin 0],
        [Fin 0, Fin 0, Fin 0, Fin 0, Fin 0],
        [Fin 1, Fin 0, Fin 0, Fin 0, Fin 0]]"
  by code_simp

lemma cell_depths_stack_mesh:
  "cell_depths oor_amd64 stack_env (all_vertices stack_mesh) 2 0 = [Fin (1 / 2), Fin 1, Fin 0]"
  by code_simp

lemma ProjectModelVertices_stack_mesh:
  "ProjectModelVertices rt_amd64 oor_amd64 stack_mesh 4 ProjectFromFront =
   Inr [[Fin 0, Fin 0, Fin 0, Fin 0, Fin 0],
        [Fin 0, Fin 0, Fin 0, Fin 0, Fin 0],
        [Fin 1, Fin 0, Fin 0, Fin 0, Fin 0]]"
  by (simp add: ProjectModelVertices_flat make_matrix_4 proj_env_of_stack_mesh
      mark_vertices_stack_mesh)

lemma make_matrix_minus_1: "make_matrix rt_amd64 (- 1) = Inr [[]]"
  by (simp add: make_matrix_Inr_iff can_make_def rt_amd64_def int_add_def int_quot_def
      wrap64_def)

text \<open>At the resolution \<open>2^62\<close> the slice of the rows is beyond the limit of the runtime,
  whatever the mesh.\<close>

lemma ProjectModelVertices_too_large:
  "ProjectModelVertices rt_amd64 oor m (2 ^ 62) p = Inl MakeSliceLenOutOfRange"
  by (simp add: ProjectModelVertices_flat make_matrix_Inl_len rt_amd64_def int_add_def
      int_quot_def wrap64_def)

lemma mark_vertex_no_columns: "mark_vertex oor e v [[]] = Inl IndexOutOfRange"
  by (auto simp: mark_vertex_def Let_def index_def split: sum.splits)

text \<open>On amd64 the mesh shrunk to a point panics at the resolution 4: the scale is 0,
  \<open>0 / 0\<close> is a NaN, its conversion gives the least \<^verbatim>\<open>int\<close>, and the row index is
  negative.\<close>

lemma getMinsMaxs_point_mesh:
  "getMinsMaxs point_mesh = (Arr3 (Fin 0) (Fin 0) (Fin 0), Arr3 (Fin 0) (Fin 0) (Fin 0))"
  by (simp add: getMinsMaxs_def point_mesh_def scan_triangle_def scan_vertex_def
      update_min_max_def f32_lt_def f32_gt_def MaxFloat32_def NegMaxFloat32_def Let_def)

lemma f32_div_0_4: "f32_div (Fin 0) (Fin 4) = Fin 0"
  by code_simp

lemma proj_env_of_point_mesh: "proj_env_of point_mesh 4 ProjectFromTop = point_env"
  by (simp add: proj_env_of_def getMinsMaxs_point_mesh GetAxisForProjection_def
      ProjectFromTop_def ProjectFromSide_def ProjectFromFront_def f32_ops_examples
      f32_div_0_4 f32_gt_def f32_lt_def point_env_def Let_def)

lemma vertex_row_point_mesh:
  "vertex_matrixX oor_amd64 point_env (Arr3 (Fin 0) (Fin 0) (Fin 0)) = - (2 ^ 63)"
  "vertex_row oor_amd64 point_env (Arr3 (Fin 0) (Fin 0) (Fin 0)) = 2 - 2 ^ 62"
  by code_simp+

lemma mark_vertices_point_mesh:
  "mark_vertices oor_amd64 point_env (all_vertices point_mesh)
     (replicate 3 (replicate 5 (Fin 0))) = Inl IndexOutOfRange"
  by code_simp

lemma ProjectModelVertices_point_mesh_amd64:
  "ProjectModelVertices rt_amd64 oor_amd64 point_mesh 4 ProjectFromTop = Inl IndexOutOfRange"
  by (simp add: ProjectModelVertices_flat make_matrix_4 proj_env_of_point_mesh
      mark_vertices_point_mesh)

subsection \<open>The theorems on the example meshes\<close>

theorem ProjectModelVertices_grid_shape_witness:
  "is_int64 4 \<and>
   (\<exists>g. ProjectModelVertices rt_amd64 oor_amd64 tri_mesh 4 ProjectFromTop = Inr g \<and>
        length g = 3 \<and> length (g ! 0) = 5 \<and> length (g ! 2) = 5)"
proof -
  let ?g = "[[Fin 1, Fin 0, Fin 0, Fin 0, Fin 0],
             [Fin 0, Fin 0, Fin 0, Fin 0, Fin 0],
             [Fin 0, Fin 0, Fin 0, Fin 0, Fin (1 / 2)]]"
  have S: "is_int64 4"
    by (simp add: is_int64_def)
  note th = ProjectModelVertices_grid_shape[OF S ProjectModelVertices_tri_mesh]
  from th have rows: "int (length ?g) = 4 div 2 + 1"
    by simp
  from th have cols: "\<forall>row \<in> set ?g. int (length row) = 4 + 1"
    by blast
  have "?g ! 0 \<in> set ?g" "?g ! 2 \<in> set ?g"
    by simp_all
  with cols have "int (length (?g ! 0)) = 5" "int (length (?g ! 2)) = 5"
    by auto
  with rows S ProjectModelVertices_tri_mesh show ?thesis
    by simp
qed

theorem ProjectModelVertices_cells_witness:
  "f32_isFinite (Fin 0) \<and>
   (\<exists>g. ProjectModelVertices rt_amd64 oor_amd64 flat_mesh 4 ProjectFromTop = Inr g \<and>
        g ! 0 ! 0 = Fin 0 \<and> g ! 2 ! 4 = Fin 0 \<and> f32_le (Fin 0) (g ! 2 ! 4))"
proof -
  let ?g = "[[Fin 0, Fin 0, Fin 0, Fin 0, Fin 0],
             [Fin 0, Fin 0, Fin 0, Fin 0, Fin 0],
             [Fin 0, Fin 0, Fin 0, Fin 0, Fin 0]]"
  have fin: "f32_isFinite (Fin 0)"
    by (simp add: f32_isFinite_def)
  have flat: "\<forall>t \<in> set (Triangles flat_mesh). \<forall>v \<in> set (arr3_list (Vertices t)).
      f32_eq (arr3_get v (snd (snd (GetAxisForProjection ProjectFromTop)))) (Fin 0)"
    by (simp add: flat_mesh_def GetAxisForProjection_def ProjectFromTop_def
        ProjectFromSide_def ProjectFromFront_def f32_eq_def)
  note th = ProjectModelVertices_cells[OF ProjectModelVertices_flat_mesh_4]
  from th have ge: "\<forall>row \<in> set ?g. \<forall>x \<in> set row. x \<noteq> NaN \<and> f32_le (Fin 0) x"
    by blast
  from th fin flat have zero: "\<forall>row \<in> set ?g. \<forall>x \<in> set row. x = Fin 0"
    by blast
  have m: "?g ! 0 \<in> set ?g" "?g ! 2 \<in> set ?g" "?g ! 0 ! 0 \<in> set (?g ! 0)"
    "?g ! 2 ! 4 \<in> set (?g ! 2)"
    by simp_all
  from zero m have "?g ! 0 ! 0 = Fin 0" "?g ! 2 ! 4 = Fin 0"
    by blast+
  moreover from ge m have "f32_le (Fin 0) (?g ! 2 ! 4)"
    by blast
  ultimately show ?thesis
    using fin ProjectModelVertices_flat_mesh_4 by blast
qed

theorem ProjectModelVertices_max_depth_witness:
  "\<exists>g. ProjectModelVertices rt_amd64 oor_amd64 stack_mesh 4 ProjectFromFront = Inr g \<and>
       2 < length g \<and> 0 < length (g ! 2) \<and>
       cell_depths oor_amd64 (proj_env_of stack_mesh 4 ProjectFromFront)
         (all_vertices stack_mesh) (int 2) (int 0) = [Fin (1 / 2), Fin 1, Fin 0] \<and>
       g ! 2 ! 0 = Fin 1 \<and>
       f32_le (Fin (1 / 2)) (g ! 2 ! 0) \<and> f32_le (Fin 1) (g ! 2 ! 0) \<and>
       f32_le (Fin 0) (g ! 2 ! 0) \<and>
       (\<exists>d \<in> set [Fin (1 / 2), Fin 1, Fin 0]. f32_eq d (g ! 2 ! 0)) \<and>
       g ! 0 ! 4 = Fin 0"
proof -
  let ?g = "[[Fin 0, Fin 0, Fin 0, Fin 0, Fin 0],
             [Fin 0, Fin 0, Fin 0, Fin 0, Fin 0],
             [Fin 1, Fin 0, Fin 0, Fin 0, Fin 0]]"
  let ?ds = "cell_depths oor_amd64 (proj_env_of stack_mesh 4 ProjectFromFront)
      (all_vertices stack_mesh) (int 2) (int 0)"
  have r: "2 < length ?g" and c: "0 < length (?g ! 2)"
    by simp_all
  have ds: "?ds = [Fin (1 / 2), Fin 1, Fin 0]"
    by (simp add: proj_env_of_stack_mesh cell_depths_stack_mesh)
  note th = ProjectModelVertices_max_depth[OF ProjectModelVertices_stack_mesh r c refl]
  from th have cell: "?g ! 2 ! 0 = fold max_step ?ds (Fin 0)"
    by blast
  from th have ub: "\<forall>d \<in> set ?ds. d \<noteq> NaN \<longrightarrow> f32_le d (?g ! 2 ! 0)"
    by blast
  from th have att: "(\<exists>d \<in> set ?ds. d \<noteq> NaN) \<longrightarrow> (\<exists>d \<in> set ?ds. f32_eq d (?g ! 2 ! 0))"
    by blast
  have v: "?g ! 2 ! 0 = Fin 1"
    unfolding cell ds by (simp add: max_step_def f32_gt_def f32_lt_def)
  from ub have b: "f32_le (Fin (1 / 2)) (?g ! 2 ! 0)" "f32_le (Fin 1) (?g ! 2 ! 0)"
    "f32_le (Fin 0) (?g ! 2 ! 0)"
    unfolding ds by simp_all
  from att have a: "\<exists>d \<in> set [Fin (1 / 2), Fin 1, Fin 0]. f32_eq d (?g ! 2 ! 0)"
    unfolding ds by simp
  have z: "?g ! 0 ! 4 = Fin 0"
    by simp
  from ProjectModelVertices_stack_mesh r c ds v b a z show ?thesis
    by blast
qed

theorem ProjectModelVertices_panics_witness:
  "(\<exists>g. ProjectModelVertices rt_amd64 oor_amd64 tri_mesh 4 ProjectFromTop = Inr g) \<and>
   can_make rt_amd64 0 24 (int_add (int_quot 4 2) 1) \<and>
   vertex_row oor_amd64 (proj_env_of tri_mesh 4 ProjectFromTop) (Arr3 (Fin 0) (Fin 1) (Fin 2))
     < int_add (int_quot 4 2) 1 \<and>
   can_make rt_amd64 0 24 (int_add (int_quot (- 1) 2) 1) \<and>
   can_make rt_amd64 (Suc 0) 4 (int_add (- 1) 1) \<and>
   ProjectModelVertices rt_amd64 oor_amd64 tri_mesh (- 1) ProjectFromTop = Inl IndexOutOfRange \<and>
   maxAlloc rt_amd64 < 24 * int_add (int_quot (2 ^ 62) 2) 1 \<and>
   ProjectModelVertices rt_amd64 oor_amd64 zeroModel (2 ^ 62) ProjectFromTop =
     Inl MakeSliceLenOutOfRange"
proof -
  have ex: "\<exists>g. ProjectModelVertices rt_amd64 oor_amd64 tri_mesh 4 ProjectFromTop = Inr g"
    by (simp add: ProjectModelVertices_tri_mesh)
  have v: "Arr3 (Fin 0) (Fin 1) (Fin 2) \<in> set (all_vertices tri_mesh)"
    by (simp add: all_vertices_def tri_mesh_def)
  note t4 = ProjectModelVertices_panics[of rt_amd64 oor_amd64 tri_mesh 4 ProjectFromTop]
  from t4 ex have c4: "can_make rt_amd64 0 24 (int_add (int_quot 4 2) 1)"
    by blast
  from t4 ex v
  have a: "vertex_row oor_amd64 (proj_env_of tri_mesh 4 ProjectFromTop)
      (Arr3 (Fin 0) (Fin 1) (Fin 2)) < int_add (int_quot 4 2) 1"
    by blast
  have r: "int_add (int_quot (- 1) 2) 1 = 1" and c: "int_add (- 1) 1 = 0"
    by (simp_all add: int_add_def int_quot_def wrap64_def)
  have cr: "can_make rt_amd64 0 24 (int_add (int_quot (- 1) 2) 1)"
    unfolding r by (simp add: can_make_def rt_amd64_def)
  have cc: "\<forall>i < nat (int_add (int_quot (- 1) 2) 1). can_make rt_amd64 (Suc i) 4 (int_add (- 1) 1)"
    unfolding r c by (simp add: can_make_def rt_amd64_def)
  then have cc0: "can_make rt_amd64 (Suc 0) 4 (int_add (- 1) 1)"
    unfolding r by simp
  have out: "\<exists>v \<in> set (all_vertices tri_mesh).
      \<not> (0 \<le> vertex_row oor_amd64 (proj_env_of tri_mesh (- 1) ProjectFromTop) v \<and>
         vertex_row oor_amd64 (proj_env_of tri_mesh (- 1) ProjectFromTop) v
           < int_add (int_quot (- 1) 2) 1 \<and>
         0 \<le> vertex_matrixY oor_amd64 (proj_env_of tri_mesh (- 1) ProjectFromTop) v \<and>
         vertex_matrixY oor_amd64 (proj_env_of tri_mesh (- 1) ProjectFromTop) v
           < int_add (- 1) 1)"
    using v unfolding c by force
  from ProjectModelVertices_panics[of rt_amd64 oor_amd64 tri_mesh "- 1" ProjectFromTop]
    cr cc out
  have b: "ProjectModelVertices rt_amd64 oor_amd64 tri_mesh (- 1) ProjectFromTop =
      Inl IndexOutOfRange"
    by blast
  have big: "maxAlloc rt_amd64 < 24 * int_add (int_quot (2 ^ 62) 2) 1"
    by (simp add: rt_amd64_def int_add_def int_quot_def wrap64_def)
  from ProjectModelVertices_panics[of rt_amd64 oor_amd64 zeroModel "2 ^ 62" ProjectFromTop] big
  have l: "ProjectModelVertices rt_amd64 oor_amd64 zeroModel (2 ^ 62) ProjectFromTop =
      Inl MakeSliceLenOutOfRange"
    by blast
  from ex c4 a cr cc0 b big l show ?thesis
    by blast
qed

theorem ProjectModelVertices_panics_counterexample:
  "ProjectModelVertices rt_amd64 oor_amd64 tri_mesh (- 1) ProjectFromSide = Inl IndexOutOfRange"
  by (simp add: ProjectModelVertices_def Let_def make_matrix_minus_1 tri_mesh_def
      mark_vertex_no_columns)


section \<open>Binary decoding\<close>

text \<open>The bytes \<^verbatim>\<open>00 00 c0 7f\<close> are a NaN and \<^verbatim>\<open>00 00 80 3f\<close> the number 1.\<close>

lemma Float32_examples:
  "Float32 [CHR 0x00, CHR 0x00, CHR 0xC0, CHR 0x7F] = NaN"
  "Float32 [CHR 0x00, CHR 0x00, CHR 0x80, CHR 0x3F] = Fin 1"
  by code_simp+


lemma ReadFull_short:
  "length r < n \<Longrightarrow> ReadFull r n = (Inl (if r = [] then EOF else ErrUnexpectedEOF), [])"
  by (simp add: ReadFull_def)

lemma ReadFull_enough: "n \<le> length r \<Longrightarrow> ReadFull r n = (Inr (take n r), drop n r)"
  by (simp add: ReadFull_def)

text \<open>The streaming decoder reports an input of fewer than 84 bytes, and one that ends
  before the last of the declared records, as an error.\<close>

lemma CreateFromBinarySTL_short:
  "length r < 84 \<Longrightarrow>
   CreateFromBinarySTL r = ((zeroModel, Some (if r = [] then EOF else ErrUnexpectedEOF)), [])"
  by (simp add: CreateFromBinarySTL_def ReadFull_short)

lemma CreateFromBinarySTL_truncated:
  assumes h: "84 \<le> length r" and t: "length r < 84 + 50 * unat (Uint32 (drop 80 (take 84 r)))"
  shows "is_truncated (snd (fst (CreateFromBinarySTL r)))"
proof -
  let ?n = "unat (Uint32 (drop 80 (take 84 r)))"
  have "length (drop 84 r) < 50 * ?n"
    using h t by simp
  from ReadFull_short[OF this] show ?thesis
    using h by (simp add: CreateFromBinarySTL_def ReadFull_enough binary_Read_def Let_def
        is_truncated_def)
qed

text \<open>The in-memory decoder slices the header off without looking at the length: a
  buffer of fewer than 84 bytes makes one of the three slice expressions panic, whatever
  its capacity.\<close>

lemma CreateFromByteSlice_short:
  "slen s < 84 \<Longrightarrow> CreateFromByteSlice s = Inl SliceBoundsOutOfRange"
  by (simp add: CreateFromByteSlice_def slice_lo_hi_def slice_from_def Let_def)

lemma CreateFromByteSlice_truncated:
  assumes h: "84 \<le> slen s" and c: "slen s \<le> length (backing s)"
    and t: "slen s < 84 + 50 * unat (Uint32 (take 4 (drop 80 (backing s))))"
  shows "\<exists>m e. CreateFromByteSlice s = Inr (m, e) \<and> is_truncated e"
proof -
  let ?n = "unat (Uint32 (take 4 (drop 80 (backing s))))"
  have b: "bytes_of \<lparr>backing = drop 80 (backing s), slen = 4\<rparr> = take 4 (drop 80 (backing s))"
    by (simp add: bytes_of_def)
  have "length (bytes_of \<lparr>backing = drop 84 (backing s), slen = slen s - 84\<rparr>) < 50 * ?n"
    using h c t by (simp add: bytes_of_def)
  from ReadFull_short[OF this] show ?thesis
    using h c by (simp add: CreateFromByteSlice_def slice_lo_hi_def slice_from_def Let_def b
        binary_Read_def is_truncated_def)
qed

text \<open>
  C1: on the empty buffer the in-memory decoder \<open>CreateFromByteSlice\<close> panics at
  \<^verbatim>\<open>byteSlice[:80]\<close>, where the streaming decoder \<open>CreateFromBinarySTL\<close> returns
  \<^verbatim>\<open>io.EOF\<close> for the same bytes.
\<close>

theorem CreateFromByteSlice_empty_panics:
  "CreateFromByteSlice (slice_of []) = Inl SliceBoundsOutOfRange \<and>
   CreateFromBinarySTL [] = ((zeroModel, Some EOF), [])"
  by (simp add: CreateFromByteSlice_def slice_of_def slice_lo_hi_def CreateFromBinarySTL_def
      ReadFull_def)


section \<open>ASCII decoding\<close>

subsection \<open>Reading a line\<close>

lemma ReadString_no_newline: "CHR 0x0A \<notin> set r \<Longrightarrow> ReadString r = (Inl EOF, [])"
  by (simp add: ReadString_def)

lemma ReadString_line:
  "CHR 0x0A \<notin> set line \<Longrightarrow>
   ReadString (line @ CHR 0x0A # rest) = (Inr (line @ [CHR 0x0A]), rest)"
proof -
  assume a: "CHR 0x0A \<notin> set line"
  then have "takeWhile (\<lambda>c. c \<noteq> CHR 0x0A) (line @ CHR 0x0A # rest) = line"
    by (induction line) auto
  moreover from a have
    "dropWhile (\<lambda>c. c \<noteq> CHR 0x0A) (line @ CHR 0x0A # rest) = CHR 0x0A # rest"
    by (induction line) auto
  ultimately show ?thesis
    by (simp add: ReadString_def)
qed

lemma ReadString_Inr:
  "ReadString r = (Inr l, r') \<Longrightarrow>
   \<exists>line. CHR 0x0A \<notin> set line \<and> l = line @ [CHR 0x0A] \<and> r = line @ CHR 0x0A # r'"
proof -
  assume a: "ReadString r = (Inr l, r')"
  let ?line = "takeWhile (\<lambda>c. c \<noteq> CHR 0x0A) r"
  from a have nl: "CHR 0x0A \<in> set r"
    by (auto simp: ReadString_def split: if_splits)
  then have "dropWhile (\<lambda>c. c \<noteq> CHR 0x0A) r \<noteq> []"
    by simp
  moreover have "hd (dropWhile (\<lambda>c. c \<noteq> CHR 0x0A) r) = CHR 0x0A"
    using nl hd_dropWhile[of "\<lambda>c. c \<noteq> CHR 0x0A" r] by auto
  ultimately have d: "dropWhile (\<lambda>c. c \<noteq> CHR 0x0A) r =
      CHR 0x0A # tl (dropWhile (\<lambda>c. c \<noteq> CHR 0x0A) r)"
    by (cases "dropWhile (\<lambda>c. c \<noteq> CHR 0x0A) r") auto
  from a nl have l: "l = ?line @ [CHR 0x0A]" and r': "r' = tl (dropWhile (\<lambda>c. c \<noteq> CHR 0x0A) r)"
    by (simp_all add: ReadString_def)
  have "r = ?line @ dropWhile (\<lambda>c. c \<noteq> CHR 0x0A) r"
    by simp
  with d r' have "r = ?line @ CHR 0x0A # r'"
    by simp
  moreover have "CHR 0x0A \<notin> set ?line"
    by (auto dest: set_takeWhileD)
  ultimately show ?thesis
    using l by blast
qed

subsection \<open>The header\<close>

lemma read_facets_Header: "Header (fst (read_facets pf m r)) = Header m"
proof (induction pf m r rule: read_facets.induct)
  case (1 pf m r)
  show ?case
  proof (cases "read_facet pf r")
    case Stop
    then show ?thesis by (simp add: read_facets.simps[of pf m r])
  next
    case (Abort e)
    then show ?thesis by (simp add: read_facets.simps[of pf m r])
  next
    case (Next t r')
    with "1.IH"[OF Next] show ?thesis
      by (simp add: read_facets.simps[of pf m r] append_triangle_def)
  qed
qed

lemma Trim_wrap:
  assumes a: "a \<in> set cs" and b: "b \<in> set cs"
  shows "Trim (a # s @ [b]) cs = Trim s cs"
proof (cases "\<forall>c \<in> set s. c \<in> set cs")
  case True
  have d1: "dropWhile (\<lambda>c. c \<in> set cs) s = []"
    using True by (simp add: dropWhile_eq_Nil_conv)
  have "\<forall>c \<in> set (s @ [b]). c \<in> set cs"
    using True b by simp
  then have d2: "dropWhile (\<lambda>c. c \<in> set cs) (s @ [b]) = []"
    unfolding dropWhile_eq_Nil_conv .
  have "dropWhile (\<lambda>c. c \<in> set cs) (a # s @ [b]) = dropWhile (\<lambda>c. c \<in> set cs) (s @ [b])"
    using a by simp
  then show ?thesis
    unfolding Trim_def d1 d2 by simp
next
  case False
  then obtain x where "x \<in> set s" "\<not> x \<in> set cs"
    by blast
  then have d: "dropWhile (\<lambda>c. c \<in> set cs) (s @ [b]) = dropWhile (\<lambda>c. c \<in> set cs) s @ [b]"
    by (rule dropWhile_append1)
  have "dropWhile (\<lambda>c. c \<in> set cs) (a # s @ [b]) = dropWhile (\<lambda>c. c \<in> set cs) (s @ [b])"
    using a by simp
  then show ?thesis
    unfolding Trim_def d using b by simp
qed

lemma Trim_name:
  "Trim (CHR '' '' # name @ [CHR 0x0A]) [CHR '' '', CHR 0x0A] = Trim name [CHR '' '', CHR 0x0A]"
  by (rule Trim_wrap) simp_all

text \<open>
  C3, as the code has it: when the first line cannot be read (the input holds no newline)
  the decoder returns at once with the error; otherwise it does not look for
  \<^verbatim>\<open>solid \<close>: on a first line of at least 5 bytes (newline included) it skips the first
  5 bytes, whatever they are, and what is left, trimmed of spaces and newlines, is the name
  at the end of the header of the model it returns; on \<^verbatim>\<open>solid \<close> followed by a name
  this is the name, trimmed.
\<close>

theorem CreateFromASCIISTL_header:
  "(CHR 0x0A \<notin> set r \<longrightarrow> CreateFromASCIISTL pf r = Inr (zeroModel, Some EOF)) \<and>
   (CHR 0x0A \<notin> set line \<and> 4 \<le> length line \<longrightarrow>
      CreateFromASCIISTL pf (line @ CHR 0x0A # rest) =
        Inr (read_facets pf
          (zeroModel\<lparr>Header := ''Imported from ASCII STL by stl2ascii - ''
             @ Trim (drop 5 (line @ [CHR 0x0A])) [CHR '' '', CHR 0x0A]\<rparr>) rest) \<and>
      (\<exists>m err. CreateFromASCIISTL pf (line @ CHR 0x0A # rest) = Inr (m, err) \<and>
         Header m = ''Imported from ASCII STL by stl2ascii - ''
             @ Trim (drop 5 (line @ [CHR 0x0A])) [CHR '' '', CHR 0x0A])) \<and>
   (CHR 0x0A \<notin> set name \<longrightarrow>
      (\<exists>m err. CreateFromASCIISTL pf (''solid '' @ name @ CHR 0x0A # rest) = Inr (m, err) \<and>
         Header m = ''Imported from ASCII STL by stl2ascii - ''
             @ Trim name [CHR '' '', CHR 0x0A]))"
proof (intro conjI impI)
  assume "CHR 0x0A \<notin> set r"
  then show "CreateFromASCIISTL pf r = Inr (zeroModel, Some EOF)"
    by (simp add: CreateFromASCIISTL_def ReadString_no_newline)
next
  let ?h = "''Imported from ASCII STL by stl2ascii - ''
             @ Trim (drop 5 (line @ [CHR 0x0A])) [CHR '' '', CHR 0x0A]"
  assume a: "CHR 0x0A \<notin> set line \<and> 4 \<le> length line"
  then show eq: "CreateFromASCIISTL pf (line @ CHR 0x0A # rest) =
        Inr (read_facets pf (zeroModel\<lparr>Header := ?h\<rparr>) rest)"
    by (simp add: CreateFromASCIISTL_def ReadString_line)
  have "Header (fst (read_facets pf (zeroModel\<lparr>Header := ?h\<rparr>) rest)) =
      Header (zeroModel\<lparr>Header := ?h\<rparr>)"
    by (rule read_facets_Header)
  then have "Header (fst (read_facets pf (zeroModel\<lparr>Header := ?h\<rparr>) rest)) = ?h"
    by simp
  then show "\<exists>m err. CreateFromASCIISTL pf (line @ CHR 0x0A # rest) = Inr (m, err) \<and>
         Header m = ?h"
    unfolding eq by (cases "read_facets pf (zeroModel\<lparr>Header := ?h\<rparr>) rest") auto
next
  let ?h = "''Imported from ASCII STL by stl2ascii - '' @ Trim name [CHR '' '', CHR 0x0A]"
  assume a: "CHR 0x0A \<notin> set name"
  then have nl: "CHR 0x0A \<notin> set (''solid '' @ name)"
    by simp
  have d: "drop 5 ((''solid '' @ name) @ [CHR 0x0A]) = CHR '' '' # name @ [CHR 0x0A]"
    by simp
  have eq: "CreateFromASCIISTL pf ((''solid '' @ name) @ CHR 0x0A # rest) =
        Inr (read_facets pf (zeroModel\<lparr>Header := ?h\<rparr>) rest)"
    unfolding CreateFromASCIISTL_def ReadString_line[OF nl] by (simp add: Trim_name)
  have "Header (fst (read_facets pf (zeroModel\<lparr>Header := ?h\<rparr>) rest)) =
      Header (zeroModel\<lparr>Header := ?h\<rparr>)"
    by (rule read_facets_Header)
  then have "Header (fst (read_facets pf (zeroModel\<lparr>Header := ?h\<rparr>) rest)) = ?h"
    by simp
  with eq show "\<exists>m err. CreateFromASCIISTL pf (''solid '' @ name @ CHR 0x0A # rest) = Inr (m, err) \<and>
         Header m = ?h"
    by (cases "read_facets pf (zeroModel\<lparr>Header := ?h\<rparr>) rest") auto
qed

subsection \<open>The end of the facet loop\<close>

lemma readAndTreatLine_no_newline:
  "CHR 0x0A \<notin> set r \<Longrightarrow> readAndTreatLine r p s n = (Inl EOF, [])"
  by (simp add: readAndTreatLine_def ReadString_no_newline)

lemma readAndTreatLine_other_prefix:
  assumes nl: "CHR 0x0A \<notin> set l"
    and np: "take (length p) (Trim (l @ [CHR 0x0A]) [CHR '' '', CHR 0x09, CHR 0x0A, CHR 0x0D]) \<noteq> p"
  shows "fst (readAndTreatLine (l @ CHR 0x0A # rest) p s n) = Inl LineShorter \<or>
         fst (readAndTreatLine (l @ CHR 0x0A # rest) p s n) = Inl LineDifferent"
  using np by (simp add: readAndTreatLine_def ReadString_line[OF nl] Let_def)

lemma read_facet_Stop_iff:
  "read_facet pf r = Stop \<longleftrightarrow> (\<exists>e. fst (readAndTreatLine r ''facet normal '' '' '' 3) = Inl e)"
  unfolding read_facet_def by (auto split: prod.splits sum.splits)

lemma read_facets_Stop: "read_facet pf r = Stop \<Longrightarrow> read_facets pf m r = (m, None)"
  by (simp add: read_facets.simps[of pf m r])

lemma read_facets_Abort: "read_facet pf r = Abort e \<Longrightarrow> read_facets pf m r = (m, Some e)"
  by (simp add: read_facets.simps[of pf m r])

lemma read_facets_Next:
  "read_facet pf r = Next t r' \<Longrightarrow> read_facets pf m r = read_facets pf (append_triangle m t) r'"
  by (simp add: read_facets.simps[of pf m r])

lemma read_facets_None:
  "read_facets pf m r = (m', None) \<Longrightarrow>
   \<exists>ts r'. reads_facets pf r ts r' \<and> read_facet pf r' = Stop \<and>
     m' = m\<lparr>Triangles := Triangles m @ ts,
             NumTriangles := NumTriangles m + of_nat (length ts)\<rparr>"
proof (induction pf m r rule: read_facets.induct)
  case (1 pf m r)
  show ?case
  proof (cases "read_facet pf r")
    case Stop
    with "1.prems" have "m' = m"
      by (simp add: read_facets_Stop)
    then have "m' = m\<lparr>Triangles := Triangles m @ [],
        NumTriangles := NumTriangles m + of_nat (length ([]::Triangle list))\<rparr>"
      by simp
    with Stop reads_facets.none[of pf r] show ?thesis
      by blast
  next
    case (Abort e)
    with "1.prems" show ?thesis
      by (simp add: read_facets_Abort)
  next
    case (Next t r1)
    with "1.prems" have "read_facets pf (append_triangle m t) r1 = (m', None)"
      by (simp add: read_facets_Next)
    from "1.IH"[OF Next this] obtain ts r' where
      rf: "reads_facets pf r1 ts r'" and st: "read_facet pf r' = Stop" and
      m': "m' = (append_triangle m t)\<lparr>Triangles := Triangles (append_triangle m t) @ ts,
             NumTriangles := NumTriangles (append_triangle m t) + of_nat (length ts)\<rparr>"
      by blast
    from m' have "m' = m\<lparr>Triangles := Triangles m @ (t # ts),
        NumTriangles := NumTriangles m + of_nat (length (t # ts))\<rparr>"
      by (simp add: append_triangle_def add.assoc add.commute)
    with reads_facets.more[OF Next rf] st show ?thesis
      by blast
  qed
qed

lemma reads_facets_Stop:
  "reads_facets pf r ts r' \<Longrightarrow> read_facet pf r' = Stop \<Longrightarrow>
   read_facets pf m r =
     (m\<lparr>Triangles := Triangles m @ ts,
        NumTriangles := NumTriangles m + of_nat (length ts)\<rparr>, None)"
proof (induction arbitrary: m rule: reads_facets.induct)
  case (none pf r)
  then show ?case
    by (simp add: read_facets_Stop)
next
  case (more pf r t r1 ts r')
  from more.IH[OF more.prems, of "append_triangle m t"] more.hyps(1) show ?case
    by (simp add: read_facets_Next append_triangle_def add.assoc add.commute)
qed

lemma read_facets_None_iff:
  "read_facets pf m r = (m', None) \<longleftrightarrow>
     (\<exists>ts r' e'. reads_facets pf r ts r' \<and>
        fst (readAndTreatLine r' ''facet normal '' '' '' 3) = Inl e' \<and>
        m' = m\<lparr>Triangles := Triangles m @ ts,
                NumTriangles := NumTriangles m + of_nat (length ts)\<rparr>)"
proof
  assume "read_facets pf m r = (m', None)"
  from read_facets_None[OF this] show "\<exists>ts r' e'. reads_facets pf r ts r' \<and>
        fst (readAndTreatLine r' ''facet normal '' '' '' 3) = Inl e' \<and>
        m' = m\<lparr>Triangles := Triangles m @ ts,
                NumTriangles := NumTriangles m + of_nat (length ts)\<rparr>"
    unfolding read_facet_Stop_iff by blast
next
  assume "\<exists>ts r' e'. reads_facets pf r ts r' \<and>
        fst (readAndTreatLine r' ''facet normal '' '' '' 3) = Inl e' \<and>
        m' = m\<lparr>Triangles := Triangles m @ ts,
                NumTriangles := NumTriangles m + of_nat (length ts)\<rparr>"
  then obtain ts r' where rf: "reads_facets pf r ts r'" and st: "read_facet pf r' = Stop"
    and m': "m' = m\<lparr>Triangles := Triangles m @ ts,
                NumTriangles := NumTriangles m + of_nat (length ts)\<rparr>"
    unfolding read_facet_Stop_iff by blast
  from reads_facets_Stop[OF rf st, of m] m' show "read_facets pf m r = (m', None)"
    by simp
qed

lemma CreateFromASCIISTL_None_iff:
  "CreateFromASCIISTL pf inp = Inr (m', None) \<longleftrightarrow>
     (\<exists>line rest ts r' e'.
        inp = line @ CHR 0x0A # rest \<and> CHR 0x0A \<notin> set line \<and> 4 \<le> length line \<and>
        reads_facets pf rest ts r' \<and>
        fst (readAndTreatLine r' ''facet normal '' '' '' 3) = Inl e' \<and>
        m' = \<lparr>Header = ''Imported from ASCII STL by stl2ascii - ''
                  @ Trim (drop 5 (line @ [CHR 0x0A])) [CHR '' '', CHR 0x0A],
              NumTriangles = of_nat (length ts), Triangles = ts\<rparr>)"
proof
  assume a: "CreateFromASCIISTL pf inp = Inr (m', None)"
  then obtain l r0 where rs: "ReadString inp = (Inr l, r0)" and len: "\<not> length l < 5"
    by (auto simp: CreateFromASCIISTL_def split: prod.splits sum.splits if_splits)
  from ReadString_Inr[OF rs] obtain line where nl: "CHR 0x0A \<notin> set line"
    and l: "l = line @ [CHR 0x0A]" and inp: "inp = line @ CHR 0x0A # r0"
    by blast
  from len l have ln: "4 \<le> length line"
    by simp
  let ?h = "''Imported from ASCII STL by stl2ascii - ''
              @ Trim (drop 5 (line @ [CHR 0x0A])) [CHR '' '', CHR 0x0A]"
  from a rs len l have "read_facets pf (zeroModel\<lparr>Header := ?h\<rparr>) r0 = (m', None)"
    by (simp add: CreateFromASCIISTL_def)
  then obtain ts r' e' where rf: "reads_facets pf r0 ts r'"
    and e': "fst (readAndTreatLine r' ''facet normal '' '' '' 3) = Inl e'"
    and m': "m' = (zeroModel\<lparr>Header := ?h\<rparr>)
        \<lparr>Triangles := Triangles (zeroModel\<lparr>Header := ?h\<rparr>) @ ts,
          NumTriangles := NumTriangles (zeroModel\<lparr>Header := ?h\<rparr>) + of_nat (length ts)\<rparr>"
    unfolding read_facets_None_iff by blast
  from m' have "m' = \<lparr>Header = ?h, NumTriangles = of_nat (length ts), Triangles = ts\<rparr>"
    by (simp add: zeroModel_def)
  with inp nl ln rf e' show "\<exists>line rest ts r' e'.
        inp = line @ CHR 0x0A # rest \<and> CHR 0x0A \<notin> set line \<and> 4 \<le> length line \<and>
        reads_facets pf rest ts r' \<and>
        fst (readAndTreatLine r' ''facet normal '' '' '' 3) = Inl e' \<and>
        m' = \<lparr>Header = ''Imported from ASCII STL by stl2ascii - ''
                  @ Trim (drop 5 (line @ [CHR 0x0A])) [CHR '' '', CHR 0x0A],
              NumTriangles = of_nat (length ts), Triangles = ts\<rparr>"
    by blast
next
  assume "\<exists>line rest ts r' e'.
        inp = line @ CHR 0x0A # rest \<and> CHR 0x0A \<notin> set line \<and> 4 \<le> length line \<and>
        reads_facets pf rest ts r' \<and>
        fst (readAndTreatLine r' ''facet normal '' '' '' 3) = Inl e' \<and>
        m' = \<lparr>Header = ''Imported from ASCII STL by stl2ascii - ''
                  @ Trim (drop 5 (line @ [CHR 0x0A])) [CHR '' '', CHR 0x0A],
              NumTriangles = of_nat (length ts), Triangles = ts\<rparr>"
  then obtain line rest ts r' e' where inp: "inp = line @ CHR 0x0A # rest"
    and nl: "CHR 0x0A \<notin> set line" and ln: "4 \<le> length line"
    and rf: "reads_facets pf rest ts r'"
    and e': "fst (readAndTreatLine r' ''facet normal '' '' '' 3) = Inl e'"
    and m': "m' = \<lparr>Header = ''Imported from ASCII STL by stl2ascii - ''
                  @ Trim (drop 5 (line @ [CHR 0x0A])) [CHR '' '', CHR 0x0A],
              NumTriangles = of_nat (length ts), Triangles = ts\<rparr>"
    by blast
  let ?h = "''Imported from ASCII STL by stl2ascii - ''
              @ Trim (drop 5 (line @ [CHR 0x0A])) [CHR '' '', CHR 0x0A]"
  from e' have st: "read_facet pf r' = Stop"
    unfolding read_facet_Stop_iff by blast
  from reads_facets_Stop[OF rf st, of "zeroModel\<lparr>Header := ?h\<rparr>"] m'
  have "read_facets pf (zeroModel\<lparr>Header := ?h\<rparr>) rest = (m', None)"
    by (simp add: zeroModel_def)
  with ln show "CreateFromASCIISTL pf inp = Inr (m', None)"
    unfolding inp CreateFromASCIISTL_def ReadString_line[OF nl] by simp
qed

text \<open>
  C4: when the line read for \<^verbatim>\<open>facet normal \<close> does not match, for whatever reason,
  the loop ends and the decoder returns the model built so far with a nil error; a nil
  error is returned in no other way. The loop returns a nil error exactly when it has read
  whole facets up to a point where that line did not match, and the model it returns is
  then the one it started from with the triangles of these facets appended, in the order
  read, and \<open>NumTriangles\<close> raised by their number. The decoder returns a nil error exactly
  when the input is a first line of at least 5 bytes, newline included, followed by whole
  facets up to a point where that line did not match; the model is then the header built
  from the first line, the triangles of these facets and their number. The line does not
  match at the end of the stream (no newline is left) and when, trimmed, it does not begin
  with \<^verbatim>\<open>facet normal \<close>, as a shorter line and an \<^verbatim>\<open>endsolid\<close> line do.
\<close>

theorem read_facets_ends:
  "(fst (readAndTreatLine r ''facet normal '' '' '' 3) = Inl e \<longrightarrow>
      read_facets pf m r = (m, None)) \<and>
   (read_facets pf m r = (m', None) \<longleftrightarrow>
      (\<exists>ts r' e'. reads_facets pf r ts r' \<and>
         fst (readAndTreatLine r' ''facet normal '' '' '' 3) = Inl e' \<and>
         m' = m\<lparr>Triangles := Triangles m @ ts,
                 NumTriangles := NumTriangles m + of_nat (length ts)\<rparr>)) \<and>
   (CreateFromASCIISTL pf inp = Inr (m'', None) \<longleftrightarrow>
      (\<exists>line rest ts r' e'.
         inp = line @ CHR 0x0A # rest \<and> CHR 0x0A \<notin> set line \<and> 4 \<le> length line \<and>
         reads_facets pf rest ts r' \<and>
         fst (readAndTreatLine r' ''facet normal '' '' '' 3) = Inl e' \<and>
         m'' = \<lparr>Header = ''Imported from ASCII STL by stl2ascii - ''
                   @ Trim (drop 5 (line @ [CHR 0x0A])) [CHR '' '', CHR 0x0A],
                NumTriangles = of_nat (length ts), Triangles = ts\<rparr>)) \<and>
   (CHR 0x0A \<notin> set r \<longrightarrow> fst (readAndTreatLine r ''facet normal '' '' '' 3) = Inl EOF) \<and>
   (CHR 0x0A \<notin> set l \<and>
    take (length ''facet normal '')
      (Trim (l @ [CHR 0x0A]) [CHR '' '', CHR 0x09, CHR 0x0A, CHR 0x0D]) \<noteq> ''facet normal ''
    \<longrightarrow> (\<exists>e'. fst (readAndTreatLine (l @ CHR 0x0A # rest0) ''facet normal '' '' '' 3) = Inl e'))"
proof (intro conjI impI)
  assume "fst (readAndTreatLine r ''facet normal '' '' '' 3) = Inl e"
  then have "read_facet pf r = Stop"
    unfolding read_facet_Stop_iff by blast
  then show "read_facets pf m r = (m, None)"
    by (rule read_facets_Stop)
next
  show "read_facets pf m r = (m', None) \<longleftrightarrow>
      (\<exists>ts r' e'. reads_facets pf r ts r' \<and>
         fst (readAndTreatLine r' ''facet normal '' '' '' 3) = Inl e' \<and>
         m' = m\<lparr>Triangles := Triangles m @ ts,
                 NumTriangles := NumTriangles m + of_nat (length ts)\<rparr>)"
    by (rule read_facets_None_iff)
next
  show "CreateFromASCIISTL pf inp = Inr (m'', None) \<longleftrightarrow>
      (\<exists>line rest ts r' e'.
         inp = line @ CHR 0x0A # rest \<and> CHR 0x0A \<notin> set line \<and> 4 \<le> length line \<and>
         reads_facets pf rest ts r' \<and>
         fst (readAndTreatLine r' ''facet normal '' '' '' 3) = Inl e' \<and>
         m'' = \<lparr>Header = ''Imported from ASCII STL by stl2ascii - ''
                   @ Trim (drop 5 (line @ [CHR 0x0A])) [CHR '' '', CHR 0x0A],
                NumTriangles = of_nat (length ts), Triangles = ts\<rparr>)"
    by (rule CreateFromASCIISTL_None_iff)
next
  assume "CHR 0x0A \<notin> set r"
  then show "fst (readAndTreatLine r ''facet normal '' '' '' 3) = Inl EOF"
    by (simp add: readAndTreatLine_no_newline)
next
  assume a: "CHR 0x0A \<notin> set l \<and>
    take (length ''facet normal '')
      (Trim (l @ [CHR 0x0A]) [CHR '' '', CHR 0x09, CHR 0x0A, CHR 0x0D]) \<noteq> ''facet normal ''"
  then have nl: "CHR 0x0A \<notin> set l" and
    np: "take (length ''facet normal '')
          (Trim (l @ [CHR 0x0A]) [CHR '' '', CHR 0x09, CHR 0x0A, CHR 0x0D]) \<noteq> ''facet normal ''"
    by blast+
  from readAndTreatLine_other_prefix[OF nl np, of rest0 "'' ''" 3]
  show "\<exists>e'. fst (readAndTreatLine (l @ CHR 0x0A # rest0) ''facet normal '' '' '' 3) = Inl e'"
    by blast
qed

subsection \<open>The decoder on example inputs\<close>

lemma read_facet_ascii_facet: "read_facet pf01 ascii_facet = Next ascii_triangle ''endsolid t\<newline>''"
  by code_simp

lemma readAndTreatLine_endsolid:
  "fst (readAndTreatLine ''endsolid t\<newline>'' ''facet normal '' '' '' 3) = Inl LineShorter"
  by code_simp

lemma read_facets_ascii_facet:
  "read_facets pf01 m ascii_facet = (append_triangle m ascii_triangle, None)"
proof -
  have "read_facet pf01 ''endsolid t\<newline>'' = Stop"
    unfolding read_facet_Stop_iff using readAndTreatLine_endsolid by blast
  then show ?thesis
    by (simp add: read_facets_Next[OF read_facet_ascii_facet] read_facets_Stop)
qed

theorem CreateFromASCIISTL_header_witness:
  "CreateFromASCIISTL pf01 ''solid t'' = Inr (zeroModel, Some EOF) \<and>
   CreateFromASCIISTL pf01 (''solid t'' @ CHR 0x0A # ascii_facet) =
     Inr (append_triangle
            (zeroModel\<lparr>Header := ''Imported from ASCII STL by stl2ascii - t''\<rparr>)
            ascii_triangle, None) \<and>
   (\<exists>m err. CreateFromASCIISTL pf01 (''solid t'' @ CHR 0x0A # ascii_facet) = Inr (m, err) \<and>
      Header m = ''Imported from ASCII STL by stl2ascii - t'')"
proof -
  note th = CreateFromASCIISTL_header[of "''solid t''" pf01 "''solid t''" ascii_facet "''t''"]
  have nl: "CHR 0x0A \<notin> set ''solid t''" "CHR 0x0A \<notin> set ''t''" "4 \<le> length ''solid t''"
    by simp_all
  have tr: "Trim (drop 5 (''solid t'' @ [CHR 0x0A])) [CHR '' '', CHR 0x0A] = ''t''"
    "Trim ''t'' [CHR '' '', CHR 0x0A] = ''t''"
    by (simp_all add: Trim_def)
  from th nl have a: "CreateFromASCIISTL pf01 ''solid t'' = Inr (zeroModel, Some EOF)"
    by blast
  from th nl have "CreateFromASCIISTL pf01 (''solid t'' @ CHR 0x0A # ascii_facet) =
        Inr (read_facets pf01
          (zeroModel\<lparr>Header := ''Imported from ASCII STL by stl2ascii - ''
             @ Trim (drop 5 (''solid t'' @ [CHR 0x0A])) [CHR '' '', CHR 0x0A]\<rparr>) ascii_facet)"
    by blast
  then have b: "CreateFromASCIISTL pf01 (''solid t'' @ CHR 0x0A # ascii_facet) =
     Inr (append_triangle
            (zeroModel\<lparr>Header := ''Imported from ASCII STL by stl2ascii - t''\<rparr>)
            ascii_triangle, None)"
    unfolding tr read_facets_ascii_facet by simp
  from th nl have "\<exists>m err.
      CreateFromASCIISTL pf01 (''solid '' @ ''t'' @ CHR 0x0A # ascii_facet) = Inr (m, err) \<and>
      Header m = ''Imported from ASCII STL by stl2ascii - '' @ Trim ''t'' [CHR '' '', CHR 0x0A]"
    by blast
  then have c: "\<exists>m err.
      CreateFromASCIISTL pf01 (''solid t'' @ CHR 0x0A # ascii_facet) = Inr (m, err) \<and>
      Header m = ''Imported from ASCII STL by stl2ascii - t''"
    unfolding tr by simp
  from a b c show ?thesis
    by blast
qed

theorem CreateFromASCIISTL_header_counterexample:
  "CreateFromASCIISTL pf01 ''hello world\<newline>'' =
   Inr (zeroModel\<lparr>Header := ''Imported from ASCII STL by stl2ascii - world''\<rparr>, None)"
  by code_simp

lemma read_facet_ascii_two: "read_facet pf01 ascii_two = Next ascii_triangle2 ascii_facet"
  by code_simp

lemma read_facet_cut_short:
  "read_facet pf01 ''facet normal 0 0 1\<newline>outer loop\<newline>'' = Abort EOF"
  by code_simp

text \<open>The loop on the two facets, turn by turn, and on a facet that is cut short.\<close>

lemma read_facets_ascii_two:
  "read_facets pf01 zeroModel ascii_two =
     (\<lparr>Header = [], NumTriangles = 2, Triangles = [ascii_triangle2, ascii_triangle]\<rparr>, None)"
  unfolding read_facets_Next[OF read_facet_ascii_two] read_facets_ascii_facet
  by (simp add: append_triangle_def zeroModel_def)

lemma read_facets_cut_short:
  "read_facets pf01 zeroModel ''facet normal 0 0 1\<newline>outer loop\<newline>'' = (zeroModel, Some EOF)"
  by (rule read_facets_Abort[OF read_facet_cut_short])

theorem read_facets_ends_witness:
  "fst (readAndTreatLine ''endsolid t\<newline>'' ''facet normal '' '' '' 3) = Inl LineShorter \<and>
   read_facets pf01 zeroModel ''endsolid t\<newline>'' = (zeroModel, None) \<and>
   read_facets pf01 zeroModel ascii_two =
     (\<lparr>Header = [], NumTriangles = 2, Triangles = [ascii_triangle2, ascii_triangle]\<rparr>, None) \<and>
   CreateFromASCIISTL pf01 (''solid t'' @ CHR 0x0A # ascii_two) =
     Inr (\<lparr>Header = ''Imported from ASCII STL by stl2ascii - t'', NumTriangles = 2,
           Triangles =
             [\<lparr>Normal = Arr3 (Fin 1) (Fin 0) (Fin 0),
               Vertices = Arr3 (Arr3 (Fin 1) (Fin 1) (Fin 1)) (Arr3 (Fin 0) (Fin 0) (Fin 1))
                               (Arr3 (Fin 1) (Fin 0) (Fin 1)),
               AttrByteCount = 0\<rparr>,
              \<lparr>Normal = Arr3 (Fin 0) (Fin 0) (Fin 1),
               Vertices = Arr3 (Arr3 (Fin 0) (Fin 0) (Fin 0)) (Arr3 (Fin 1) (Fin 0) (Fin 0))
                               (Arr3 (Fin 0) (Fin 1) (Fin 0)),
               AttrByteCount = 0\<rparr>]\<rparr>, None) \<and>
   (\<exists>ts r' e'. reads_facets pf01 ascii_facet ts r' \<and>
      fst (readAndTreatLine r' ''facet normal '' '' '' 3) = Inl e' \<and>
      \<lparr>Header = ''h'', NumTriangles = 8, Triangles = [ascii_triangle2, ascii_triangle]\<rparr> =
        \<lparr>Header = ''h'', NumTriangles = 7, Triangles = [ascii_triangle2]\<rparr>
          \<lparr>Triangles := [ascii_triangle2] @ ts, NumTriangles := 7 + of_nat (length ts)\<rparr>) \<and>
   fst (readAndTreatLine ''facet normal 0 0 1'' ''facet normal '' '' '' 3) = Inl EOF \<and>
   (\<exists>e'. fst (readAndTreatLine (''vertex 0 0 0'' @ CHR 0x0A # ''endloop'')
            ''facet normal '' '' '' 3) = Inl e')"
proof -
  note t1 = read_facets_ends[where r = "''endsolid t\<newline>''" and e = LineShorter and pf = pf01
      and m = zeroModel]
  from t1 readAndTreatLine_endsolid
  have a: "read_facets pf01 zeroModel ''endsolid t\<newline>'' = (zeroModel, None)"
    by blast
  have rf1: "reads_facets pf01 ascii_facet [ascii_triangle] ''endsolid t\<newline>''"
    by (rule reads_facets.more[OF read_facet_ascii_facet reads_facets.none])
  have rf2: "reads_facets pf01 ascii_two [ascii_triangle2, ascii_triangle] ''endsolid t\<newline>''"
    by (rule reads_facets.more[OF read_facet_ascii_two rf1])
  note t2 = read_facets_ends[where pf = pf01 and m = zeroModel and r = ascii_two
      and m' = "zeroModel\<lparr>Triangles := Triangles zeroModel @ [ascii_triangle2, ascii_triangle],
        NumTriangles := NumTriangles zeroModel
          + of_nat (length [ascii_triangle2, ascii_triangle])\<rparr>"]
  from t2 rf2 readAndTreatLine_endsolid
  have "read_facets pf01 zeroModel ascii_two =
      (zeroModel\<lparr>Triangles := Triangles zeroModel @ [ascii_triangle2, ascii_triangle],
        NumTriangles := NumTriangles zeroModel
          + of_nat (length [ascii_triangle2, ascii_triangle])\<rparr>, None)"
    by blast
  then have b: "read_facets pf01 zeroModel ascii_two =
     (\<lparr>Header = [], NumTriangles = 2, Triangles = [ascii_triangle2, ascii_triangle]\<rparr>, None)"
    by (simp add: zeroModel_def)
  have nl0: "CHR 0x0A \<notin> set ''solid t''" "4 \<le> length ''solid t''"
    by simp_all
  have tr: "Trim (drop 5 (''solid t'' @ [CHR 0x0A])) [CHR '' '', CHR 0x0A] = ''t''"
    by (simp add: Trim_def)
  note t3 = read_facets_ends[where pf = pf01 and inp = "''solid t'' @ CHR 0x0A # ascii_two"
      and m'' = "\<lparr>Header = ''Imported from ASCII STL by stl2ascii - ''
                   @ Trim (drop 5 (''solid t'' @ [CHR 0x0A])) [CHR '' '', CHR 0x0A],
                NumTriangles = of_nat (length [ascii_triangle2, ascii_triangle]),
                Triangles = [ascii_triangle2, ascii_triangle]\<rparr>"]
  from t3 nl0 rf2 readAndTreatLine_endsolid
  have "CreateFromASCIISTL pf01 (''solid t'' @ CHR 0x0A # ascii_two) =
      Inr (\<lparr>Header = ''Imported from ASCII STL by stl2ascii - ''
                   @ Trim (drop 5 (''solid t'' @ [CHR 0x0A])) [CHR '' '', CHR 0x0A],
                NumTriangles = of_nat (length [ascii_triangle2, ascii_triangle]),
                Triangles = [ascii_triangle2, ascii_triangle]\<rparr>, None)"
    by blast
  then have c: "CreateFromASCIISTL pf01 (''solid t'' @ CHR 0x0A # ascii_two) =
     Inr (\<lparr>Header = ''Imported from ASCII STL by stl2ascii - t'', NumTriangles = 2,
           Triangles =
             [\<lparr>Normal = Arr3 (Fin 1) (Fin 0) (Fin 0),
               Vertices = Arr3 (Arr3 (Fin 1) (Fin 1) (Fin 1)) (Arr3 (Fin 0) (Fin 0) (Fin 1))
                               (Arr3 (Fin 1) (Fin 0) (Fin 1)),
               AttrByteCount = 0\<rparr>,
              \<lparr>Normal = Arr3 (Fin 0) (Fin 0) (Fin 1),
               Vertices = Arr3 (Arr3 (Fin 0) (Fin 0) (Fin 0)) (Arr3 (Fin 1) (Fin 0) (Fin 0))
                               (Arr3 (Fin 0) (Fin 1) (Fin 0)),
               AttrByteCount = 0\<rparr>]\<rparr>, None)"
    unfolding tr by (simp add: ascii_triangle_def ascii_triangle2_def)
  have start: "read_facets pf01
      \<lparr>Header = ''h'', NumTriangles = 7, Triangles = [ascii_triangle2]\<rparr> ascii_facet =
      (\<lparr>Header = ''h'', NumTriangles = 8, Triangles = [ascii_triangle2, ascii_triangle]\<rparr>, None)"
    unfolding read_facets_ascii_facet by (simp add: append_triangle_def)
  note t4 = read_facets_ends[where pf = pf01
      and m = "\<lparr>Header = ''h'', NumTriangles = 7, Triangles = [ascii_triangle2]\<rparr>"
      and r = ascii_facet
      and m' = "\<lparr>Header = ''h'', NumTriangles = 8,
                 Triangles = [ascii_triangle2, ascii_triangle]\<rparr>"]
  from t4 start have d: "\<exists>ts r' e'. reads_facets pf01 ascii_facet ts r' \<and>
      fst (readAndTreatLine r' ''facet normal '' '' '' 3) = Inl e' \<and>
      \<lparr>Header = ''h'', NumTriangles = 8, Triangles = [ascii_triangle2, ascii_triangle]\<rparr> =
        \<lparr>Header = ''h'', NumTriangles = 7, Triangles = [ascii_triangle2]\<rparr>
          \<lparr>Triangles := [ascii_triangle2] @ ts, NumTriangles := 7 + of_nat (length ts)\<rparr>"
    by simp
  have nl: "CHR 0x0A \<notin> set ''facet normal 0 0 1''" "CHR 0x0A \<notin> set ''vertex 0 0 0''"
    by simp_all
  note t5 = read_facets_ends[where r = "''facet normal 0 0 1''" and l = "''vertex 0 0 0''"
      and ?rest0.0 = "''endloop''"]
  from t5 nl have e: "fst (readAndTreatLine ''facet normal 0 0 1'' ''facet normal '' '' '' 3)
      = Inl EOF"
    by blast
  have "take (length ''facet normal '')
      (Trim (''vertex 0 0 0'' @ [CHR 0x0A]) [CHR '' '', CHR 0x09, CHR 0x0A, CHR 0x0D])
      \<noteq> ''facet normal ''"
    by (simp add: Trim_def)
  with t5 nl have f: "\<exists>e'. fst (readAndTreatLine (''vertex 0 0 0'' @ CHR 0x0A # ''endloop'')
            ''facet normal '' '' '' 3) = Inl e'"
    by blast
  from readAndTreatLine_endsolid a b c d e f show ?thesis
    by blast
qed


end
